theory Spec2Isabelle
  imports Main "HOL-Library.Word"
begin

unbundle bit_operations_syntax

section \<open>Machine types\<close>

text \<open>
  The marshaling code of \<^verbatim>\<open>src/core/marsh.c\<close> works on \<^verbatim>\<open>uint8_t\<close> bytes,
  \<^verbatim>\<open>int32_t\<close> integers, \<^verbatim>\<open>uint32_t\<close> bytecode words and doubles. Bytes and
  integers are words; \<^verbatim>\<open>>>\<close> on an \<^verbatim>\<open>int32_t\<close> is the arithmetic shift
  \<open>signed_drop_bit\<close>, comparisons of \<^verbatim>\<open>int32_t\<close> values are the signed ones.
\<close>

type_synonym byte = "8 word"
type_synonym i32 = "32 word"
type_synonym u32 = "32 word"

section \<open>The integer codec\<close>

subsection \<open>Writer side: the bytes of \<^verbatim>\<open>pushint\<close>\<close>

text \<open>
  \<^verbatim>\<open>pushint\<close> fills a local \<^verbatim>\<open>intbuf\<close> and appends it to the output buffer.
  \<open>int_bytes\<close> is the content of that local buffer (or the single byte pushed), in
  the three branches of the source.
\<close>

definition LB_INTEGER :: byte where
  "LB_INTEGER = 205"

definition int_bytes :: "i32 \<Rightarrow> byte list" where
  "int_bytes x =
     (if 0 \<le>s x \<and> x <s 128 then [ucast x]
      else if x \<le>s 8191 \<and> - 8192 \<le>s x then
        [ucast ((signed_drop_bit 8 x AND 0x3F) OR 0x80), ucast (x AND 0xFF)]
      else
        [LB_INTEGER,
         ucast (signed_drop_bit 24 x AND 0xFF),
         ucast (signed_drop_bit 16 x AND 0xFF),
         ucast (signed_drop_bit 8 x AND 0xFF),
         ucast (x AND 0xFF)])"

subsection \<open>Reader side: \<^verbatim>\<open>readint\<close>\<close>

text \<open>
  The reader's source is the byte range \<^verbatim>\<open>[start, end)\<close>; a cursor is an offset from
  \<^verbatim>\<open>start\<close>, or the null pointer (\<open>None\<close>). \<^verbatim>\<open>MARSH_EOS(st, p)\<close> panics when
  \<^verbatim>\<open>p >= end\<close>. Reading through a null pointer or in front of \<^verbatim>\<open>start\<close> is undefined
  in C; the model stops there with \<open>Fault\<close>, as it does wherever the C code would read
  or write outside an object. \<open>OutOfMemory\<close> is \<^verbatim>\<open>JANET_OUT_OF_MEMORY\<close>, which the code
  reaches when an allocation of a negative size fails.
\<close>

datatype uerror =
    UnexpectedEOS
  | ExpectedInteger byte int
  | ExpectedType
  | InvalidFuncenvRef i32
  | InvalidFuncdefRef i32
  | InvalidFuncenvOffset
  | InvalidFuncenvLength
  | InvalidBytecode
  | BadStackSetup
  | EnvOffsetMismatch
  | EnvLengthMismatch
  | FrameSizeMismatch
  | FrameInvalidPc
  | FrameMisaligned
  | TooManyFrames
  | InvalidReference i32
  | UnknownByte byte int
  | ReadStackOverflow
  | OutOfMemory
  | Fault

type_synonym cursor = "int option"

definition MARSH_EOS :: "byte list \<Rightarrow> int \<Rightarrow> bool" where
  "MARSH_EOS src p \<longleftrightarrow> p \<ge> int (length src)"

definition read2 :: "byte \<Rightarrow> byte \<Rightarrow> i32" where
  "read2 b0 b1 =
     (let ret = push_bit 8 (ucast (b0 AND 0x3F)) + ucast b1
      in signed_drop_bit 18 (push_bit 18 ret))"

definition read4 :: "byte \<Rightarrow> byte \<Rightarrow> byte \<Rightarrow> byte \<Rightarrow> i32" where
  "read4 b1 b2 b3 b4 =
     push_bit 24 (ucast b1) OR push_bit 16 (ucast b2) OR push_bit 8 (ucast b3) OR ucast b4"

definition readint :: "byte list \<Rightarrow> cursor \<Rightarrow> uerror + (i32 \<times> cursor)" where
  "readint src atdata =
     (case atdata of
        None \<Rightarrow> Inl Fault
      | Some p \<Rightarrow>
          if MARSH_EOS src p then Inl UnexpectedEOS
          else if p < 0 then Inl Fault
          else
            let d0 = src ! nat p in
            if d0 < 128 then Inr (ucast d0, Some (p + 1))
            else if d0 < 192 then
              (if MARSH_EOS src (p + 1) then Inl UnexpectedEOS
               else Inr (read2 d0 (src ! nat (p + 1)), Some (p + 2)))
            else if d0 = LB_INTEGER then
              (if MARSH_EOS src (p + 4) then Inl UnexpectedEOS
               else Inr (read4 (src ! nat (p + 1)) (src ! nat (p + 2))
                               (src ! nat (p + 3)) (src ! nat (p + 4)), Some (p + 5)))
            else Inl (ExpectedInteger d0 p))"

section \<open>The data model\<close>

subsection \<open>Values\<close>

text \<open>
  A Janet value is a tagged word; reference types hold a pointer to a heap cell. Heap cells
  are named by addresses. Strings, symbols, keywords, tuples and structs are immutable and
  compared by content, so they are carried in the value itself; arrays, tables, buffers,
  functions, fibers and abstract objects are mutable heap cells compared by address.

  A number is a double. The writer asks \<^verbatim>\<open>janet_checkintrange\<close> whether the double is
  an integer of the \<^verbatim>\<open>int32_t\<close> range and then casts it; \<open>Integral i\<close> stands for such a
  double (with \<open>i\<close> its cast), \<open>Double w\<close> for any other double, given by its 64 bits.
\<close>

type_synonym addr = nat

datatype number = Integral i32 | Double "64 word"

datatype janet =
    JNumber number
  | JNil
  | JFalse
  | JTrue
  | JFiber addr
  | JString "byte list"
  | JSymbol "byte list"
  | JKeyword "byte list"
  | JArray addr
  | JTuple i32 "janet list"
  | JTable addr
  | JStruct "(janet \<times> janet) list"
  | JBuffer addr
  | JFunction addr
  | JCFunction addr
  | JAbstract addr

text \<open>
  \<open>JTuple fl xs\<close>: \<open>fl\<close> is the flag of the tuple as the marshaling code uses it
  (\<^verbatim>\<open>janet_tuple_flag(tup) >> 16\<close>), \<open>xs\<close> its elements. \<open>JStruct kvs\<close>: the slot array of the
  struct, a slot with a nil key being empty.
\<close>

subsection \<open>Heap cells\<close>

record JanetArray =
  a_count :: i32
  a_data :: "janet list"

record JanetBuffer =
  b_count :: i32
  b_data :: "byte list"

record JanetTable =
  t_count :: i32
  t_data :: "(janet \<times> janet) list"
  t_proto :: "addr option"

record JanetFuncDef =
  d_flags :: i32
  d_slotcount :: i32
  d_arity :: i32
  d_constants_length :: i32
  d_constants :: "janet list"
  d_bytecode_length :: i32
  d_bytecode :: "u32 list"
  d_environments_length :: i32
  d_environments :: "i32 list option"
  d_defs_length :: i32
  d_defs :: "addr list option"
  d_name :: "byte list option"
  d_source :: "byte list option"
  d_sourcemap :: "(i32 \<times> i32) list option"

text \<open>
  A function environment is a union: a fiber when \<^verbatim>\<open>offset\<close> is not zero, an owned
  vector of values otherwise. Both members are fields here; the code reads the one that
  \<^verbatim>\<open>offset\<close> selects.
\<close>

record JanetFuncEnv =
  e_offset :: i32
  e_length :: i32
  e_fiber :: addr
  e_values :: "janet list"

record JanetFunction =
  f_def :: addr
  f_envs :: "addr list"

text \<open>
  A stack frame lives in the fiber's data, in the \<^verbatim>\<open>JANET_FRAME_SIZE\<close> slots in front of
  the frame's first value slot. The model keeps the frames of a fiber in a map of their
  own, indexed by that first value slot \<open>i\<close> (the frame at
  \<^verbatim>\<open>fiber->data + i - JANET_FRAME_SIZE\<close>), and the value slots in \<open>fib_data\<close>. The
  program counter of a frame is kept as its offset from the start of the bytecode of the
  frame's function (\<^verbatim>\<open>pc - func->def->bytecode\<close>). A null \<^verbatim>\<open>func\<close> or \<^verbatim>\<open>env\<close>
  is \<open>None\<close>.
\<close>

record JanetStackFrame =
  s_func :: "addr option"
  s_pc :: i32
  s_env :: "addr option"
  s_prevframe :: i32
  s_flags :: i32

record JanetFiber =
  fib_flags :: i32
  fib_frame :: i32
  fib_stackstart :: i32
  fib_stacktop :: i32
  fib_capacity :: i32
  fib_maxstack :: i32
  fib_data :: "i32 \<Rightarrow> janet"
  fib_frames :: "i32 \<Rightarrow> JanetStackFrame"
  fib_child :: "addr option"

text \<open>
  An abstract object has a type (name and hooks) and a size. The marshal hook of the type
  is a C function that calls back into the writer through \<^verbatim>\<open>janet_marshal_int\<close>,
  \<^verbatim>\<open>janet_marshal_byte\<close>, \<^verbatim>\<open>janet_marshal_bytes\<close> and \<^verbatim>\<open>janet_marshal_janet\<close>; it is
  modelled by the list of calls it makes for this object (\<open>None\<close>: the type has no
  marshal hook).
\<close>

datatype marshal_call =
    MInt i32
  | MByte byte
  | MBytes "byte list" i32
  | MJanet janet

record JanetAbstract =
  ab_name :: "byte list"
  ab_size :: i32
  ab_marshal :: "marshal_call list option"

record heap =
  h_arrays :: "addr \<Rightarrow> JanetArray"
  h_buffers :: "addr \<Rightarrow> JanetBuffer"
  h_tables :: "addr \<Rightarrow> JanetTable"
  h_funcdefs :: "addr \<Rightarrow> JanetFuncDef"
  h_funcenvs :: "addr \<Rightarrow> JanetFuncEnv"
  h_functions :: "addr \<Rightarrow> JanetFunction"
  h_fibers :: "addr \<Rightarrow> JanetFiber"
  h_abstracts :: "addr \<Rightarrow> JanetAbstract"
  h_brk :: addr

text \<open>\<open>h_brk\<close> is the next address the allocator hands out (used by the reader).\<close>

subsection \<open>What the host supplies\<close>

text \<open>
  Modelled from the spec: the constants, macros and functions of the rest of the runtime
  that the marshaling code uses, and that are not part of \<^verbatim>\<open>marsh.c\<close>, are parameters
  of the model.
  \<^item> \<open>RECURSION_GUARD\<close>: \<^verbatim>\<open>JANET_RECURSION_GUARD\<close>, the recursion bound;
  \<^item> \<open>FRAME_SIZE\<close>: \<^verbatim>\<open>JANET_FRAME_SIZE\<close>, the number of value slots a frame takes;
  \<^item> \<open>BIG_ENDIAN\<close>: whether \<^verbatim>\<open>JANET_BIG_ENDIAN\<close> is defined;
  \<^item> \<open>FLAG_HASNAME\<close>, \<open>FLAG_HASSOURCE\<close>, \<open>FLAG_HASDEFS\<close>, \<open>FLAG_HASENVS\<close>,
    \<open>FLAG_HASSOURCEMAP\<close>: the bits \<^verbatim>\<open>JANET_FUNCDEF_FLAG_...\<close> of a definition's flags;
  \<^item> \<open>status_alive\<close>: \<^verbatim>\<open>janet_fiber_status(fiber) == JANET_STATUS_ALIVE\<close>, read from
    the fiber's flags;
  \<^item> \<open>indeterminate\<close>: the bytes of a local union before anything is assigned to it;
  \<^item> \<open>number_of_bits\<close>: \<^verbatim>\<open>janet_wrap_number\<close> of the double with the given bits;
  \<^item> \<open>janet_verify\<close>: the bytecode verifier (true: the definition is rejected);
  \<^item> \<open>janet_table\<close>, \<open>janet_table_put\<close>: a fresh table of a capacity, and the table after
    a key and value were put;
  \<^item> \<open>janet_struct_build\<close>: the slot array of the struct that \<^verbatim>\<open>janet_struct_begin\<close>,
    the given sequence of \<^verbatim>\<open>janet_struct_put\<close> and \<^verbatim>\<open>janet_struct_end\<close> produce;
  \<^item> \<open>abstract_type\<close>: \<^verbatim>\<open>janet_get_abstract_type\<close>, the registered abstract type named
    by a key, if any. The unmarshal hook of a type is the list of the calls it makes
    (\<^verbatim>\<open>janet_unmarshal_int\<close>, \<^verbatim>\<open>_byte\<close>, \<^verbatim>\<open>_bytes\<close>, \<^verbatim>\<open>_janet\<close>); \<open>at_marshal\<close>
    tells which calls the marshal hook makes for an object that was filled from the given
    items.
\<close>

datatype unmarshal_call =
    UInt
  | UByte
  | UBytes i32
  | UJanet

datatype read_item =
    RInt i32
  | RByte byte
  | RBytes "byte list"
  | RJanet janet

record abstract_type =
  at_name :: "byte list"
  at_unmarshal :: "unmarshal_call list option"
  at_marshal :: "(read_item list \<Rightarrow> marshal_call list) option"

record host =
  RECURSION_GUARD :: int
  FRAME_SIZE :: i32
  BIG_ENDIAN :: bool
  FLAG_HASNAME :: i32
  FLAG_HASSOURCE :: i32
  FLAG_HASDEFS :: i32
  FLAG_HASENVS :: i32
  FLAG_HASSOURCEMAP :: i32
  status_alive :: "i32 \<Rightarrow> bool"
  indeterminate :: "byte list"
  number_of_bits :: "64 word \<Rightarrow> number"
  janet_verify :: "JanetFuncDef \<Rightarrow> bool"
  janet_table :: "i32 \<Rightarrow> JanetTable"
  janet_table_put :: "JanetTable \<Rightarrow> janet \<Rightarrow> janet \<Rightarrow> JanetTable"
  janet_struct_build :: "i32 \<Rightarrow> (janet \<times> janet) list \<Rightarrow> (janet \<times> janet) list"
  abstract_type :: "janet \<Rightarrow> abstract_type option"

section \<open>The writer\<close>

subsection \<open>State, lead bytes, results\<close>

text \<open>
  \<^verbatim>\<open>MarshalState\<close>. The output buffer is the byte list \<open>buf\<close> (it is taken not to be
  one of the buffers the marshaled value reaches). Modelled from the spec: the tables
  \<open>seen\<close> and \<open>rreg\<close> are maps, \<^verbatim>\<open>janet_table_get\<close> being the lookup (nil when the key
  is absent) and \<^verbatim>\<open>janet_table_put\<close> the update; keys are compared as the values of
  the model are (content for immutable values, address for heap cells). \<open>seen\<close> stores the
  integer of \<^verbatim>\<open>janet_wrap_integer(st->nextid++)\<close>.
\<close>

record MarshalState =
  buf :: "byte list"
  seen :: "janet \<rightharpoonup> i32"
  rreg :: "(janet \<rightharpoonup> janet) option"
  seen_envs :: "addr list"
  seen_defs :: "addr list"
  nextid :: i32

definition LB_REAL :: byte where "LB_REAL = 200"
definition LB_NIL :: byte where "LB_NIL = 201"
definition LB_FALSE :: byte where "LB_FALSE = 202"
definition LB_TRUE :: byte where "LB_TRUE = 203"
definition LB_FIBER :: byte where "LB_FIBER = 204"
definition LB_STRING :: byte where "LB_STRING = 206"
definition LB_SYMBOL :: byte where "LB_SYMBOL = 207"
definition LB_KEYWORD :: byte where "LB_KEYWORD = 208"
definition LB_ARRAY :: byte where "LB_ARRAY = 209"
definition LB_TUPLE :: byte where "LB_TUPLE = 210"
definition LB_TABLE :: byte where "LB_TABLE = 211"
definition LB_TABLE_PROTO :: byte where "LB_TABLE_PROTO = 212"
definition LB_STRUCT :: byte where "LB_STRUCT = 213"
definition LB_BUFFER :: byte where "LB_BUFFER = 214"
definition LB_FUNCTION :: byte where "LB_FUNCTION = 215"
definition LB_REGISTRY :: byte where "LB_REGISTRY = 216"
definition LB_ABSTRACT :: byte where "LB_ABSTRACT = 217"
definition LB_REFERENCE :: byte where "LB_REFERENCE = 218"
definition LB_FUNCENV_REF :: byte where "LB_FUNCENV_REF = 219"
definition LB_FUNCDEF_REF :: byte where "LB_FUNCDEF_REF = 220"

definition JANET_FIBER_FLAG_HASCHILD :: i32 where
  "JANET_FIBER_FLAG_HASCHILD = push_bit 29 1"

definition JANET_STACKFRAME_HASENV :: i32 where
  "JANET_STACKFRAME_HASENV = push_bit 30 1"

text \<open>
  A panic (\<^verbatim>\<open>janet_panic\<close>) leaves the writer by a long jump; the state and the heap at
  that moment are what the caller is left with. \<open>Timeout\<close> is the model running out of
  fuel, nothing of the code; it carries the state and the heap reached by then. \<open>WriteFault\<close> stands for undefined behaviour of the C code
  (a flag of a definition set with the field it announces being null).
\<close>

datatype merror =
    StackOverflow
  | AliveFiber
  | CStackframe
  | UnregisteredAbstract janet
  | NoRegistryValue janet
  | WriteFault

datatype mresult =
    Done MarshalState heap
  | Panic merror MarshalState heap
  | Timeout MarshalState heap

definition mbind :: "mresult \<Rightarrow> (MarshalState \<Rightarrow> heap \<Rightarrow> mresult) \<Rightarrow> mresult" where
  "mbind r k = (case r of Done st h \<Rightarrow> k st h | Panic e st h \<Rightarrow> Panic e st h
                | Timeout st h \<Rightarrow> Timeout st h)"

subsection \<open>Pushing bytes\<close>

definition pushint :: "MarshalState \<Rightarrow> i32 \<Rightarrow> MarshalState" where
  "pushint st x = st\<lparr>buf := buf st @ int_bytes x\<rparr>"

definition pushbyte :: "MarshalState \<Rightarrow> byte \<Rightarrow> MarshalState" where
  "pushbyte st b = st\<lparr>buf := buf st @ [b]\<rparr>"

definition pushbytes :: "MarshalState \<Rightarrow> byte list \<Rightarrow> i32 \<Rightarrow> MarshalState" where
  "pushbytes st bytes len = st\<lparr>buf := buf st @ take (nat (sint len)) bytes\<rparr>"

definition MARSH_STACKCHECK :: "host \<Rightarrow> i32 \<Rightarrow> bool" where
  "MARSH_STACKCHECK H flags \<longleftrightarrow> sint (flags AND 0xFFFF) > RECURSION_GUARD H"

definition MARK_SEEN :: "MarshalState \<Rightarrow> janet \<Rightarrow> MarshalState" where
  "MARK_SEEN st x = st\<lparr>seen := (seen st)(x \<mapsto> nextid st), nextid := nextid st + 1\<rparr>"

text \<open>The first index of an entry in a \<^verbatim>\<open>janet_v\<close> vector, as the search loops find it.\<close>

fun v_index :: "addr list \<Rightarrow> addr \<Rightarrow> nat \<Rightarrow> nat option" where
  "v_index [] a i = None"
| "v_index (b # bs) a i = (if b = a then Some i else v_index bs a (Suc i))"

subsection \<open>Function definitions: flags, bytecode, source map\<close>

definition flag_if :: "bool \<Rightarrow> i32 \<Rightarrow> i32" where
  "flag_if c f = (if c then f else 0)"

definition janet_func_addflags :: "host \<Rightarrow> JanetFuncDef \<Rightarrow> JanetFuncDef" where
  "janet_func_addflags H def =
     def\<lparr>d_flags := d_flags def
        OR flag_if (d_name def \<noteq> None) (FLAG_HASNAME H)
        OR flag_if (d_source def \<noteq> None) (FLAG_HASSOURCE H)
        OR flag_if (d_defs def \<noteq> None) (FLAG_HASDEFS H)
        OR flag_if (d_environments def \<noteq> None) (FLAG_HASENVS H)
        OR flag_if (d_sourcemap def \<noteq> None) (FLAG_HASSOURCEMAP H)\<rparr>"

definition has_flag :: "i32 \<Rightarrow> i32 \<Rightarrow> bool" where
  "has_flag flags f \<longleftrightarrow> flags AND f \<noteq> 0"

definition pushword :: "MarshalState \<Rightarrow> u32 \<Rightarrow> MarshalState" where
  "pushword st w =
     pushbyte (pushbyte (pushbyte (pushbyte st
       (ucast (w AND 0xFF)))
       (ucast (drop_bit 8 w AND 0xFF)))
       (ucast (drop_bit 16 w AND 0xFF)))
       (ucast (drop_bit 24 w AND 0xFF))"

definition pushints :: "MarshalState \<Rightarrow> i32 list \<Rightarrow> MarshalState" where
  "pushints st xs = foldl pushint st xs"

fun push_sourcemap :: "MarshalState \<Rightarrow> i32 \<Rightarrow> (i32 \<times> i32) list \<Rightarrow> MarshalState" where
  "push_sourcemap st current [] = st"
| "push_sourcemap st current ((start, end) # maps) =
     push_sourcemap (pushint (pushint st (start - current)) (end - start)) end maps"

definition first_n :: "i32 \<Rightarrow> 'a list \<Rightarrow> 'a list" where
  "first_n len xs = take (nat (sint len)) xs"

text \<open>The header of a definition, up to the optional name.\<close>

definition push_def_header :: "host \<Rightarrow> MarshalState \<Rightarrow> JanetFuncDef \<Rightarrow> MarshalState" where
  "push_def_header H st def =
     (let st = pushint st (d_flags def);
          st = pushint st (d_slotcount def);
          st = pushint st (d_arity def);
          st = pushint st (d_constants_length def);
          st = pushint st (d_bytecode_length def);
          st = (if has_flag (d_flags def) (FLAG_HASENVS H)
                then pushint st (d_environments_length def) else st);
          st = (if has_flag (d_flags def) (FLAG_HASDEFS H)
                then pushint st (d_defs_length def) else st)
      in st)"

text \<open>The bytecode words and the environment indices, between the constants and the
  nested definitions.\<close>

definition push_def_code :: "MarshalState \<Rightarrow> JanetFuncDef \<Rightarrow> MarshalState" where
  "push_def_code st def =
     pushints (foldl pushword st (first_n (d_bytecode_length def) (d_bytecode def)))
       (first_n (d_environments_length def) (case d_environments def of None \<Rightarrow> [] | Some es \<Rightarrow> es))"

subsection \<open>Doubles\<close>

text \<open>
  The union \<^verbatim>\<open>u\<close> of a double and eight bytes: \<open>double_bytes\<close> is the memory image of
  the double on the host (least significant byte first on a little-endian host, last on a
  big-endian one), \<open>bytes_double\<close> reads a double back from such an image.
\<close>

definition word_bytes_le :: "64 word \<Rightarrow> byte list" where
  "word_bytes_le w = map (\<lambda>i. ucast (drop_bit (8 * i) w)) [0..<8]"

definition le_bytes_word :: "byte list \<Rightarrow> 64 word" where
  "le_bytes_word bs = foldr (\<lambda>b w. push_bit 8 w OR ucast b) bs 0"

definition double_bytes :: "host \<Rightarrow> 64 word \<Rightarrow> byte list" where
  "double_bytes H w = (if BIG_ENDIAN H then rev (word_bytes_le w) else word_bytes_le w)"

definition bytes_double :: "host \<Rightarrow> byte list \<Rightarrow> 64 word" where
  "bytes_double H bs = (if BIG_ENDIAN H then le_bytes_word (rev bs) else le_bytes_word bs)"

definition swap :: "byte list \<Rightarrow> nat \<Rightarrow> nat \<Rightarrow> byte list" where
  "swap u i j = (u[i := u ! j])[j := u ! i]"

definition real_bytes :: "host \<Rightarrow> 64 word \<Rightarrow> byte list" where
  "real_bytes H w =
     (let u = double_bytes H w in
      if BIG_ENDIAN H then swap (swap (swap (swap u 7 0) 6 1) 5 2) 4 3 else u)"

subsection \<open>The mutually recursive writer functions\<close>

text \<open>
  \<^verbatim>\<open>marshal_one\<close>, \<^verbatim>\<open>marshal_one_env\<close>, \<^verbatim>\<open>marshal_one_def\<close>, \<^verbatim>\<open>marshal_one_fiber\<close>
  and \<^verbatim>\<open>marshal_one_abstract\<close> call each other. Each is first written as a step that
  takes the functions it calls as the parameter \<open>rec\<close> (a call is named by an \<open>mcall\<close>);
  \<open>marshal\<close> then ties the knot by recursion on the fuel of the model: every nested call
  and every round of the frame loop of \<^verbatim>\<open>marshal_one_fiber\<close> takes one unit, and a run
  that has none left returns \<open>Timeout\<close>. The \<^verbatim>\<open>for\<close> loops over vectors are the list
  recursions \<open>marshal_many\<close>, \<open>marshal_envs\<close>, \<open>marshal_defs\<close> and \<open>marshal_hook\<close>.
\<close>

datatype mcall =
    COne janet i32
  | CEnv addr i32
  | CDef addr i32
  | CFiber addr i32
  | CFrames addr i32 i32 i32
  | CAbstract janet i32

type_synonym mrec = "mcall \<Rightarrow> MarshalState \<Rightarrow> heap \<Rightarrow> mresult"

definition slot_values :: "(janet \<times> janet) list \<Rightarrow> janet list" where
  "slot_values kvs = concat (map (\<lambda>(k, v). if k = JNil then [] else [k, v]) kvs)"

definition is_simple :: "janet \<Rightarrow> bool" where
  "is_simple x \<longleftrightarrow> x = JNil \<or> x = JFalse \<or> x = JTrue"

text \<open>Modelled from the spec: \<^verbatim>\<open>200 + type\<close> is 201, 202, 203 for nil, false, true.\<close>

definition janet_type_lead :: "janet \<Rightarrow> byte" where
  "janet_type_lead x = (if x = JNil then 201 else if x = JFalse then 202 else 203)"

definition registry_symbol :: "MarshalState \<Rightarrow> janet \<Rightarrow> byte list option" where
  "registry_symbol st x =
     (case rreg st of
        None \<Rightarrow> None
      | Some r \<Rightarrow> (case r x of Some (JSymbol regname) \<Rightarrow> Some regname | _ \<Rightarrow> None))"

text \<open>
  \<^verbatim>\<open>janet_len32\<close>, \<^verbatim>\<open>janet_tuple_length\<close> and \<^verbatim>\<open>janet_struct_length\<close>: the
  length stored in the header of a string, a tuple and a struct (for a struct, the number
  of its pairs).
\<close>

definition len32 :: "'a list \<Rightarrow> i32" where
  "len32 xs = of_nat (length xs)"

definition janet_struct_length :: "(janet \<times> janet) list \<Rightarrow> i32" where
  "janet_struct_length kvs = len32 (filter (\<lambda>(k, v). k \<noteq> JNil) kvs)"

definition frame_values :: "JanetFiber \<Rightarrow> i32 \<Rightarrow> i32 \<Rightarrow> janet list" where
  "frame_values fiber i j = map (\<lambda>k. fib_data fiber (word_of_int k)) [sint i ..(sint j - 1)]"

definition set_frame_flags :: "heap \<Rightarrow> addr \<Rightarrow> i32 \<Rightarrow> i32 \<Rightarrow> heap" where
  "set_frame_flags h fiber i fl =
     h\<lparr>h_fibers := (h_fibers h)(fiber :=
        (h_fibers h fiber)\<lparr>fib_frames := (fib_frames (h_fibers h fiber))(i :=
           (fib_frames (h_fibers h fiber) i)\<lparr>s_flags := fl\<rparr>)\<rparr>)\<rparr>"

primrec marshal_many :: "mrec \<Rightarrow> MarshalState \<Rightarrow> heap \<Rightarrow> janet list \<Rightarrow> i32 \<Rightarrow> mresult" where
  "marshal_many rec st h [] flags = Done st h"
| "marshal_many rec st h (x # xs) flags =
     mbind (rec (COne x flags) st h) (\<lambda>st h. marshal_many rec st h xs flags)"

primrec marshal_envs :: "mrec \<Rightarrow> MarshalState \<Rightarrow> heap \<Rightarrow> addr list \<Rightarrow> i32 \<Rightarrow> mresult" where
  "marshal_envs rec st h [] flags = Done st h"
| "marshal_envs rec st h (env # envs) flags =
     mbind (rec (CEnv env flags) st h) (\<lambda>st h. marshal_envs rec st h envs flags)"

primrec marshal_defs :: "mrec \<Rightarrow> MarshalState \<Rightarrow> heap \<Rightarrow> addr list \<Rightarrow> i32 \<Rightarrow> mresult" where
  "marshal_defs rec st h [] flags = Done st h"
| "marshal_defs rec st h (def # defs) flags =
     mbind (rec (CDef def flags) st h) (\<lambda>st h. marshal_defs rec st h defs flags)"

text \<open>The calls of a marshal hook: \<^verbatim>\<open>janet_marshal_int\<close>, \<^verbatim>\<open>janet_marshal_byte\<close>,
  \<^verbatim>\<open>janet_marshal_bytes\<close>, \<^verbatim>\<open>janet_marshal_janet\<close> (with \<^verbatim>\<open>ctx->flags + 1\<close>).\<close>

primrec marshal_hook :: "mrec \<Rightarrow> MarshalState \<Rightarrow> heap \<Rightarrow> marshal_call list \<Rightarrow> i32 \<Rightarrow> mresult" where
  "marshal_hook rec st h [] flags = Done st h"
| "marshal_hook rec st h (c # calls) flags =
     mbind (case c of
              MInt v \<Rightarrow> Done (pushint st v) h
            | MByte b \<Rightarrow> Done (pushbyte st b) h
            | MBytes bytes len \<Rightarrow> Done (pushbytes st bytes len) h
            | MJanet y \<Rightarrow> rec (COne y (flags + 1)) st h)
       (\<lambda>st h. marshal_hook rec st h calls flags)"

definition marshal_one_env_step :: "host \<Rightarrow> mrec \<Rightarrow> MarshalState \<Rightarrow> heap \<Rightarrow> addr \<Rightarrow> i32 \<Rightarrow> mresult" where
  "marshal_one_env_step H rec st h env flags =
     (if MARSH_STACKCHECK H flags then Panic StackOverflow st h
      else case v_index (seen_envs st) env 0 of
        Some i \<Rightarrow> Done (pushint (pushbyte st LB_FUNCENV_REF) (of_nat i)) h
      | None \<Rightarrow>
          (let e = h_funcenvs h env;
               st = st\<lparr>seen_envs := seen_envs st @ [env]\<rparr>;
               st = pushint (pushint st (e_offset e)) (e_length e)
           in if e_offset e \<noteq> 0
              then rec (COne (JFiber (e_fiber e)) (flags + 1)) st h
              else marshal_many rec st h (first_n (e_length e) (e_values e)) (flags + 1)))"

definition marshal_one_def_step :: "host \<Rightarrow> mrec \<Rightarrow> MarshalState \<Rightarrow> heap \<Rightarrow> addr \<Rightarrow> i32 \<Rightarrow> mresult" where
  "marshal_one_def_step H rec st h def flags =
     (if MARSH_STACKCHECK H flags then Panic StackOverflow st h
      else case v_index (seen_defs st) def 0 of
        Some i \<Rightarrow> Done (pushint (pushbyte st LB_FUNCDEF_REF) (of_nat i)) h
      | None \<Rightarrow>
          (let h = h\<lparr>h_funcdefs := (h_funcdefs h)(def := janet_func_addflags H (h_funcdefs h def))\<rparr>;
               st = st\<lparr>seen_defs := seen_defs st @ [def]\<rparr>;
               st = push_def_header H st (h_funcdefs h def)
           in
           mbind (if has_flag (d_flags (h_funcdefs h def)) (FLAG_HASNAME H)
                  then (case d_name (h_funcdefs h def) of
                          Some name \<Rightarrow> rec (COne (JString name) flags) st h
                        | None \<Rightarrow> Panic WriteFault st h)
                  else Done st h)
          (\<lambda>st h.
           mbind (if has_flag (d_flags (h_funcdefs h def)) (FLAG_HASSOURCE H)
                  then (case d_source (h_funcdefs h def) of
                          Some source \<Rightarrow> rec (COne (JString source) flags) st h
                        | None \<Rightarrow> Panic WriteFault st h)
                  else Done st h)
          (\<lambda>st h.
           mbind (marshal_many rec st h
                    (first_n (d_constants_length (h_funcdefs h def)) (d_constants (h_funcdefs h def)))
                    flags)
          (\<lambda>st h.
           mbind (marshal_defs rec (push_def_code st (h_funcdefs h def)) h
                    (first_n (d_defs_length (h_funcdefs h def))
                       (case d_defs (h_funcdefs h def) of None \<Rightarrow> [] | Some ds \<Rightarrow> ds))
                    flags)
          (\<lambda>st h.
           if has_flag (d_flags (h_funcdefs h def)) (FLAG_HASSOURCEMAP H)
           then (case d_sourcemap (h_funcdefs h def) of
                   Some maps \<Rightarrow>
                     Done (push_sourcemap st 0
                             (first_n (d_bytecode_length (h_funcdefs h def)) maps)) h
                 | None \<Rightarrow> Panic WriteFault st h)
           else Done st h))))))"

definition marshal_one_fiber_step :: "host \<Rightarrow> mrec \<Rightarrow> MarshalState \<Rightarrow> heap \<Rightarrow> addr \<Rightarrow> i32 \<Rightarrow> mresult" where
  "marshal_one_fiber_step H rec st h fiber flags =
     (if MARSH_STACKCHECK H flags then Panic StackOverflow st h
      else
        let f = h_fibers h fiber;
            fflags = fib_flags f OR flag_if (fib_child f \<noteq> None) JANET_FIBER_FLAG_HASCHILD
        in
        if status_alive H (fib_flags f) then Panic AliveFiber st h
        else
          let st = pushint st fflags;
              st = pushint st (fib_frame f);
              st = pushint st (fib_stackstart f);
              st = pushint st (fib_stacktop f);
              st = pushint st (fib_maxstack f)
          in
          mbind (rec (CFrames fiber (fib_frame f) (fib_stackstart f - FRAME_SIZE H) flags) st h)
            (\<lambda>st h. case fib_child (h_fibers h fiber) of
                 Some child \<Rightarrow> rec (COne (JFiber child) (flags + 1)) st h
               | None \<Rightarrow> Done st h))"

text \<open>One round of the \<^verbatim>\<open>while (i > 0)\<close> loop of \<^verbatim>\<open>marshal_one_fiber\<close>, followed by
  the rest of the loop.\<close>

definition marshal_frames_step :: "host \<Rightarrow> mrec \<Rightarrow> MarshalState \<Rightarrow> heap \<Rightarrow> addr \<Rightarrow> i32 \<Rightarrow> i32 \<Rightarrow> i32 \<Rightarrow> mresult" where
  "marshal_frames_step H rec st h fiber i j flags =
     (if \<not> (0 <s i) then Done st h
      else
        let frame = fib_frames (h_fibers h fiber) i;
            h = (if s_env frame \<noteq> None
                 then set_frame_flags h fiber i (s_flags frame OR JANET_STACKFRAME_HASENV)
                 else h)
        in
        case s_func (fib_frames (h_fibers h fiber) i) of
          None \<Rightarrow> Panic CStackframe st h
        | Some func \<Rightarrow>
            (let frame = fib_frames (h_fibers h fiber) i;
                 st = pushint st (s_flags frame);
                 st = pushint st (s_prevframe frame);
                 st = pushint st (s_pc frame)
             in
             mbind (rec (COne (JFunction func) (flags + 1)) st h)
            (\<lambda>st h.
             mbind (case s_env (fib_frames (h_fibers h fiber) i) of
                      Some env \<Rightarrow> rec (CEnv env (flags + 1)) st h
                    | None \<Rightarrow> Done st h)
            (\<lambda>st h.
             mbind (marshal_many rec st h (frame_values (h_fibers h fiber) i j) (flags + 1))
            (\<lambda>st h.
             rec (CFrames fiber (s_prevframe (fib_frames (h_fibers h fiber) i))
                    (i - FRAME_SIZE H) flags) st h)))))"

definition marshal_one_abstract_step :: "host \<Rightarrow> mrec \<Rightarrow> MarshalState \<Rightarrow> heap \<Rightarrow> janet \<Rightarrow> i32 \<Rightarrow> mresult" where
  "marshal_one_abstract_step H rec st h x flags =
     (case x of
        JAbstract a \<Rightarrow>
          (case ab_marshal (h_abstracts h a) of
             Some calls \<Rightarrow>
               mbind (rec (COne (JKeyword (ab_name (h_abstracts h a))) (flags + 1))
                        (pushbyte (MARK_SEEN st x) LB_ABSTRACT) h)
                 (\<lambda>st h. marshal_hook rec (pushint st (ab_size (h_abstracts h a))) h calls flags)
           | None \<Rightarrow> Panic (UnregisteredAbstract x) st h)
      | _ \<Rightarrow> Panic WriteFault st h)"

text \<open>The second \<^verbatim>\<open>switch\<close> of \<^verbatim>\<open>marshal_one\<close>, on the reference types.\<close>

definition marshal_reference_type :: "host \<Rightarrow> mrec \<Rightarrow> MarshalState \<Rightarrow> heap \<Rightarrow> janet \<Rightarrow> i32 \<Rightarrow> mresult" where
  "marshal_reference_type H rec st h x flags =
     (case x of
        JNumber num \<Rightarrow>
          (case num of
             Double w \<Rightarrow> Done (MARK_SEEN (pushbytes (pushbyte st LB_REAL) (real_bytes H w) 8) x) h
           | Integral i \<Rightarrow> Done (pushint st i) h)
      | JString str \<Rightarrow>
          Done (pushbytes (pushint (pushbyte (MARK_SEEN st x) LB_STRING)
                  (len32 str)) str (len32 str)) h
      | JSymbol str \<Rightarrow>
          Done (pushbytes (pushint (pushbyte (MARK_SEEN st x) LB_SYMBOL)
                  (len32 str)) str (len32 str)) h
      | JKeyword str \<Rightarrow>
          Done (pushbytes (pushint (pushbyte (MARK_SEEN st x) LB_KEYWORD)
                  (len32 str)) str (len32 str)) h
      | JBuffer b \<Rightarrow>
          (let buffer = h_buffers h b in
           Done (pushbytes (pushint (pushbyte (MARK_SEEN st x) LB_BUFFER)
                   (b_count buffer)) (b_data buffer) (b_count buffer)) h)
      | JArray a \<Rightarrow>
          (let arr = h_arrays h a in
           marshal_many rec (pushint (pushbyte (MARK_SEEN st x) LB_ARRAY) (a_count arr)) h
             (first_n (a_count arr) (a_data arr)) (flags + 1))
      | JTuple fl tup \<Rightarrow>
          mbind (marshal_many rec
                   (pushint (pushint (pushbyte st LB_TUPLE) (len32 tup)) fl) h tup (flags + 1))
            (\<lambda>st h. Done (MARK_SEEN st x) h)
      | JTable ta \<Rightarrow>
          (let t = h_tables h ta;
               st = pushint (pushbyte (MARK_SEEN st x)
                      (if t_proto t \<noteq> None then LB_TABLE_PROTO else LB_TABLE)) (t_count t)
           in mbind (case t_proto t of
                       Some p \<Rightarrow> rec (COne (JTable p) (flags + 1)) st h
                     | None \<Rightarrow> Done st h)
                (\<lambda>st h. marshal_many rec st h (slot_values (t_data (h_tables h ta))) (flags + 1)))
      | JStruct kvs \<Rightarrow>
          mbind (marshal_many rec
                   (pushint (pushbyte st LB_STRUCT) (janet_struct_length kvs)) h
                   (slot_values kvs) (flags + 1))
            (\<lambda>st h. Done (MARK_SEEN st x) h)
      | JAbstract a \<Rightarrow> rec (CAbstract x flags) st h
      | JFunction f \<Rightarrow>
          mbind (rec (CDef (f_def (h_functions h f)) flags) (pushbyte st LB_FUNCTION) h)
            (\<lambda>st h. marshal_envs rec (MARK_SEEN st x) h
                 (first_n (d_environments_length (h_funcdefs h (f_def (h_functions h f))))
                    (f_envs (h_functions h f)))
                 (flags + 1))
      | JFiber fi \<Rightarrow> rec (CFiber fi (flags + 1)) (pushbyte (MARK_SEEN st x) LB_FIBER) h
      | JCFunction c \<Rightarrow> Panic (NoRegistryValue x) st h
      | JNil \<Rightarrow> Panic (NoRegistryValue x) st h
      | JFalse \<Rightarrow> Panic (NoRegistryValue x) st h
      | JTrue \<Rightarrow> Panic (NoRegistryValue x) st h)"

definition int_in_range :: "janet \<Rightarrow> i32 option" where
  "int_in_range x = (case x of JNumber (Integral i) \<Rightarrow> Some i | _ \<Rightarrow> None)"

definition marshal_one_step :: "host \<Rightarrow> mrec \<Rightarrow> MarshalState \<Rightarrow> heap \<Rightarrow> janet \<Rightarrow> i32 \<Rightarrow> mresult" where
  "marshal_one_step H rec st h x flags =
     (if MARSH_STACKCHECK H flags then Panic StackOverflow st h
      else if is_simple x then Done (pushbyte st (janet_type_lead x)) h
      else case int_in_range x of
        Some i \<Rightarrow> Done (pushint st i) h
      | None \<Rightarrow>
          (case seen st x of
             Some check \<Rightarrow> Done (pushint (pushbyte st LB_REFERENCE) check) h
           | None \<Rightarrow>
               (case registry_symbol st x of
                  Some regname \<Rightarrow>
                    Done (pushbytes (pushint (pushbyte (MARK_SEEN st x) LB_REGISTRY)
                            (len32 regname)) regname (len32 regname)) h
                | None \<Rightarrow> marshal_reference_type H rec st h x flags)))"

primrec marshal :: "host \<Rightarrow> nat \<Rightarrow> mrec" where
  "marshal H 0 = (\<lambda>c st h. Timeout st h)"
| "marshal H (Suc n) = (\<lambda>c st h.
     case c of
       COne x flags \<Rightarrow> marshal_one_step H (marshal H n) st h x flags
     | CEnv env flags \<Rightarrow> marshal_one_env_step H (marshal H n) st h env flags
     | CDef def flags \<Rightarrow> marshal_one_def_step H (marshal H n) st h def flags
     | CFiber fiber flags \<Rightarrow> marshal_one_fiber_step H (marshal H n) st h fiber flags
     | CFrames fiber i j flags \<Rightarrow> marshal_frames_step H (marshal H n) st h fiber i j flags
     | CAbstract x flags \<Rightarrow> marshal_one_abstract_step H (marshal H n) st h x flags)"

definition marshal_one :: "host \<Rightarrow> nat \<Rightarrow> MarshalState \<Rightarrow> heap \<Rightarrow> janet \<Rightarrow> i32 \<Rightarrow> mresult" where
  "marshal_one H n st h x flags = marshal H n (COne x flags) st h"

definition marshal_one_env :: "host \<Rightarrow> nat \<Rightarrow> MarshalState \<Rightarrow> heap \<Rightarrow> addr \<Rightarrow> i32 \<Rightarrow> mresult" where
  "marshal_one_env H n st h env flags = marshal H n (CEnv env flags) st h"

definition marshal_one_def :: "host \<Rightarrow> nat \<Rightarrow> MarshalState \<Rightarrow> heap \<Rightarrow> addr \<Rightarrow> i32 \<Rightarrow> mresult" where
  "marshal_one_def H n st h def flags = marshal H n (CDef def flags) st h"

definition marshal_one_fiber :: "host \<Rightarrow> nat \<Rightarrow> MarshalState \<Rightarrow> heap \<Rightarrow> addr \<Rightarrow> i32 \<Rightarrow> mresult" where
  "marshal_one_fiber H n st h fiber flags = marshal H n (CFiber fiber flags) st h"

definition marshal_one_abstract :: "host \<Rightarrow> nat \<Rightarrow> MarshalState \<Rightarrow> heap \<Rightarrow> janet \<Rightarrow> i32 \<Rightarrow> mresult" where
  "marshal_one_abstract H n st h x flags = marshal H n (CAbstract x flags) st h"

text \<open>The \<^verbatim>\<open>while (i > 0)\<close> loop of \<^verbatim>\<open>marshal_one_fiber\<close>, entered with the frame index
  \<open>i\<close> and the end \<open>j\<close> of the slots of the frame.\<close>

definition marshal_frames :: "host \<Rightarrow> nat \<Rightarrow> MarshalState \<Rightarrow> heap \<Rightarrow> addr \<Rightarrow> i32 \<Rightarrow> i32 \<Rightarrow> i32 \<Rightarrow> mresult" where
  "marshal_frames H n st h fiber i j flags = marshal H n (CFrames fiber i j flags) st h"

text \<open>
  \<^verbatim>\<open>janet_marshal\<close>: a fresh state around the caller's buffer. The result carries the
  state, whose \<open>buf\<close> is the caller's buffer after the call; on a panic the clean-up at the
  end of the function is not reached.
\<close>

definition janet_marshal :: "host \<Rightarrow> nat \<Rightarrow> byte list \<Rightarrow> heap \<Rightarrow> janet \<Rightarrow> (janet \<rightharpoonup> janet) option \<Rightarrow> i32 \<Rightarrow> mresult" where
  "janet_marshal H n buffer h x reg flags =
     marshal_one H n \<lparr>buf = buffer, seen = Map.empty, rreg = reg, seen_envs = [], seen_defs = [],
                       nextid = 0\<rparr> h x flags"

section \<open>The reader\<close>

subsection \<open>State and results\<close>

text \<open>
  \<^verbatim>\<open>UnmarshalState\<close>: \<open>lookup\<close> is the array of the values decoded so far, \<open>reg\<close> the
  forward registry (a map, as the writer's), \<open>src\<close> the bytes between \<^verbatim>\<open>start\<close> and
  \<^verbatim>\<open>end\<close>.

  A reader function returns the next cursor and writes its result through the pointer
  \<^verbatim>\<open>out\<close>. \<open>Unset\<close> says that nothing was written there.
\<close>

record UnmarshalState =
  lookup :: "janet list"
  reg :: "(janet \<rightharpoonup> janet) option"
  lookup_envs :: "addr list"
  lookup_defs :: "addr list"
  src :: "byte list"

datatype uout =
    Unset
  | OutJanet janet
  | OutAddr addr
  | OutValues "janet list"
  | OutAddrs "addr list"
  | OutItems "read_item list"

datatype uresult =
    UDone cursor uout UnmarshalState heap
  | UPanic uerror
  | UTimeout

definition ubind :: "uresult \<Rightarrow> (cursor \<Rightarrow> uout \<Rightarrow> UnmarshalState \<Rightarrow> heap \<Rightarrow> uresult) \<Rightarrow> uresult" where
  "ubind r k = (case r of UDone data out st h \<Rightarrow> k data out st h | UPanic e \<Rightarrow> UPanic e | UTimeout \<Rightarrow> UTimeout)"

definition uread :: "UnmarshalState \<Rightarrow> cursor \<Rightarrow> (i32 \<Rightarrow> cursor \<Rightarrow> uresult) \<Rightarrow> uresult" where
  "uread st data k = (case readint (src st) data of Inl e \<Rightarrow> UPanic e | Inr (v, data') \<Rightarrow> k v data')"

text \<open>A slot that was handed to \<^verbatim>\<open>unmarshal_one\<close> and not written keeps what the
  allocator left there; the model reads it as nil.\<close>

definition out_value :: "uout \<Rightarrow> janet" where
  "out_value out = (case out of OutJanet v \<Rightarrow> v | _ \<Rightarrow> JNil)"

definition janet_array_push :: "UnmarshalState \<Rightarrow> janet \<Rightarrow> UnmarshalState" where
  "janet_array_push st v = st\<lparr>lookup := lookup st @ [v]\<rparr>"

definition alloc :: "heap \<Rightarrow> heap" where
  "alloc h = h\<lparr>h_brk := Suc (h_brk h)\<rparr>"

subsection \<open>Loops that only read integers and bytes\<close>

definition bytes_from :: "byte list \<Rightarrow> int \<Rightarrow> nat \<Rightarrow> byte list" where
  "bytes_from s p n = take n (drop (nat p) s)"

primrec read_words :: "byte list \<Rightarrow> nat \<Rightarrow> cursor \<Rightarrow> uerror + (u32 list \<times> cursor)" where
  "read_words s 0 data = Inr ([], data)"
| "read_words s (Suc n) data =
     (case data of
        None \<Rightarrow> Inl Fault
      | Some p \<Rightarrow>
          if MARSH_EOS s (p + 3) then Inl UnexpectedEOS
          else if p < 0 then Inl Fault
          else
            (let w = ucast (s ! nat p) OR push_bit 8 (ucast (s ! nat (p + 1)))
                     OR push_bit 16 (ucast (s ! nat (p + 2))) OR push_bit 24 (ucast (s ! nat (p + 3)))
             in case read_words s n (Some (p + 4)) of
                  Inl e \<Rightarrow> Inl e
                | Inr (ws, data') \<Rightarrow> Inr (w # ws, data')))"

primrec read_ints :: "byte list \<Rightarrow> nat \<Rightarrow> cursor \<Rightarrow> uerror + (i32 list \<times> cursor)" where
  "read_ints s 0 data = Inr ([], data)"
| "read_ints s (Suc n) data =
     (case readint s data of
        Inl e \<Rightarrow> Inl e
      | Inr (v, data') \<Rightarrow>
          (case read_ints s n data' of
             Inl e \<Rightarrow> Inl e
           | Inr (vs, data'') \<Rightarrow> Inr (v # vs, data'')))"

primrec read_sourcemap :: "byte list \<Rightarrow> nat \<Rightarrow> i32 \<Rightarrow> cursor \<Rightarrow> uerror + ((i32 \<times> i32) list \<times> cursor)" where
  "read_sourcemap s 0 current data = Inr ([], data)"
| "read_sourcemap s (Suc n) current data =
     (case readint s data of
        Inl e \<Rightarrow> Inl e
      | Inr (a, data') \<Rightarrow>
          (case readint s data' of
             Inl e \<Rightarrow> Inl e
           | Inr (b, data'') \<Rightarrow>
               (case read_sourcemap s n (current + a + b) data'' of
                  Inl e \<Rightarrow> Inl e
                | Inr (ms, data''') \<Rightarrow> Inr ((current + a, current + a + b) # ms, data'''))))"

subsection \<open>Doubles\<close>

text \<open>
  The eight assignments of the big-endian branch of the \<^verbatim>\<open>LB_REAL\<close> case, in the order
  of the source, on the union \<open>u\<close>; \<open>d\<close> is the list of the nine bytes \<^verbatim>\<open>data[0..8]\<close>. The
  little-endian branch copies \<^verbatim>\<open>data[1..8]\<close>.
\<close>

definition read_real_big_endian :: "byte list \<Rightarrow> byte list \<Rightarrow> byte list" where
  "read_real_big_endian u d =
     (let u = u[0 := d ! 8];
          u = u[1 := d ! 7];
          u = u[2 := d ! 6];
          u = u[5 := d ! 5];
          u = u[4 := d ! 4];
          u = u[5 := d ! 3];
          u = u[6 := d ! 2];
          u = u[7 := d ! 1]
      in u)"

definition read_real :: "host \<Rightarrow> byte list \<Rightarrow> byte list" where
  "read_real H d = (if BIG_ENDIAN H then read_real_big_endian (indeterminate H) d else take 8 (drop 1 d))"

subsection \<open>The mutually recursive reader functions\<close>

text \<open>
  As for the writer, each function is a step over the functions it calls (\<open>rec\<close>), and
  \<open>unmarshal\<close> ties the knot by recursion on the fuel: one unit for every nested call and
  for every round of the frame loop of \<^verbatim>\<open>unmarshal_one_fiber\<close>. The counted \<^verbatim>\<open>for\<close>
  loops are recursions on the number of rounds left.
\<close>

datatype ucall =
    UOne cursor i32
  | UEnv cursor i32
  | UDef cursor i32
  | UFiber cursor i32
  | UFrames addr i32 i32 cursor i32
  | UAbstract cursor i32

type_synonym urec = "ucall \<Rightarrow> UnmarshalState \<Rightarrow> heap \<Rightarrow> uresult"

text \<open>\<open>n\<close> values one after the other, collected (the slots of a tuple, of an environment,
  of the constants of a definition, and the keys and values of a struct).\<close>

primrec unmarshal_values :: "urec \<Rightarrow> nat \<Rightarrow> i32 \<Rightarrow> cursor \<Rightarrow> UnmarshalState \<Rightarrow> heap \<Rightarrow> uresult" where
  "unmarshal_values rec 0 flags data st h = UDone data (OutValues []) st h"
| "unmarshal_values rec (Suc n) flags data st h =
     ubind (rec (UOne data flags) st h) (\<lambda>data out st h.
     ubind (unmarshal_values rec n flags data st h) (\<lambda>data outs st h.
       UDone data (OutValues (out_value out # (case outs of OutValues vs \<Rightarrow> vs | _ \<Rightarrow> []))) st h))"

primrec unmarshal_defs :: "urec \<Rightarrow> nat \<Rightarrow> i32 \<Rightarrow> cursor \<Rightarrow> UnmarshalState \<Rightarrow> heap \<Rightarrow> uresult" where
  "unmarshal_defs rec 0 flags data st h = UDone data (OutAddrs []) st h"
| "unmarshal_defs rec (Suc n) flags data st h =
     ubind (rec (UDef data flags) st h) (\<lambda>data out st h.
     ubind (unmarshal_defs rec n flags data st h) (\<lambda>data outs st h.
       UDone data (OutAddrs ((case out of OutAddr d \<Rightarrow> d | _ \<Rightarrow> 0) #
                             (case outs of OutAddrs ds \<Rightarrow> ds | _ \<Rightarrow> []))) st h))"

text \<open>The elements of an array, each stored in the array as soon as it is decoded.\<close>

primrec unmarshal_array :: "urec \<Rightarrow> addr \<Rightarrow> nat \<Rightarrow> nat \<Rightarrow> i32 \<Rightarrow> cursor \<Rightarrow> UnmarshalState \<Rightarrow> heap \<Rightarrow> uresult" where
  "unmarshal_array rec a 0 i flags data st h = UDone data Unset st h"
| "unmarshal_array rec a (Suc n) i flags data st h =
     ubind (rec (UOne data flags) st h) (\<lambda>data out st h.
       unmarshal_array rec a n (Suc i) flags data st
         (h\<lparr>h_arrays := (h_arrays h)(a :=
              (h_arrays h a)\<lparr>a_data := (a_data (h_arrays h a))[i := out_value out]\<rparr>)\<rparr>))"

text \<open>The pairs of a table, each put into the table as soon as it is decoded.\<close>

primrec unmarshal_table :: "host \<Rightarrow> urec \<Rightarrow> addr \<Rightarrow> nat \<Rightarrow> i32 \<Rightarrow> cursor \<Rightarrow> UnmarshalState \<Rightarrow> heap \<Rightarrow> uresult" where
  "unmarshal_table H rec t 0 flags data st h = UDone data Unset st h"
| "unmarshal_table H rec t (Suc n) flags data st h =
     ubind (rec (UOne data flags) st h) (\<lambda>data key st h.
     ubind (rec (UOne data flags) st h) (\<lambda>data val st h.
       unmarshal_table H rec t n flags data st
         (h\<lparr>h_tables := (h_tables h)(t :=
              janet_table_put H (h_tables h t) (out_value key) (out_value val))\<rparr>)))"

text \<open>The pairs of a struct.\<close>

primrec unmarshal_pairs :: "urec \<Rightarrow> nat \<Rightarrow> i32 \<Rightarrow> cursor \<Rightarrow> UnmarshalState \<Rightarrow> heap \<Rightarrow> (janet \<times> janet) list \<Rightarrow>
    (cursor \<Rightarrow> (janet \<times> janet) list \<Rightarrow> UnmarshalState \<Rightarrow> heap \<Rightarrow> uresult) \<Rightarrow> uresult" where
  "unmarshal_pairs rec 0 flags data st h acc k = k data acc st h"
| "unmarshal_pairs rec (Suc n) flags data st h acc k =
     ubind (rec (UOne data flags) st h) (\<lambda>data key st h.
     ubind (rec (UOne data flags) st h) (\<lambda>data val st h.
       unmarshal_pairs rec n flags data st h (acc @ [(out_value key, out_value val)]) k))"

text \<open>The value slots \<^verbatim>\<open>fiber->data[i]\<close> of a frame, \<open>n\<close> of them from slot \<open>i\<close> on.\<close>

primrec unmarshal_slots :: "urec \<Rightarrow> addr \<Rightarrow> nat \<Rightarrow> i32 \<Rightarrow> i32 \<Rightarrow> cursor \<Rightarrow> UnmarshalState \<Rightarrow> heap \<Rightarrow> uresult" where
  "unmarshal_slots rec fiber 0 i flags data st h = UDone data Unset st h"
| "unmarshal_slots rec fiber (Suc n) i flags data st h =
     ubind (rec (UOne data flags) st h) (\<lambda>data out st h.
       unmarshal_slots rec fiber n (i + 1) flags data st
         (h\<lparr>h_fibers := (h_fibers h)(fiber :=
              (h_fibers h fiber)\<lparr>fib_data := (fib_data (h_fibers h fiber))(i := out_value out)\<rparr>)\<rparr>))"

text \<open>The environments of a function, \<^verbatim>\<open>func->envs[i]\<close>.\<close>

primrec unmarshal_envs :: "urec \<Rightarrow> addr \<Rightarrow> nat \<Rightarrow> nat \<Rightarrow> i32 \<Rightarrow> cursor \<Rightarrow> UnmarshalState \<Rightarrow> heap \<Rightarrow> uresult" where
  "unmarshal_envs rec func 0 i flags data st h = UDone data Unset st h"
| "unmarshal_envs rec func (Suc n) i flags data st h =
     ubind (rec (UEnv data flags) st h) (\<lambda>data out st h.
       unmarshal_envs rec func n (Suc i) flags data st
         (h\<lparr>h_functions := (h_functions h)(func :=
              (h_functions h func)\<lparr>f_envs := (f_envs (h_functions h func))
                 [i := (case out of OutAddr e \<Rightarrow> e | _ \<Rightarrow> 0)]\<rparr>)\<rparr>))"

text \<open>
  The calls of an unmarshal hook on its context: \<^verbatim>\<open>janet_unmarshal_int\<close>,
  \<^verbatim>\<open>janet_unmarshal_byte\<close>, \<^verbatim>\<open>janet_unmarshal_bytes\<close> and \<^verbatim>\<open>janet_unmarshal_janet\<close>
  (which passes \<^verbatim>\<open>ctx->flags\<close> on as it is). \<open>data\<close> is \<^verbatim>\<open>ctx->data\<close>.
\<close>

primrec unmarshal_hook :: "urec \<Rightarrow> unmarshal_call list \<Rightarrow> i32 \<Rightarrow> cursor \<Rightarrow> UnmarshalState \<Rightarrow> heap \<Rightarrow> uresult" where
  "unmarshal_hook rec [] flags data st h = UDone data (OutItems []) st h"
| "unmarshal_hook rec (c # calls) flags data st h =
     ubind
       (case c of
          UInt \<Rightarrow> uread st data (\<lambda>v data. UDone data (OutItems [RInt v]) st h)
        | UByte \<Rightarrow>
            (case data of
               None \<Rightarrow> UPanic Fault
             | Some p \<Rightarrow>
                 if MARSH_EOS (src st) p then UPanic UnexpectedEOS
                 else if p < 0 then UPanic Fault
                 else UDone (Some (p + 1)) (OutItems [RByte (src st ! nat p)]) st h)
        | UBytes len \<Rightarrow>
            (case data of
               None \<Rightarrow> UPanic Fault
             | Some p \<Rightarrow>
                 if MARSH_EOS (src st) (p + sint len - 1) then UPanic UnexpectedEOS
                 else if p < 0 \<or> len <s 0 then UPanic Fault
                 else UDone (Some (p + sint len))
                        (OutItems [RBytes (bytes_from (src st) p (nat (sint len)))]) st h)
        | UJanet \<Rightarrow>
            ubind (rec (UOne data flags) st h) (\<lambda>data out st h.
              UDone data (OutItems [RJanet (out_value out)]) st h))
       (\<lambda>data item st h.
          ubind (unmarshal_hook rec calls flags data st h) (\<lambda>data items st h.
            UDone data (OutItems ((case item of OutItems is \<Rightarrow> is | _ \<Rightarrow> []) @
                                  (case items of OutItems is \<Rightarrow> is | _ \<Rightarrow> []))) st h))"

definition v_count :: "'a list \<Rightarrow> i32" where
  "v_count xs = of_nat (length xs)"

definition empty_env :: JanetFuncEnv where
  "empty_env = \<lparr>e_offset = 0, e_length = 0, e_fiber = 0, e_values = []\<rparr>"

definition unmarshal_one_env_step :: "host \<Rightarrow> urec \<Rightarrow> UnmarshalState \<Rightarrow> heap \<Rightarrow> cursor \<Rightarrow> i32 \<Rightarrow> uresult" where
  "unmarshal_one_env_step H rec st h data flags =
     (case data of
        None \<Rightarrow> UPanic Fault
      | Some p \<Rightarrow>
          if MARSH_EOS (src st) p then UPanic UnexpectedEOS
          else if p < 0 then UPanic Fault
          else if src st ! nat p = LB_FUNCENV_REF then
            uread st (Some (p + 1)) (\<lambda>index data.
              if index <s 0 \<or> v_count (lookup_envs st) \<le>s index
              then UPanic (InvalidFuncenvRef index)
              else UDone data (OutAddr (lookup_envs st ! nat (sint index))) st h)
          else
            (let env = h_brk h;
                 h = (alloc h)\<lparr>h_funcenvs := (h_funcenvs h)(env := empty_env)\<rparr>;
                 st = st\<lparr>lookup_envs := lookup_envs st @ [env]\<rparr>
             in
             uread st data (\<lambda>offset data.
             uread st data (\<lambda>length data.
               if offset \<noteq> 0 then
                 ubind (rec (UOne data flags) st h) (\<lambda>data fiberv st h.
                   case fiberv of
                     OutJanet v \<Rightarrow>
                       (case v of
                          JFiber fiber \<Rightarrow>
                            (let e = h_funcenvs h env in
                             if e_offset e \<noteq> 0 \<and> e_offset e \<noteq> offset then UPanic InvalidFuncenvOffset
                             else if e_length e \<noteq> 0 \<and> e_length e \<noteq> length then UPanic InvalidFuncenvLength
                             else UDone data (OutAddr env) st
                                    (h\<lparr>h_funcenvs := (h_funcenvs h)(env :=
                                         e\<lparr>e_fiber := fiber, e_offset := offset, e_length := length\<rparr>)\<rparr>))
                        | _ \<Rightarrow> UPanic ExpectedType)
                   | _ \<Rightarrow> UPanic Fault)
               else if length <s 0 then UPanic OutOfMemory
               else
                 ubind (unmarshal_values rec (nat (sint length)) flags data st h) (\<lambda>data outs st h.
                   UDone data (OutAddr env) st
                     (h\<lparr>h_funcenvs := (h_funcenvs h)(env :=
                          (h_funcenvs h env)\<lparr>e_values := (case outs of OutValues vs \<Rightarrow> vs | _ \<Rightarrow> []),
                                              e_offset := offset, e_length := length\<rparr>)\<rparr>))))))"

definition empty_def :: JanetFuncDef where
  "empty_def = \<lparr>d_flags = 0, d_slotcount = 0, d_arity = 0, d_constants_length = 0, d_constants = [],
     d_bytecode_length = 0, d_bytecode = [], d_environments_length = 0, d_environments = None,
     d_defs_length = 0, d_defs = None, d_name = None, d_source = None, d_sourcemap = None\<rparr>"

definition upd_def :: "heap \<Rightarrow> addr \<Rightarrow> (JanetFuncDef \<Rightarrow> JanetFuncDef) \<Rightarrow> heap" where
  "upd_def h def f = h\<lparr>h_funcdefs := (h_funcdefs h)(def := f (h_funcdefs h def))\<rparr>"

text \<open>An embedded string (the name and the source of a definition): \<^verbatim>\<open>unmarshal_one\<close>
  followed by \<^verbatim>\<open>janet_asserttype(x, JANET_STRING)\<close>.\<close>

definition unmarshal_string :: "urec \<Rightarrow> UnmarshalState \<Rightarrow> heap \<Rightarrow> cursor \<Rightarrow> i32 \<Rightarrow>
    (cursor \<Rightarrow> byte list \<Rightarrow> UnmarshalState \<Rightarrow> heap \<Rightarrow> uresult) \<Rightarrow> uresult" where
  "unmarshal_string rec st h data flags k =
     ubind (rec (UOne data flags) st h) (\<lambda>data x st h.
       case x of
         OutJanet v \<Rightarrow> (case v of JString s \<Rightarrow> k data s st h | _ \<Rightarrow> UPanic ExpectedType)
       | _ \<Rightarrow> UPanic Fault)"

text \<open>
  The parts of \<^verbatim>\<open>unmarshal_one_def\<close> after the header, in the order of the source: the
  constants, the bytecode, the environments, the nested definitions, the source map, and
  the verifier. The lengths are the locals of the C function.
\<close>

definition unmarshal_def_sourcemap :: "host \<Rightarrow> UnmarshalState \<Rightarrow> heap \<Rightarrow> addr \<Rightarrow> i32 \<Rightarrow> cursor \<Rightarrow> uresult" where
  "unmarshal_def_sourcemap H st h def bytecode_length data =
     (let r = (if has_flag (d_flags (h_funcdefs h def)) (FLAG_HASSOURCEMAP H)
               then (case read_sourcemap (src st) (nat (sint bytecode_length)) 0 data of
                       Inl e \<Rightarrow> Inl e
                     | Inr (ms, data) \<Rightarrow> Inr (upd_def h def (\<lambda>d. d\<lparr>d_sourcemap := Some ms\<rparr>), data))
               else Inr (upd_def h def (\<lambda>d. d\<lparr>d_sourcemap := None\<rparr>), data))
      in case r of
           Inl e \<Rightarrow> UPanic e
         | Inr (h, data) \<Rightarrow>
             if janet_verify H (h_funcdefs h def) then UPanic InvalidBytecode
             else UDone data (OutAddr def) st h)"

definition unmarshal_def_defs :: "host \<Rightarrow> urec \<Rightarrow> UnmarshalState \<Rightarrow> heap \<Rightarrow> addr \<Rightarrow> i32 \<Rightarrow> i32 \<Rightarrow> cursor \<Rightarrow> i32 \<Rightarrow> uresult" where
  "unmarshal_def_defs H rec st h def bytecode_length defs_length data flags =
     (if has_flag (d_flags (h_funcdefs h def)) (FLAG_HASDEFS H) then
        (if defs_length <s 0 then UPanic OutOfMemory
         else
           ubind (unmarshal_defs rec (nat (sint defs_length)) (flags + 1) data st h) (\<lambda>data outs st h.
             unmarshal_def_sourcemap H st
               (upd_def h def (\<lambda>d. d\<lparr>d_defs := Some (case outs of OutAddrs ds \<Rightarrow> ds | _ \<Rightarrow> []),
                                       d_defs_length := defs_length\<rparr>))
               def bytecode_length data))
      else
        unmarshal_def_sourcemap H st
          (upd_def h def (\<lambda>d. d\<lparr>d_defs := None, d_defs_length := defs_length\<rparr>))
          def bytecode_length data)"

definition unmarshal_def_code :: "host \<Rightarrow> urec \<Rightarrow> UnmarshalState \<Rightarrow> heap \<Rightarrow> addr \<Rightarrow> i32 \<Rightarrow> i32 \<Rightarrow> i32 \<Rightarrow> cursor \<Rightarrow> i32 \<Rightarrow> uresult" where
  "unmarshal_def_code H rec st h def bytecode_length environments_length defs_length data flags =
     (if bytecode_length <s 0 then UPanic OutOfMemory
      else case read_words (src st) (nat (sint bytecode_length)) data of
        Inl e \<Rightarrow> UPanic e
      | Inr (ws, data) \<Rightarrow>
          (let h = upd_def h def (\<lambda>d. d\<lparr>d_bytecode := ws, d_bytecode_length := bytecode_length\<rparr>) in
           if has_flag (d_flags (h_funcdefs h def)) (FLAG_HASENVS H) then
             (if environments_length <s 0 then UPanic OutOfMemory
              else case read_ints (src st) (nat (sint environments_length)) data of
                Inl e \<Rightarrow> UPanic e
              | Inr (es, data) \<Rightarrow>
                  unmarshal_def_defs H rec st
                    (upd_def h def (\<lambda>d. d\<lparr>d_environments := Some es,
                                            d_environments_length := environments_length\<rparr>))
                    def bytecode_length defs_length data flags)
           else
             unmarshal_def_defs H rec st
               (upd_def h def (\<lambda>d. d\<lparr>d_environments := None,
                                       d_environments_length := environments_length\<rparr>))
               def bytecode_length defs_length data flags))"

definition unmarshal_def_constants :: "host \<Rightarrow> urec \<Rightarrow> UnmarshalState \<Rightarrow> heap \<Rightarrow> addr \<Rightarrow> i32 \<Rightarrow> i32 \<Rightarrow> i32 \<Rightarrow> i32 \<Rightarrow> cursor \<Rightarrow> i32 \<Rightarrow> uresult" where
  "unmarshal_def_constants H rec st h def constants_length bytecode_length environments_length
       defs_length data flags =
     (if constants_length \<noteq> 0 then
        (if constants_length <s 0 then UPanic OutOfMemory
         else
           ubind (unmarshal_values rec (nat (sint constants_length)) (flags + 1) data st h)
             (\<lambda>data outs st h.
                unmarshal_def_code H rec st
                  (upd_def h def (\<lambda>d. d\<lparr>d_constants := (case outs of OutValues vs \<Rightarrow> vs | _ \<Rightarrow> []),
                                          d_constants_length := constants_length\<rparr>))
                  def bytecode_length environments_length defs_length data flags))
      else
        unmarshal_def_code H rec st
          (upd_def h def (\<lambda>d. d\<lparr>d_constants := [], d_constants_length := constants_length\<rparr>))
          def bytecode_length environments_length defs_length data flags)"

definition unmarshal_def_strings :: "host \<Rightarrow> urec \<Rightarrow> UnmarshalState \<Rightarrow> heap \<Rightarrow> addr \<Rightarrow> i32 \<Rightarrow> i32 \<Rightarrow> i32 \<Rightarrow> i32 \<Rightarrow> cursor \<Rightarrow> i32 \<Rightarrow> uresult" where
  "unmarshal_def_strings H rec st h def constants_length bytecode_length environments_length
       defs_length data flags =
     (let after_source = (\<lambda>data st h.
            unmarshal_def_constants H rec st h def constants_length bytecode_length
              environments_length defs_length data flags);
          after_name = (\<lambda>data st h.
            if has_flag (d_flags (h_funcdefs h def)) (FLAG_HASSOURCE H)
            then unmarshal_string rec st h data (flags + 1) (\<lambda>data s st h.
                   after_source data st (upd_def h def (\<lambda>d. d\<lparr>d_source := Some s\<rparr>)))
            else after_source data st h)
      in
      if has_flag (d_flags (h_funcdefs h def)) (FLAG_HASNAME H)
      then unmarshal_string rec st h data (flags + 1) (\<lambda>data s st h.
             after_name data st (upd_def h def (\<lambda>d. d\<lparr>d_name := Some s\<rparr>)))
      else after_name data st h)"

definition unmarshal_one_def_step :: "host \<Rightarrow> urec \<Rightarrow> UnmarshalState \<Rightarrow> heap \<Rightarrow> cursor \<Rightarrow> i32 \<Rightarrow> uresult" where
  "unmarshal_one_def_step H rec st h data flags =
     (case data of
        None \<Rightarrow> UPanic Fault
      | Some p \<Rightarrow>
          if MARSH_EOS (src st) p then UPanic UnexpectedEOS
          else if p < 0 then UPanic Fault
          else if src st ! nat p = LB_FUNCDEF_REF then
            uread st (Some (p + 1)) (\<lambda>index data.
              if index <s 0 \<or> v_count (lookup_defs st) \<le>s index
              then UPanic (InvalidFuncdefRef index)
              else UDone data (OutAddr (lookup_defs st ! nat (sint index))) st h)
          else
            (let def = h_brk h;
                 h = (alloc h)\<lparr>h_funcdefs := (h_funcdefs h)(def := empty_def)\<rparr>;
                 st = st\<lparr>lookup_defs := lookup_defs st @ [def]\<rparr>
             in
             uread st data (\<lambda>fl data.
             uread st data (\<lambda>slotcount data.
             uread st data (\<lambda>arity data.
             uread st data (\<lambda>constants_length data.
             uread st data (\<lambda>bytecode_length data.
               let h = upd_def h def (\<lambda>d. d\<lparr>d_flags := fl, d_slotcount := slotcount, d_arity := arity\<rparr>);
                   with_defs = (\<lambda>environments_length data.
                     if has_flag fl (FLAG_HASDEFS H)
                     then uread st data (\<lambda>defs_length data.
                            unmarshal_def_strings H rec st h def constants_length bytecode_length
                              environments_length defs_length data flags)
                     else unmarshal_def_strings H rec st h def constants_length bytecode_length
                            environments_length 0 data flags)
               in
               if has_flag fl (FLAG_HASENVS H)
               then uread st data (\<lambda>environments_length data. with_defs environments_length data)
               else with_defs 0 data)))))))"

subsection \<open>Fibers\<close>

definition empty_frame :: JanetStackFrame where
  "empty_frame = \<lparr>s_func = None, s_pc = 0, s_env = None, s_prevframe = 0, s_flags = 0\<rparr>"

definition empty_fiber :: JanetFiber where
  "empty_fiber = \<lparr>fib_flags = 0, fib_frame = 0, fib_stackstart = 0, fib_stacktop = 0,
     fib_capacity = 0, fib_maxstack = 0, fib_data = (\<lambda>i. JNil), fib_frames = (\<lambda>i. empty_frame),
     fib_child = None\<rparr>"

definition upd_fiber :: "heap \<Rightarrow> addr \<Rightarrow> (JanetFiber \<Rightarrow> JanetFiber) \<Rightarrow> heap" where
  "upd_fiber h fiber f = h\<lparr>h_fibers := (h_fibers h)(fiber := f (h_fibers h fiber))\<rparr>"

text \<open>
  The three checks that \<^verbatim>\<open>unmarshal_one_fiber\<close> makes on a frame, after the function and
  the environment of the frame were decoded: the first that fails is the panic.
\<close>

definition check_frame :: "host \<Rightarrow> JanetFuncDef \<Rightarrow> i32 \<Rightarrow> i32 \<Rightarrow> i32 \<Rightarrow> i32 \<Rightarrow> uerror option" where
  "check_frame H def stack stacktop pcdiff prevframe =
     (if d_slotcount def \<noteq> stacktop - stack then Some FrameSizeMismatch
      else if pcdiff <s 0 \<or> d_bytecode_length def \<le>s pcdiff then Some FrameInvalidPc
      else if stack <s prevframe + FRAME_SIZE H then Some FrameMisaligned
      else None)"

text \<open>One round of the \<^verbatim>\<open>while (stack > 0)\<close> loop, followed by the rest of the loop and
  the check \<^verbatim>\<open>if (stack < 0)\<close> behind it.\<close>

definition unmarshal_frames_step :: "host \<Rightarrow> urec \<Rightarrow> UnmarshalState \<Rightarrow> heap \<Rightarrow> addr \<Rightarrow> i32 \<Rightarrow> i32 \<Rightarrow> cursor \<Rightarrow> i32 \<Rightarrow> uresult" where
  "unmarshal_frames_step H rec st h fiber stack stacktop data flags =
     (if \<not> (0 <s stack) then
        (if stack <s 0 then UPanic TooManyFrames else UDone data Unset st h)
      else
        uread st data (\<lambda>frameflags data.
        uread st data (\<lambda>prevframe data.
        uread st data (\<lambda>pcdiff data.
        ubind (rec (UOne data (flags + 1)) st h) (\<lambda>data funcv st h.
          case funcv of
            OutJanet v \<Rightarrow>
              (case v of
                 JFunction func \<Rightarrow>
                   (let def = f_def (h_functions h func);
                        rest = (\<lambda>frameflags env data st h.
                          case check_frame H (h_funcdefs h def) stack stacktop pcdiff prevframe of
                            Some e \<Rightarrow> UPanic e
                          | None \<Rightarrow>
                              ubind (unmarshal_slots rec fiber (nat (sint stacktop - sint stack)) stack
                                       (flags + 1) data st h) (\<lambda>data out st h.
                                rec (UFrames fiber prevframe (stack - FRAME_SIZE H) data flags) st
                                  (upd_fiber h fiber (\<lambda>f. f\<lparr>fib_frames := (fib_frames f)(stack :=
                                     \<lparr>s_func = Some func, s_pc = pcdiff, s_env = env,
                                      s_prevframe = prevframe, s_flags = frameflags\<rparr>)\<rparr>))))
                    in
                    if frameflags AND JANET_STACKFRAME_HASENV \<noteq> 0 then
                      ubind (rec (UEnv data (flags + 1)) st h) (\<lambda>data envo st h.
                        case envo of
                          OutAddr env \<Rightarrow>
                            (let e = h_funcenvs h env in
                             if e_offset e \<noteq> 0 \<and> e_offset e \<noteq> stack then UPanic EnvOffsetMismatch
                             else if e_length e \<noteq> 0 \<and> e_length e \<noteq> stacktop - stack
                               then UPanic EnvLengthMismatch
                             else rest (frameflags AND NOT JANET_STACKFRAME_HASENV) (Some env) data st
                                    (h\<lparr>h_funcenvs := (h_funcenvs h)(env :=
                                         e\<lparr>e_offset := stack, e_length := stacktop - stack\<rparr>)\<rparr>))
                        | _ \<Rightarrow> UPanic Fault)
                    else rest frameflags None data st h)
               | _ \<Rightarrow> UPanic ExpectedType)
          | _ \<Rightarrow> UPanic Fault)))))"

definition unmarshal_one_fiber_step :: "host \<Rightarrow> urec \<Rightarrow> UnmarshalState \<Rightarrow> heap \<Rightarrow> cursor \<Rightarrow> i32 \<Rightarrow> uresult" where
  "unmarshal_one_fiber_step H rec st h data flags =
     (let fiber = h_brk h;
          h = (alloc h)\<lparr>h_fibers := (h_fibers h)(fiber := empty_fiber)\<rparr>;
          st = janet_array_push st (JFiber fiber)
      in
      uread st data (\<lambda>fl data.
      uread st data (\<lambda>frame data.
      uread st data (\<lambda>stackstart data.
      uread st data (\<lambda>stacktop data.
      uread st data (\<lambda>maxstack data.
        if stackstart <s frame + FRAME_SIZE H \<or> stacktop <s stackstart \<or> maxstack <s stacktop
        then UPanic BadStackSetup
        else if stacktop + 10 <s 0 then UPanic OutOfMemory
        else
          let h = upd_fiber h fiber (\<lambda>f. f\<lparr>fib_flags := fl, fib_stackstart := stackstart,
                    fib_stacktop := stacktop, fib_maxstack := maxstack,
                    fib_capacity := stacktop + 10\<rparr>)
          in
          ubind (rec (UFrames fiber frame (stackstart - FRAME_SIZE H) data flags) st h)
            (\<lambda>data out st h.
               if fib_flags (h_fibers h fiber) AND JANET_FIBER_FLAG_HASCHILD \<noteq> 0 then
                 (let h = upd_fiber h fiber (\<lambda>f. f\<lparr>fib_flags := fib_flags f AND NOT JANET_FIBER_FLAG_HASCHILD\<rparr>) in
                  ubind (rec (UOne data (flags + 1)) st h) (\<lambda>data fiberv st h.
                    case fiberv of
                      OutJanet v \<Rightarrow>
                        (case v of
                           JFiber child \<Rightarrow>
                             UDone data (OutAddr fiber) st
                               (upd_fiber h fiber (\<lambda>f. f\<lparr>fib_child := Some child, fib_frame := frame\<rparr>))
                         | _ \<Rightarrow> UPanic ExpectedType)
                    | _ \<Rightarrow> UPanic Fault))
               else UDone data (OutAddr fiber) st
                      (upd_fiber h fiber (\<lambda>f. f\<lparr>fib_frame := frame\<rparr>)))))))))"

subsection \<open>Abstract objects\<close>

definition unmarshal_one_abstract_step :: "host \<Rightarrow> urec \<Rightarrow> UnmarshalState \<Rightarrow> heap \<Rightarrow> cursor \<Rightarrow> i32 \<Rightarrow> uresult" where
  "unmarshal_one_abstract_step H rec st h data flags =
     ubind (rec (UOne data (flags + 1)) st h) (\<lambda>data keyo st h.
       case keyo of
         OutJanet key \<Rightarrow>
           (case abstract_type H key of
              None \<Rightarrow> UDone None Unset st h
            | Some at \<Rightarrow>
                (case at_unmarshal at of
                   None \<Rightarrow> UDone None Unset st h
                 | Some calls \<Rightarrow>
                     uread st data (\<lambda>size data.
                       if size <s 0 then UPanic OutOfMemory
                       else
                         ubind (unmarshal_hook rec calls flags data st (alloc h)) (\<lambda>ctx_data items st h'.
                           UDone data (OutJanet (JAbstract (h_brk h))) st
                             (h'\<lparr>h_abstracts := (h_abstracts h')(h_brk h :=
                                  \<lparr>ab_name = at_name at, ab_size = size,
                                   ab_marshal = (case at_marshal at of
                                      None \<Rightarrow> None
                                    | Some f \<Rightarrow> Some (f (case items of OutItems is \<Rightarrow> is | _ \<Rightarrow> [])))\<rparr>)\<rparr>)))))
       | _ \<Rightarrow> UPanic Fault)"

subsection \<open>\<^verbatim>\<open>unmarshal_one\<close>\<close>

text \<open>The case of the five lead bytes that are followed by a length and that many bytes.
  \<open>q\<close> is the cursor behind the length.\<close>

definition unmarshal_bytes_kind :: "UnmarshalState \<Rightarrow> heap \<Rightarrow> byte \<Rightarrow> i32 \<Rightarrow> int \<Rightarrow> uresult" where
  "unmarshal_bytes_kind st h lead len q =
     (if MARSH_EOS (src st) (q - 1 + sint len) then UPanic UnexpectedEOS
      else
        let bytes = bytes_from (src st) q (nat (sint len)) in
        if lead = LB_REGISTRY \<and> reg st = None then
          UDone (Some (q + sint len)) (OutJanet JNil) (janet_array_push st JNil) h
        else if len <s 0 then UPanic Fault
        else if lead = LB_STRING then
          UDone (Some (q + sint len)) (OutJanet (JString bytes)) (janet_array_push st (JString bytes)) h
        else if lead = LB_SYMBOL then
          UDone (Some (q + sint len)) (OutJanet (JSymbol bytes)) (janet_array_push st (JSymbol bytes)) h
        else if lead = LB_KEYWORD then
          UDone (Some (q + sint len)) (OutJanet (JKeyword bytes)) (janet_array_push st (JKeyword bytes)) h
        else if lead = LB_REGISTRY then
          (let v = (case reg st of
                      None \<Rightarrow> JNil
                    | Some r \<Rightarrow> (case r (JSymbol bytes) of None \<Rightarrow> JNil | Some v \<Rightarrow> v))
           in UDone (Some (q + sint len)) (OutJanet v) (janet_array_push st v) h)
        else
          (let buffer = h_brk h;
               h = (alloc h)\<lparr>h_buffers := (h_buffers h)(buffer := \<lparr>b_count = len, b_data = bytes\<rparr>)\<rparr>
           in UDone (Some (q + sint len)) (OutJanet (JBuffer buffer))
                (janet_array_push st (JBuffer buffer)) h))"

text \<open>The case of the lead bytes that are followed by an integer: references, arrays,
  tuples, structs and tables. \<open>data\<close> is the cursor behind the integer \<open>len\<close>.\<close>

definition unmarshal_counted :: "host \<Rightarrow> urec \<Rightarrow> UnmarshalState \<Rightarrow> heap \<Rightarrow> byte \<Rightarrow> i32 \<Rightarrow> cursor \<Rightarrow> i32 \<Rightarrow> uresult" where
  "unmarshal_counted H rec st h lead len data flags =
     (if lead = LB_ARRAY then
        (let array = h_brk h;
             h = (alloc h)\<lparr>h_arrays := (h_arrays h)(array :=
                    \<lparr>a_count = len, a_data = replicate (nat (sint len)) JNil\<rparr>)\<rparr>;
             st = janet_array_push st (JArray array)
         in ubind (unmarshal_array rec array (nat (sint len)) 0 (flags + 1) data st h)
              (\<lambda>data out st h. UDone data (OutJanet (JArray array)) st h))
      else if lead = LB_TUPLE then
        (if len <s 0 then UPanic Fault
         else
           uread st data (\<lambda>flag data.
             ubind (unmarshal_values rec (nat (sint len)) (flags + 1) data st h) (\<lambda>data outs st h.
               let tup = JTuple (signed_drop_bit 16 (push_bit 16 flag))
                           (case outs of OutValues vs \<Rightarrow> vs | _ \<Rightarrow> [])
               in UDone data (OutJanet tup) (janet_array_push st tup) h)))
      else if lead = LB_STRUCT then
        (if len <s 0 then UPanic Fault
         else
           unmarshal_pairs rec (nat (sint len)) (flags + 1) data st h [] (\<lambda>data kvs st h.
             let s = JStruct (janet_struct_build H len kvs)
             in UDone data (OutJanet s) (janet_array_push st s) h))
      else if lead = LB_REFERENCE then
        (if len <s 0 \<or> v_count (lookup st) \<le>s len then UPanic (InvalidReference len)
         else UDone data (OutJanet (lookup st ! nat (sint len))) st h)
      else
        (let t = h_brk h;
             h = (alloc h)\<lparr>h_tables := (h_tables h)(t := janet_table H len)\<rparr>;
             st = janet_array_push st (JTable t);
             pairs = (\<lambda>data st h.
               ubind (unmarshal_table H rec t (nat (sint len)) (flags + 1) data st h)
                 (\<lambda>data out st h. UDone data (OutJanet (JTable t)) st h))
         in
         if lead = LB_TABLE_PROTO then
           ubind (rec (UOne data (flags + 1)) st h) (\<lambda>data proto st h.
             case proto of
               OutJanet v \<Rightarrow>
                 (case v of
                    JTable p \<Rightarrow>
                      pairs data st (h\<lparr>h_tables := (h_tables h)(t := (h_tables h t)\<lparr>t_proto := Some p\<rparr>)\<rparr>)
                  | _ \<Rightarrow> UPanic ExpectedType)
             | _ \<Rightarrow> UPanic Fault)
         else pairs data st h))"

definition unmarshal_one_step :: "host \<Rightarrow> urec \<Rightarrow> UnmarshalState \<Rightarrow> heap \<Rightarrow> cursor \<Rightarrow> i32 \<Rightarrow> uresult" where
  "unmarshal_one_step H rec st h data flags =
     (if MARSH_STACKCHECK H flags then UPanic ReadStackOverflow
      else case data of
        None \<Rightarrow> UPanic Fault
      | Some p \<Rightarrow>
          if MARSH_EOS (src st) p then UPanic UnexpectedEOS
          else if p < 0 then UPanic Fault
          else
            let lead = src st ! nat p in
            if lead < 200 then
              uread st data (\<lambda>v data. UDone data (OutJanet (JNumber (Integral v))) st h)
            else if lead = LB_NIL then UDone (Some (p + 1)) (OutJanet JNil) st h
            else if lead = LB_FALSE then UDone (Some (p + 1)) (OutJanet JFalse) st h
            else if lead = LB_TRUE then UDone (Some (p + 1)) (OutJanet JTrue) st h
            else if lead = LB_INTEGER then
              (if MARSH_EOS (src st) (p + 4) then UPanic UnexpectedEOS
               else UDone (Some (p + 5))
                      (OutJanet (JNumber (Integral
                         (read4 (src st ! nat (p + 1)) (src st ! nat (p + 2))
                                (src st ! nat (p + 3)) (src st ! nat (p + 4)))))) st h)
            else if lead = LB_REAL then
              (if MARSH_EOS (src st) (p + 8) then UPanic UnexpectedEOS
               else
                 let v = JNumber (number_of_bits H
                           (bytes_double H (read_real H (bytes_from (src st) p 9))))
                 in UDone (Some (p + 9)) (OutJanet v) (janet_array_push st v) h)
            else if lead = LB_STRING \<or> lead = LB_SYMBOL \<or> lead = LB_BUFFER \<or> lead = LB_KEYWORD
                    \<or> lead = LB_REGISTRY then
              uread st (Some (p + 1)) (\<lambda>len data.
                case data of
                  None \<Rightarrow> UPanic Fault
                | Some q \<Rightarrow> unmarshal_bytes_kind st h lead len q)
            else if lead = LB_FIBER then
              ubind (rec (UFiber (Some (p + 1)) flags) st h) (\<lambda>data fiber st h.
                UDone data (OutJanet (JFiber (case fiber of OutAddr f \<Rightarrow> f | _ \<Rightarrow> 0))) st h)
            else if lead = LB_FUNCTION then
              ubind (rec (UDef (Some (p + 1)) (flags + 1)) st h) (\<lambda>data defo st h.
                let def = (case defo of OutAddr d \<Rightarrow> d | _ \<Rightarrow> 0);
                    n = nat (sint (d_environments_length (h_funcdefs h def)));
                    func = h_brk h;
                    h = (alloc h)\<lparr>h_functions := (h_functions h)(func :=
                           \<lparr>f_def = def, f_envs = replicate n 0\<rparr>)\<rparr>;
                    st = janet_array_push st (JFunction func)
                in ubind (unmarshal_envs rec func n 0 (flags + 1) data st h)
                     (\<lambda>data out st h. UDone data (OutJanet (JFunction func)) st h))
            else if lead = LB_ABSTRACT then rec (UAbstract (Some (p + 1)) flags) st h
            else if lead = LB_REFERENCE \<or> lead = LB_ARRAY \<or> lead = LB_TUPLE \<or> lead = LB_STRUCT
                    \<or> lead = LB_TABLE \<or> lead = LB_TABLE_PROTO then
              uread st (Some (p + 1)) (\<lambda>len data. unmarshal_counted H rec st h lead len data flags)
            else UPanic (UnknownByte lead p))"

primrec unmarshal :: "host \<Rightarrow> nat \<Rightarrow> urec" where
  "unmarshal H 0 = (\<lambda>c st h. UTimeout)"
| "unmarshal H (Suc n) = (\<lambda>c st h.
     case c of
       UOne data flags \<Rightarrow> unmarshal_one_step H (unmarshal H n) st h data flags
     | UEnv data flags \<Rightarrow> unmarshal_one_env_step H (unmarshal H n) st h data flags
     | UDef data flags \<Rightarrow> unmarshal_one_def_step H (unmarshal H n) st h data flags
     | UFiber data flags \<Rightarrow> unmarshal_one_fiber_step H (unmarshal H n) st h data flags
     | UFrames fiber stack stacktop data flags \<Rightarrow>
         unmarshal_frames_step H (unmarshal H n) st h fiber stack stacktop data flags
     | UAbstract data flags \<Rightarrow> unmarshal_one_abstract_step H (unmarshal H n) st h data flags)"

definition unmarshal_one :: "host \<Rightarrow> nat \<Rightarrow> UnmarshalState \<Rightarrow> heap \<Rightarrow> cursor \<Rightarrow> i32 \<Rightarrow> uresult" where
  "unmarshal_one H n st h data flags = unmarshal H n (UOne data flags) st h"

definition unmarshal_one_env :: "host \<Rightarrow> nat \<Rightarrow> UnmarshalState \<Rightarrow> heap \<Rightarrow> cursor \<Rightarrow> i32 \<Rightarrow> uresult" where
  "unmarshal_one_env H n st h data flags = unmarshal H n (UEnv data flags) st h"

definition unmarshal_one_def :: "host \<Rightarrow> nat \<Rightarrow> UnmarshalState \<Rightarrow> heap \<Rightarrow> cursor \<Rightarrow> i32 \<Rightarrow> uresult" where
  "unmarshal_one_def H n st h data flags = unmarshal H n (UDef data flags) st h"

definition unmarshal_one_fiber :: "host \<Rightarrow> nat \<Rightarrow> UnmarshalState \<Rightarrow> heap \<Rightarrow> cursor \<Rightarrow> i32 \<Rightarrow> uresult" where
  "unmarshal_one_fiber H n st h data flags = unmarshal H n (UFiber data flags) st h"

definition unmarshal_one_abstract :: "host \<Rightarrow> nat \<Rightarrow> UnmarshalState \<Rightarrow> heap \<Rightarrow> cursor \<Rightarrow> i32 \<Rightarrow> uresult" where
  "unmarshal_one_abstract H n st h data flags = unmarshal H n (UAbstract data flags) st h"

text \<open>\<^verbatim>\<open>janet_unmarshal\<close>: a fresh state over the given bytes, one value decoded from the
  start. The result carries the value (\<^verbatim>\<open>out\<close>) and the next cursor (\<^verbatim>\<open>*next\<close>).\<close>

definition janet_unmarshal :: "host \<Rightarrow> nat \<Rightarrow> byte list \<Rightarrow> heap \<Rightarrow> i32 \<Rightarrow> (janet \<rightharpoonup> janet) option \<Rightarrow> uresult" where
  "janet_unmarshal H n bytes h flags r =
     unmarshal_one H n \<lparr>lookup = [], reg = r, lookup_envs = [], lookup_defs = [], src = bytes\<rparr>
       h (Some 0) flags"

section \<open>Relations between the states of a run\<close>

text \<open>The state and the heap that a result carries: what the run leaves behind, whether it
  finished, panicked, or (in the model) ran out of fuel. \<open>final_buf\<close> is the caller's buffer
  after the run.\<close>

definition final_state :: "mresult \<Rightarrow> MarshalState" where
  "final_state r = (case r of Done st h \<Rightarrow> st | Panic e st h \<Rightarrow> st | Timeout st h \<Rightarrow> st)"

definition final_buf :: "mresult \<Rightarrow> byte list" where
  "final_buf r = buf (final_state r)"

definition final_heap :: "mresult \<Rightarrow> heap" where
  "final_heap r = (case r of Done st h \<Rightarrow> h | Panic e st h \<Rightarrow> h | Timeout st h \<Rightarrow> h)"

text \<open>
  \<open>reached R st h r\<close>: the state and heap that the result \<open>r\<close> of a run started in \<open>st\<close>,
  \<open>h\<close> carries are related to \<open>st\<close>, \<open>h\<close> by \<open>R\<close>.
  \<open>step_closed H R\<close>: \<open>R\<close> is reflexive, transitive, and holds across each of the writes the
  writer makes: appending to the buffer; marking a value as seen, at the end of a run that
  started in a state where the value was not seen; entering an environment into its vector;
  adding the flags of a definition and entering it into its vector; and setting the
  \<^verbatim>\<open>HASENV\<close> flag of a frame that has an environment.
  \<open>call_ok c st\<close>: \<^verbatim>\<open>marshal_one_abstract\<close> is only called on a value that is not seen (its one
  caller, \<^verbatim>\<open>marshal_one\<close>, has looked the value up).
\<close>

type_synonym mrel = "MarshalState \<Rightarrow> heap \<Rightarrow> MarshalState \<Rightarrow> heap \<Rightarrow> bool"

definition reached :: "mrel \<Rightarrow> MarshalState \<Rightarrow> heap \<Rightarrow> mresult \<Rightarrow> bool" where
  "reached R st h r = R st h (final_state r) (final_heap r)"

definition step_closed :: "host \<Rightarrow> mrel \<Rightarrow> bool" where
  "step_closed H R \<longleftrightarrow>
     (\<forall>st h. R st h st h) \<and>
     (\<forall>st h st1 h1 st2 h2. R st h st1 h1 \<longrightarrow> R st1 h1 st2 h2 \<longrightarrow> R st h st2 h2) \<and>
     (\<forall>st h bs. R st h (st\<lparr>buf := buf st @ bs\<rparr>) h) \<and>
     (\<forall>st h st1 h1 x. R st h st1 h1 \<longrightarrow> seen st x = None \<longrightarrow> R st h (MARK_SEEN st1 x) h1) \<and>
     (\<forall>st h e. R st h (st\<lparr>seen_envs := seen_envs st @ [e]\<rparr>) h) \<and>
     (\<forall>st h d. R st h (st\<lparr>seen_defs := seen_defs st @ [d]\<rparr>)
        (h\<lparr>h_funcdefs := (h_funcdefs h)(d := janet_func_addflags H (h_funcdefs h d))\<rparr>)) \<and>
     (\<forall>st h f i. s_env (fib_frames (h_fibers h f) i) \<noteq> None \<longrightarrow>
        R st h st (set_frame_flags h f i (s_flags (fib_frames (h_fibers h f) i) OR JANET_STACKFRAME_HASENV)))"

fun call_ok :: "mcall \<Rightarrow> MarshalState \<Rightarrow> bool" where
  "call_ok (CAbstract x flags) st = (seen st x = None)"
| "call_ok c st = True"

text \<open>\<open>rec_ok R rec\<close>: every admissible call of the functions \<open>rec\<close> stands for ends in a
  state related to the one it started in.\<close>

definition rec_ok :: "mrel \<Rightarrow> (mcall \<Rightarrow> MarshalState \<Rightarrow> heap \<Rightarrow> mresult) \<Rightarrow> bool" where
  "rec_ok R rec \<longleftrightarrow> (\<forall>c st h. call_ok c st \<longrightarrow> reached R st h (rec c st h))"








text \<open>
  \<open>extends r r'\<close> relates the results of one call run with less and with more fuel: if the
  shorter run ended by itself, the longer run ends the same way; if the shorter run was cut
  off, the buffer that the longer run leaves starts with the buffer the shorter run had
  reached.
\<close>

definition extends :: "mresult \<Rightarrow> mresult \<Rightarrow> bool" where
  "extends r r' \<longleftrightarrow>
     (case r of Timeout st h \<Rightarrow> (\<exists>bs. final_buf r' = buf st @ bs) | _ \<Rightarrow> r' = r)"

definition rec_extends :: "mrec \<Rightarrow> mrec \<Rightarrow> bool" where
  "rec_extends rec rec' \<longleftrightarrow> (\<forall>c st h. call_ok c st \<longrightarrow> extends (rec c st h) (rec' c st h))"

abbreviation Rbuf :: mrel where
  "Rbuf \<equiv> (\<lambda>st h st' h'. \<exists>bs. buf st' = buf st @ bs)"

section \<open>An example host and example heaps\<close>

text \<open>
  Modelled from the spec: a number is written as an integer when it is a whole number in the
  signed 32-bit range. \<open>double_int32\<close> reads that off the bits of an IEEE double: both zeros
  are the integer 0; otherwise the exponent has to lie between 0 and 31, the fraction bits
  below the binary point have to be zero, and the magnitude has to fit.
\<close>

definition double_int32 :: "64 word \<Rightarrow> i32 option" where
  "double_int32 w =
     (let e = unat (take_bit 11 (drop_bit 52 w));
          sig = take_bit 52 w OR push_bit 52 1;
          mag = drop_bit (1075 - e) sig
      in if take_bit 63 w = 0 then Some 0
         else if e < 1023 \<or> 1054 < e then None
         else if take_bit (1075 - e) sig \<noteq> 0 then None
         else if bit w 63 then (if mag \<le> 0x80000000 then Some (- ucast mag) else None)
         else (if mag < 0x80000000 then Some (ucast mag) else None))"

text \<open>
  A host with the usual values: recursion guard 1024, frames of four slots, a little-endian
  machine, the status of a fiber in bits 16 to 23 of its flags with 15 for a running
  fiber, a decoded double that is a 32-bit integer tagged as such, a verifier that accepts,
  and no abstract type registered. The heaps below extend a heap whose cells are all empty.
\<close>

definition host0 :: host where
  "host0 = \<lparr>RECURSION_GUARD = 1024, FRAME_SIZE = 4, BIG_ENDIAN = False,
     FLAG_HASNAME = 0x80000, FLAG_HASSOURCE = 0x100000, FLAG_HASDEFS = 0x200000,
     FLAG_HASENVS = 0x400000, FLAG_HASSOURCEMAP = 0x800000,
     status_alive = (\<lambda>flags. drop_bit 16 flags AND 0xFF = 15),
     indeterminate = [0, 0, 0, 0, 0, 0, 0, 0],
     number_of_bits = (\<lambda>w. case double_int32 w of Some i \<Rightarrow> Integral i | None \<Rightarrow> Double w),
     janet_verify = (\<lambda>def. False),
     janet_table = (\<lambda>capacity. \<lparr>t_count = 0, t_data = [], t_proto = None\<rparr>),
     janet_table_put = (\<lambda>t k v. t\<lparr>t_count := t_count t + 1, t_data := t_data t @ [(k, v)]\<rparr>),
     janet_struct_build = (\<lambda>len kvs. kvs),
     abstract_type = (\<lambda>key. None)\<rparr>"

definition heap0 :: heap where
  "heap0 = \<lparr>h_arrays = (\<lambda>a. \<lparr>a_count = 0, a_data = []\<rparr>),
     h_buffers = (\<lambda>a. \<lparr>b_count = 0, b_data = []\<rparr>),
     h_tables = (\<lambda>a. \<lparr>t_count = 0, t_data = [], t_proto = None\<rparr>),
     h_funcdefs = (\<lambda>a. empty_def),
     h_funcenvs = (\<lambda>a. empty_env),
     h_functions = (\<lambda>a. \<lparr>f_def = 0, f_envs = []\<rparr>),
     h_fibers = (\<lambda>a. empty_fiber),
     h_abstracts = (\<lambda>a. \<lparr>ab_name = [], ab_size = 0, ab_marshal = None\<rparr>),
     h_brk = 0\<rparr>"


text \<open>A running fiber (cell 0: status 15), an array (cell 0) whose only element it is, and
  an array (cell 1) that holds the number 5 and the fiber.\<close>

definition heap_alive :: heap where
  "heap_alive = heap0\<lparr>h_fibers := (h_fibers heap0)(0 := empty_fiber\<lparr>fib_flags := 0xF0000\<rparr>),
                      h_arrays := (h_arrays heap0)(0 := \<lparr>a_count = 1, a_data = [JFiber 0]\<rparr>,
                         1 := \<lparr>a_count = 2, a_data = [JNumber (Integral 5), JFiber 0]\<rparr>),
                      h_brk := 1\<rparr>"

text \<open>A closure that captured itself: function 0 has one environment (cell 0), off the
  stack, whose only value is function 0.\<close>

definition heap_selfenv :: heap where
  "heap_selfenv = heap0\<lparr>
     h_funcdefs := (h_funcdefs heap0)(0 := empty_def\<lparr>d_environments_length := 1,
                                                      d_environments := Some [0]\<rparr>),
     h_functions := (h_functions heap0)(0 := \<lparr>f_def = 0, f_envs = [0]\<rparr>),
     h_funcenvs := (h_funcenvs heap0)(0 := \<lparr>e_offset = 0, e_length = 1, e_fiber = 0,
                                            e_values = [JFunction 0]\<rparr>),
     h_brk := 1\<rparr>"

text \<open>How a run ended.\<close>

definition panic_of :: "mresult \<Rightarrow> merror option" where
  "panic_of r = (case r of Panic e st h \<Rightarrow> Some e | _ \<Rightarrow> None)"

definition is_done :: "mresult \<Rightarrow> bool" where
  "is_done r = (case r of Done st h \<Rightarrow> True | _ \<Rightarrow> False)"


text \<open>A fresh writer state; one with a registry that names fiber 0 \<open>me\<close>; a reader state on
  the registry record of that name, with a registry that maps \<open>me\<close> to true.\<close>

definition st0 :: MarshalState where
  "st0 = \<lparr>buf = [], seen = Map.empty, rreg = None, seen_envs = [], seen_defs = [], nextid = 0\<rparr>"

definition st_reg :: MarshalState where
  "st_reg = st0\<lparr>rreg := Some [JFiber 0 \<mapsto> JSymbol [109, 101]]\<rparr>"

definition ust_me :: UnmarshalState where
  "ust_me = \<lparr>lookup = [], reg = Some [JSymbol [109, 101] \<mapsto> JTrue], lookup_envs = [],
             lookup_defs = [], src = [216, 2, 109, 101]\<rparr>"

text \<open>The same host on a big-endian machine; the uninitialised bytes of the union happen to
  be zero.\<close>

definition host_be :: host where
  "host_be = host0\<lparr>BIG_ENDIAN := True\<rparr>"

definition result_value :: "uresult \<Rightarrow> janet option" where
  "result_value r = (case r of UDone data (OutJanet v) st h \<Rightarrow> Some v | _ \<Rightarrow> None)"

definition result_cursor :: "uresult \<Rightarrow> cursor" where
  "result_cursor r = (case r of UDone data out st h \<Rightarrow> data | _ \<Rightarrow> None)"

definition result_error :: "uresult \<Rightarrow> uerror option" where
  "result_error r = (case r of UPanic e \<Rightarrow> Some e | _ \<Rightarrow> None)"

text \<open>A reader state on an abstract record whose type name is the keyword \<open>a\<close>.\<close>

definition ust_abs :: UnmarshalState where
  "ust_abs = \<lparr>lookup = [], reg = None, lookup_envs = [], lookup_defs = [],
              src = [217, 208, 1, 97]\<rparr>"

text \<open>A fiber (cell 0) that is not running, with one frame at index 4: function 0, with the
  environment in cell 0 and no slots.\<close>

definition heap_frame :: heap where
  "heap_frame = heap0\<lparr>
     h_fibers := (h_fibers heap0)(0 := empty_fiber\<lparr>fib_frame := 4, fib_stackstart := 8,
        fib_stacktop := 8, fib_maxstack := 8,
        fib_frames := (fib_frames empty_fiber)(4 :=
           \<lparr>s_func = Some 0, s_pc = 0, s_env = Some 0, s_prevframe = 0, s_flags = 0\<rparr>)\<rparr>),
     h_brk := 1\<rparr>"

text \<open>An array (cell 0) that holds the string \<open>a\<close> and itself.\<close>

definition heap_selfarray :: heap where
  "heap_selfarray = heap0\<lparr>
     h_arrays := (h_arrays heap0)(0 := \<lparr>a_count = 2, a_data = [JString [97], JArray 0]\<rparr>),
     h_brk := 1\<rparr>"


section \<open>Notions used in the statements\<close>

text \<open>The five integers that \<^verbatim>\<open>marshal_one_fiber\<close> writes before the frames: the flags (with
  the has-child bit), \<^verbatim>\<open>frame\<close>, \<^verbatim>\<open>stackstart\<close>, \<^verbatim>\<open>stacktop\<close> and \<^verbatim>\<open>maxstack\<close>.\<close>

definition fiber_header :: "JanetFiber \<Rightarrow> byte list" where
  "fiber_header f =
     int_bytes (fib_flags f OR flag_if (fib_child f \<noteq> None) JANET_FIBER_FLAG_HASCHILD) @
     int_bytes (fib_frame f) @ int_bytes (fib_stackstart f) @ int_bytes (fib_stacktop f) @
     int_bytes (fib_maxstack f)"

text \<open>\<^verbatim>\<open>janet_table_get(st->reg, janet_symbolv(data, len))\<close>, and nil when there is no
  registry: what the reader makes of the name of a registry record.\<close>

definition registry_get :: "UnmarshalState \<Rightarrow> byte list \<Rightarrow> janet" where
  "registry_get st name =
     (case reg st of
        None \<Rightarrow> JNil
      | Some r \<Rightarrow> (case r (JSymbol name) of None \<Rightarrow> JNil | Some v \<Rightarrow> v))"


text \<open>The state \<^verbatim>\<open>janet_marshal\<close> starts from: the caller's buffer, empty tables, the
  registry it was given.\<close>

definition writer_init :: "byte list \<Rightarrow> (janet \<rightharpoonup> janet) option \<Rightarrow> MarshalState" where
  "writer_init buffer r =
     \<lparr>buf = buffer, seen = Map.empty, rreg = r, seen_envs = [], seen_defs = [], nextid = 0\<rparr>"


section \<open>Facts about the integer codec\<close>

lemma mask6_numeral: "(0x3F :: 'a::len word) = mask 6"
  by (simp add: mask_eq_exp_minus_1)

lemma mask8_numeral: "(0xFF :: 'a::len word) = mask 8"
  by (simp add: mask_eq_exp_minus_1)

lemma bit_128_int: "bit (128 :: int) n \<longleftrightarrow> n = 7"
proof -
  have "(128 :: int) = 2 ^ 7" by simp
  then show ?thesis by (simp only: bit_exp_iff) auto
qed

lemma high_six_bits:
  "(ucast (ucast ((signed_drop_bit 8 x AND 0x3F) OR 0x80 :: i32) AND (0x3F::byte)) :: i32)
     = drop_bit 8 x AND mask 6"
proof (rule bit_word_eqI)
  fix n assume "n < LENGTH(32)"
  show "bit (ucast (ucast ((signed_drop_bit 8 x AND 0x3F) OR 0x80 :: i32) AND (0x3F::byte)) :: i32) n
          = bit (drop_bit 8 x AND mask 6) n"
    unfolding mask6_numeral
    by (cases "n < 6") (auto simp add: bit_simps bit_128_int)
qed

lemma low_eight_bits0:
  "(ucast (ucast (x AND 0xFF :: i32) :: byte) :: i32) = x AND mask 8"
  unfolding mask8_numeral
  by (intro bit_word_eqI) (auto simp: bit_simps)

lemma signed_drop_low_eight:
  assumes "k \<le> 24"
  shows "signed_drop_bit k (x::i32) AND mask 8 = drop_bit k x AND mask 8"
  using assms
  by (intro bit_word_eqI) (auto simp: bit_simps)

lemma signed_take_bit_13_self:
  assumes "- 8192 \<le> sint (x::i32)" "sint x \<le> 8191"
  shows "signed_take_bit 13 x = x"
proof (rule bit_word_eqI)
  fix n assume n: "n < LENGTH(32)"
  have s: "signed_take_bit 13 (sint x) = sint x"
    using assms by (intro signed_take_bit_int_eq_self) auto
  have "bit x n = bit (sint x) n" using n by (simp add: bit_sint_iff)
  also have "\<dots> = bit (signed_take_bit 13 (sint x)) n" by (simp add: s)
  also have "\<dots> = bit (sint x) (min 13 n)" by (simp add: bit_signed_take_bit_iff)
  also have "\<dots> = bit x (min 13 n)" using n by (simp add: bit_sint_iff)
  finally show "bit (signed_take_bit 13 x) n = bit x n"
    using n by (simp add: bit_signed_take_bit_iff)
qed

lemma read2_int_bytes:
  assumes "- 8192 \<le> sint (x::i32)" "sint x \<le> 8191"
  shows "read2 (ucast ((signed_drop_bit 8 x AND 0x3F) OR 0x80)) (ucast (x AND 0xFF)) = x"
proof -
  have "push_bit 8 (drop_bit 8 x AND mask 6) + (x AND mask 8)
          = push_bit 8 (drop_bit 8 x AND mask 6) OR (x AND mask 8)"
    by (rule disjunctive_add) (auto simp: bit_simps)
  also have "\<dots> = x AND mask 14"
    by (rule bit_word_eqI) (auto simp: bit_simps)
  finally have sum: "push_bit 8 (drop_bit 8 x AND mask 6) + (x AND mask 8) = x AND mask 14" .
  have "signed_drop_bit 18 (push_bit 18 (x AND mask 14)) = signed_take_bit 13 x"
    by (rule bit_word_eqI) (auto simp: bit_simps)
  then have "signed_drop_bit 18 (push_bit 18 (x AND mask 14)) = x"
    by (simp only: signed_take_bit_13_self [OF assms])
  then show ?thesis
    unfolding read2_def Let_def high_six_bits low_eight_bits0 sum .
qed

lemma read4_int_bytes:
  "read4 (ucast (signed_drop_bit 24 x AND 0xFF)) (ucast (signed_drop_bit 16 x AND 0xFF))
         (ucast (signed_drop_bit 8 x AND 0xFF)) (ucast (x AND 0xFF)) = (x::i32)"
proof -
  have "push_bit 24 (drop_bit 24 x AND mask 8) OR push_bit 16 (drop_bit 16 x AND mask 8) OR
        push_bit 8 (drop_bit 8 x AND mask 8) OR (x AND mask 8) = x"
  proof (rule bit_word_eqI)
    fix n assume n: "n < LENGTH(32)"
    consider "n < 8" | "8 \<le> n" "n < 16" | "16 \<le> n" "n < 24" | "24 \<le> n" by linarith
    then show "bit (push_bit 24 (drop_bit 24 x AND mask 8) OR push_bit 16 (drop_bit 16 x AND mask 8) OR
        push_bit 8 (drop_bit 8 x AND mask 8) OR (x AND mask 8)) n = bit x n"
      using n by cases (auto simp add: bit_simps)
  qed
  moreover have "(24::nat) \<le> 24" "(16::nat) \<le> 24" "(8::nat) \<le> 24" by simp_all
  ultimately show ?thesis
    unfolding read4_def low_eight_bits0
    by (simp only: signed_drop_low_eight)
qed



lemma byte1_small:
  assumes "0 \<le> sint (x::i32)" "sint x < 128"
  shows "(ucast x :: byte) < 128" "(ucast (ucast x :: byte) :: i32) = x"
proof -
  have u: "uint x = sint x" using assms
    by (simp add: uint_sint take_bit_int_eq_self)
  have "uint (ucast x :: byte) = take_bit 8 (uint x)"
    by (simp add: unsigned_ucast_eq)
  also have "\<dots> = uint x" using assms u by (simp add: take_bit_int_eq_self)
  finally have e: "uint (ucast x :: byte) = uint x" .
  show "(ucast x :: byte) < 128" using assms u e by (simp add: word_less_def)
  show "(ucast (ucast x :: byte) :: i32) = x"
    using assms u
    by (intro word_uint_eqI) (simp add: unsigned_ucast_eq unsigned_take_bit_eq take_bit_int_eq_self)
qed

lemma byte2_lead:
  fixes x :: i32
  defines "b \<equiv> (ucast ((signed_drop_bit 8 x AND 0x3F) OR 0x80) :: byte)"
  shows "\<not> b < 128" "b < 192"
proof -
  define c :: byte where "c = ucast (signed_drop_bit 8 x) AND mask 6"
  have b: "b = c + 128"
  proof -
    have "b = c OR 128" unfolding b_def c_def mask6_numeral
      by (intro bit_word_eqI) (auto simp: bit_simps bit_128_int)
    also have "c OR 128 = c + 128"
    proof (rule disjunctive_add [symmetric])
      fix n
      have "(128::byte) = 2 ^ 7" by simp
      then have "bit (128::byte) n \<longleftrightarrow> n = 7" by (simp only: bit_exp_iff possible_bit_word) auto
      then show "\<not> bit c n \<or> \<not> bit (128::byte) n"
        by (auto simp: c_def bit_simps)
    qed
    finally show ?thesis .
  qed
  have c: "uint c < 64" using and_mask_lt_2p [of "ucast (signed_drop_bit 8 x) :: byte" 6]
    by (simp add: c_def)
  have "uint b = uint c + 128"
    unfolding b using c by (simp add: uint_word_ariths take_bit_int_eq_self)
  then show "\<not> b < 128" "b < 192" using c by (simp_all add: word_less_def)
qed

lemma ucast_low_byte:
  "(ucast ((y::i32) AND 0xFF) :: byte) = ucast y"
  unfolding mask8_numeral
  by (intro bit_word_eqI) (auto simp: bit_simps)

lemma ucast_signed_drop:
  assumes "k \<le> 24"
  shows "(ucast (signed_drop_bit k (x::i32)) :: byte) = ucast (drop_bit k x)"
  using assms by (intro bit_word_eqI) (auto simp: bit_simps)

lemma two_byte_form:
  "(ucast ((signed_drop_bit 8 (x::i32) AND 0x3F) OR 0x80) :: byte) = ucast (take_bit 6 (drop_bit 8 x)) OR 0x80"
  unfolding mask6_numeral
  by (intro bit_word_eqI) (auto simp: bit_simps bit_128_int)

lemma readint_at:
  fixes x :: i32
  assumes "s = pre @ int_bytes x @ post"
  shows "readint s (Some (int (length pre))) = Inr (x, Some (int (length pre) + int (length (int_bytes x))))"
proof -
  consider (one) "0 \<le> sint x" "sint x < 128"
    | (two) "\<not> (0 \<le> sint x \<and> sint x < 128)" "- 8192 \<le> sint x" "sint x \<le> 8191"
    | (five) "\<not> (0 \<le> sint x \<and> sint x < 128)" "\<not> (sint x \<le> 8191 \<and> - 8192 \<le> sint x)"
    by linarith
  then show ?thesis
  proof cases
    case one
    then have b: "int_bytes x = [ucast x]"
      by (simp add: int_bytes_def word_sle_eq word_sless_alt)
    show ?thesis
      using byte1_small [OF one]
      by (simp add: assms b readint_def MARSH_EOS_def nth_append)
  next
    case two
    then have b: "int_bytes x = [ucast ((signed_drop_bit 8 x AND 0x3F) OR 0x80), ucast (x AND 0xFF)]"
      by (simp add: int_bytes_def word_sle_eq word_sless_alt)
    have n: "nat (int (length pre) + 1) = Suc (length pre)" by simp
    show ?thesis
      using byte2_lead [of x] read2_int_bytes [OF two(2,3)]
      by (simp add: assms b readint_def MARSH_EOS_def nth_append n)
  next
    case five
    then have b: "int_bytes x = [LB_INTEGER, ucast (signed_drop_bit 24 x AND 0xFF),
         ucast (signed_drop_bit 16 x AND 0xFF), ucast (signed_drop_bit 8 x AND 0xFF), ucast (x AND 0xFF)]"
      by (simp add: int_bytes_def word_sle_eq word_sless_alt)
    have n: "nat (int (length pre) + 1) = length pre + 1" "nat (int (length pre) + 2) = length pre + 2"
      "nat (int (length pre) + 3) = length pre + 3" "nat (int (length pre) + 4) = length pre + 4"
      by simp_all
    have l: "\<not> LB_INTEGER < 128" "\<not> LB_INTEGER < 192" by (simp_all add: LB_INTEGER_def)
    show ?thesis
      using read4_int_bytes [of x] l
      by (simp add: assms b readint_def MARSH_EOS_def nth_append n)
  qed
qed

section \<open>Invariants of the writer\<close>

lemma sc_refl: "step_closed H R \<Longrightarrow> R st h st h" by (simp add: step_closed_def)
lemma sc_trans:
  assumes "step_closed H R" "R st h st1 h1" "R st1 h1 st2 h2"
  shows "R st h st2 h2"
proof -
  from assms(1) have "\<forall>st h st1 h1 st2 h2. R st h st1 h1 \<longrightarrow> R st1 h1 st2 h2 \<longrightarrow> R st h st2 h2"
    by (simp add: step_closed_def)
  then show ?thesis using assms(2,3) by blast
qed
lemma sc_buf: "step_closed H R \<Longrightarrow> R st h (st\<lparr>buf := buf st @ bs\<rparr>) h" by (simp add: step_closed_def)
lemma sc_pushint: "step_closed H R \<Longrightarrow> R st h (pushint st x) h" by (simp add: pushint_def sc_buf)
lemma sc_pushbyte: "step_closed H R \<Longrightarrow> R st h (pushbyte st x) h" by (simp add: pushbyte_def sc_buf)
lemma sc_pushbytes: "step_closed H R \<Longrightarrow> R st h (pushbytes st x l) h" by (simp add: pushbytes_def sc_buf)
lemma sc_envs: "step_closed H R \<Longrightarrow> R st h (st\<lparr>seen_envs := seen_envs st @ [e]\<rparr>) h" by (simp add: step_closed_def)
lemma sc_def: "step_closed H R \<Longrightarrow> R st h (st\<lparr>seen_defs := seen_defs st @ [d]\<rparr>)
    (h\<lparr>h_funcdefs := (h_funcdefs h)(d := janet_func_addflags H (h_funcdefs h d))\<rparr>)"
  by (simp add: step_closed_def)
lemma sc_frame: "step_closed H R \<Longrightarrow> s_env (fib_frames (h_fibers h f) i) \<noteq> None \<Longrightarrow>
    R st h st (set_frame_flags h f i (s_flags (fib_frames (h_fibers h f) i) OR JANET_STACKFRAME_HASENV))"
  by (simp add: step_closed_def)

lemma R_mark:
  assumes "step_closed H R" "R st h st1 h1" "seen st x = None"
  shows "R st h (MARK_SEEN st1 x) h1"
proof -
  from assms(1) have "\<forall>st h st1 h1 x. R st h st1 h1 \<longrightarrow> seen st x = None \<longrightarrow> R st h (MARK_SEEN st1 x) h1"
    by (simp add: step_closed_def)
  then show ?thesis using assms(2,3) by blast
qed

lemma reached_Done: "R st h st' h' \<Longrightarrow> reached R st h (Done st' h')"
  by (simp add: reached_def final_state_def final_heap_def)
lemma reached_Panic: "R st h st' h' \<Longrightarrow> reached R st h (Panic e st' h')"
  by (simp add: reached_def final_state_def final_heap_def)
lemma reached_Timeout: "R st h st' h' \<Longrightarrow> reached R st h (Timeout st' h')"
  by (simp add: reached_def final_state_def final_heap_def)

lemma reached_pre:
  assumes "step_closed H R" "R st h st1 h1" "reached R st1 h1 r"
  shows "reached R st h r"
  using assms(3) unfolding reached_def by (rule sc_trans [OF assms(1) assms(2)])

lemma reached_mbind:
  assumes "step_closed H R" "reached R st h r" "\<And>st' h'. R st h st' h' \<Longrightarrow> reached R st h (k st' h')"
  shows "reached R st h (mbind r k)"
proof (cases r)
  case (Done st' h')
  then have "R st h st' h'" using assms(2) by (simp add: reached_def final_state_def final_heap_def)
  then have "reached R st h (k st' h')" by (rule assms(3))
  then show ?thesis using Done by (simp add: mbind_def)
next
  case (Panic e st' h')
  then show ?thesis using assms(2) by (simp add: mbind_def)
next
  case (Timeout st' h')
  then show ?thesis using assms(2) by (simp add: mbind_def)
qed

lemma call_ok_One: "call_ok (COne x flags) st" by simp
lemma call_ok_Env: "call_ok (CEnv e flags) st" by simp
lemma call_ok_Def: "call_ok (CDef d flags) st" by simp
lemma call_ok_Fiber: "call_ok (CFiber f flags) st" by simp
lemma call_ok_Frames: "call_ok (CFrames f i j flags) st" by simp
lemma call_ok_Abstract: "seen st x = None \<Longrightarrow> call_ok (CAbstract x flags) st" by simp

lemmas call_ok_intros = call_ok_One call_ok_Env call_ok_Def call_ok_Fiber call_ok_Frames

lemma reached_rec_pre:
  assumes "step_closed H R" "rec_ok R rec"
    "R st h st1 h1" "call_ok c st1"
  shows "reached R st h (rec c st1 h1)"
proof -
  from assms(2,4) have "reached R st1 h1 (rec c st1 h1)" by (simp add: rec_ok_def)
  then show ?thesis by (rule reached_pre [OF assms(1) assms(3)])
qed

lemma reached_many_pre:
  assumes sc: "step_closed H R" and rec: "rec_ok R rec"
  shows "R st h st1 h1 \<Longrightarrow> reached R st h (marshal_many rec st1 h1 xs flags)"
proof (induction xs arbitrary: st1 h1)
  case Nil then show ?case by (simp add: reached_Done)
next
  case (Cons x xs)
  show ?case
    by (simp, rule reached_mbind [OF sc reached_rec_pre [OF sc rec Cons.prems call_ok_One]],
        rule Cons.IH)
qed

lemma reached_envs_pre:
  assumes sc: "step_closed H R" and rec: "rec_ok R rec"
  shows "R st h st1 h1 \<Longrightarrow> reached R st h (marshal_envs rec st1 h1 xs flags)"
proof (induction xs arbitrary: st1 h1)
  case Nil then show ?case by (simp add: reached_Done)
next
  case (Cons x xs)
  show ?case
    by (simp, rule reached_mbind [OF sc reached_rec_pre [OF sc rec Cons.prems call_ok_Env]],
        rule Cons.IH)
qed

lemma reached_defs_pre:
  assumes sc: "step_closed H R" and rec: "rec_ok R rec"
  shows "R st h st1 h1 \<Longrightarrow> reached R st h (marshal_defs rec st1 h1 xs flags)"
proof (induction xs arbitrary: st1 h1)
  case Nil then show ?case by (simp add: reached_Done)
next
  case (Cons x xs)
  show ?case
    by (simp, rule reached_mbind [OF sc reached_rec_pre [OF sc rec Cons.prems call_ok_Def]],
        rule Cons.IH)
qed

lemma R_pushint:
  assumes "step_closed H R" "R st h st1 h1" 
  shows "R st h (pushint st1 x) h1"
  by (rule sc_trans [OF assms(1) assms(2) sc_pushint [OF assms(1)]])

lemma R_pushbyte:
  assumes "step_closed H R" "R st h st1 h1" 
  shows "R st h (pushbyte st1 x) h1"
  by (rule sc_trans [OF assms(1) assms(2) sc_pushbyte [OF assms(1)]])

lemma R_pushbytes:
  assumes "step_closed H R" "R st h st1 h1" 
  shows "R st h (pushbytes st1 x l) h1"
  by (rule sc_trans [OF assms(1) assms(2) sc_pushbytes [OF assms(1)]])

lemma R_envs:
  assumes "step_closed H R" "R st h st1 h1" 
  shows "R st h (st1\<lparr>seen_envs := seen_envs st1 @ [e]\<rparr>) h1"
  by (rule sc_trans [OF assms(1) assms(2) sc_envs [OF assms(1)]])

lemma R_def:
  assumes "step_closed H R" "R st h st1 h1" 
  shows "R st h (st1\<lparr>seen_defs := seen_defs st1 @ [d]\<rparr>)
    (h1\<lparr>h_funcdefs := (h_funcdefs h1)(d := janet_func_addflags H (h_funcdefs h1 d))\<rparr>)"
  by (rule sc_trans [OF assms(1) assms(2) sc_def [OF assms(1)]])

lemma R_frame:
  assumes "step_closed H R" "R st h st1 h1" "s_env (fib_frames (h_fibers h1 f) i) \<noteq> None"
  shows "R st h st1 (set_frame_flags h1 f i (s_flags (fib_frames (h_fibers h1 f) i) OR JANET_STACKFRAME_HASENV))"
  by (rule sc_trans [OF assms(1) assms(2) sc_frame [OF assms(1) assms(3)]])

lemma R_pushword:
  assumes "step_closed H R" "R st h st1 h1"
  shows "R st h (pushword st1 w) h1"
  unfolding pushword_def
  by (intro R_pushbyte [OF assms(1)] assms(2))

lemma R_pushwords:
  assumes "step_closed H R"
  shows "R st h st1 h1 \<Longrightarrow> R st h (foldl pushword st1 ws) h1"
proof (induction ws arbitrary: st1)
  case Nil then show ?case by simp
next
  case (Cons w ws)
  have "R st h (pushword st1 w) h1" by (rule R_pushword [OF assms Cons.prems])
  then have "R st h (foldl pushword (pushword st1 w) ws) h1" by (rule Cons.IH)
  then show ?case by simp
qed

lemma R_pushints:
  assumes "step_closed H R"
  shows "R st h st1 h1 \<Longrightarrow> R st h (pushints st1 ws) h1"
proof (induction ws arbitrary: st1)
  case Nil then show ?case by (simp add: pushints_def)
next
  case (Cons w ws)
  have "R st h (pushint st1 w) h1" by (rule R_pushint [OF assms Cons.prems])
  then have "R st h (pushints (pushint st1 w) ws) h1" by (rule Cons.IH)
  then show ?case by (simp add: pushints_def)
qed

lemma R_sourcemap:
  assumes "step_closed H R"
  shows "R st h st1 h1 \<Longrightarrow> R st h (push_sourcemap st1 c ms) h1"
proof (induction ms arbitrary: st1 c)
  case Nil then show ?case by simp
next
  case (Cons m ms)
  obtain s e where m: "m = (s, e)" by (cases m)
  have "R st h (pushint (pushint st1 (s - c)) (e - s)) h1"
    by (intro R_pushint [OF assms] Cons.prems)
  then have "R st h (push_sourcemap (pushint (pushint st1 (s - c)) (e - s)) e ms) h1" by (rule Cons.IH)
  then show ?case by (simp add: m)
qed

lemma R_def_header:
  assumes "step_closed H R" "R st h st1 h1"
  shows "R st h (push_def_header H st1 d) h1"
proof -
  note p = R_pushint [OF assms(1)]
  have 1: "R st h (pushint (pushint (pushint (pushint (pushint st1 (d_flags d)) (d_slotcount d)) (d_arity d))
             (d_constants_length d)) (d_bytecode_length d)) h1" (is "R st h ?s5 h1")
    by (intro p assms(2))
  have 2: "R st h (if has_flag (d_flags d) (FLAG_HASENVS H) then pushint ?s5 (d_environments_length d) else ?s5) h1"
    (is "R st h ?s6 h1")
    using 1 p by (cases "has_flag (d_flags d) (FLAG_HASENVS H)") simp_all
  have 3: "R st h (if has_flag (d_flags d) (FLAG_HASDEFS H) then pushint ?s6 (d_defs_length d) else ?s6) h1"
    using 2 p by (cases "has_flag (d_flags d) (FLAG_HASDEFS H)") simp_all
  show ?thesis unfolding push_def_header_def Let_def by (rule 3)
qed

lemma R_def_code:
  assumes "step_closed H R" "R st h st1 h1"
  shows "R st h (push_def_code st1 d) h1"
  unfolding push_def_code_def
  by (intro R_pushints [OF assms(1)] R_pushwords [OF assms(1)] assms(2))



lemma reached_hook_pre:
  assumes sc: "step_closed H R" and rec: "rec_ok R rec"
  shows "R st h st1 h1 \<Longrightarrow> reached R st h (marshal_hook rec st1 h1 xs flags)"
proof (induction xs arbitrary: st1 h1)
  case Nil then show ?case by (simp add: reached_Done)
next
  case (Cons x xs)
  have "reached R st h (case x of MInt v \<Rightarrow> Done (pushint st1 v) h1 | MByte b \<Rightarrow> Done (pushbyte st1 b) h1
          | MBytes bytes len \<Rightarrow> Done (pushbytes st1 bytes len) h1
          | MJanet y \<Rightarrow> rec (COne y (flags + 1)) st1 h1)"
    by (cases x)
       (simp_all add: reached_Done R_pushint [OF sc Cons.prems] R_pushbyte [OF sc Cons.prems]
          R_pushbytes [OF sc Cons.prems] reached_rec_pre [OF sc rec Cons.prems call_ok_One])
  then show ?case by (simp, intro reached_mbind [OF sc] Cons.IH)
qed

lemma reached_if:
  "(c \<Longrightarrow> reached R st h a) \<Longrightarrow> (\<not> c \<Longrightarrow> reached R st h b) \<Longrightarrow> reached R st h (if c then a else b)"
  by simp

lemma reached_case_option:
  "(x = None \<Longrightarrow> reached R st h a) \<Longrightarrow> (\<And>y. x = Some y \<Longrightarrow> reached R st h (b y)) \<Longrightarrow>
   reached R st h (case x of None \<Rightarrow> a | Some y \<Rightarrow> b y)"
  by (cases x) simp_all

lemma reached_case_number:
  "(\<And>i. reached R st h (a i)) \<Longrightarrow> (\<And>w. reached R st h (b w)) \<Longrightarrow>
   reached R st h (case x of Integral i \<Rightarrow> a i | Double w \<Rightarrow> b w)"
  by (cases x) simp_all

lemma R_if:
  "(c \<Longrightarrow> R st h a h1) \<Longrightarrow> (\<not> c \<Longrightarrow> R st h b h1) \<Longrightarrow> R st h (if c then a else b) h1"
  by simp

lemma reached_reference_type:
  assumes sc: "step_closed H R" and rec: "rec_ok R rec"
    and unseen: "seen st x = None"
  shows "reached R st h (marshal_reference_type H rec st h x flags)"
proof -
  note rl = R_pushint [OF sc] R_pushbyte [OF sc] R_pushbytes [OF sc] R_mark [OF sc] sc_refl [OF sc]
    reached_Done reached_Panic reached_mbind [OF sc]
    reached_rec_pre [OF sc rec] reached_many_pre [OF sc rec] reached_envs_pre [OF sc rec]
    reached_case_option reached_case_number reached_if call_ok_intros call_ok_Abstract
  show ?thesis
    unfolding marshal_reference_type_def Let_def
    by (insert unseen, (cases x; simp only: janet.case; (intro rl; assumption?)))
qed

lemma reached_one_step:
  assumes sc: "step_closed H R" and rec: "rec_ok R rec"
  shows "reached R st h (marshal_one_step H rec st h x flags)"
proof -
  note rl = R_pushint [OF sc] R_pushbyte [OF sc] R_pushbytes [OF sc] R_mark [OF sc] sc_refl [OF sc]
    reached_Done reached_Panic reached_reference_type [OF sc rec]
    reached_case_option reached_if
  show ?thesis
    unfolding marshal_one_step_def
    by (intro rl; assumption?)
qed

lemma reached_env_step:
  assumes sc: "step_closed H R" and rec: "rec_ok R rec"
  shows "reached R st h (marshal_one_env_step H rec st h env flags)"
proof -
  note rl = R_pushint [OF sc] R_pushbyte [OF sc] R_envs [OF sc] sc_refl [OF sc]
    reached_Done reached_Panic reached_rec_pre [OF sc rec] reached_many_pre [OF sc rec]
    reached_case_option reached_if call_ok_intros
  show ?thesis
    unfolding marshal_one_env_step_def Let_def
    by (intro rl)
qed

lemma reached_def_step:
  assumes sc: "step_closed H R" and rec: "rec_ok R rec"
  shows "reached R st h (marshal_one_def_step H rec st h def flags)"
proof -
  note rl = R_pushint [OF sc] R_pushbyte [OF sc] R_def [OF sc] R_def_header [OF sc]
    R_def_code [OF sc] R_sourcemap [OF sc] sc_refl [OF sc]
    reached_Done reached_Panic reached_mbind [OF sc]
    reached_rec_pre [OF sc rec] reached_many_pre [OF sc rec] reached_defs_pre [OF sc rec]
    reached_case_option reached_if call_ok_intros
  show ?thesis
    unfolding marshal_one_def_step_def Let_def
    by (intro rl; assumption?)
qed

lemma reached_fiber_step:
  assumes sc: "step_closed H R" and rec: "rec_ok R rec"
  shows "reached R st h (marshal_one_fiber_step H rec st h fiber flags)"
proof -
  note rl = R_pushint [OF sc] sc_refl [OF sc]
    reached_Done reached_Panic reached_mbind [OF sc]
    reached_rec_pre [OF sc rec]
    reached_case_option reached_if call_ok_intros
  show ?thesis
    unfolding marshal_one_fiber_step_def Let_def
    by (intro rl; assumption?)
qed

lemma reached_frames_step:
  assumes sc: "step_closed H R" and rec: "rec_ok R rec"
  shows "reached R st h (marshal_frames_step H rec st h fiber i j flags)"
proof -
  note rl = R_pushint [OF sc] sc_refl [OF sc]
    reached_Done reached_Panic reached_mbind [OF sc]
    reached_rec_pre [OF sc rec] reached_many_pre [OF sc rec]
    reached_case_option reached_if call_ok_intros
  have fr: "R st h st (if s_env (fib_frames (h_fibers h fiber) i) \<noteq> None
                        then set_frame_flags h fiber i
                               (s_flags (fib_frames (h_fibers h fiber) i) OR JANET_STACKFRAME_HASENV)
                        else h)"
  proof (cases "s_env (fib_frames (h_fibers h fiber) i) = None")
    case True
    then show ?thesis by (simp add: sc_refl [OF sc])
  next
    case False
    show ?thesis using R_frame [OF sc sc_refl [OF sc] False, of st] False by simp
  qed
  show ?thesis
    unfolding marshal_frames_step_def Let_def
    by (intro rl fr; assumption?)
qed

lemma reached_abstract_step:
  assumes sc: "step_closed H R" and rec: "rec_ok R rec"
    and unseen: "seen st x = None"
  shows "reached R st h (marshal_one_abstract_step H rec st h x flags)"
proof -
  note rl = R_pushint [OF sc] R_pushbyte [OF sc] R_mark [OF sc] sc_refl [OF sc]
    reached_Done reached_Panic reached_mbind [OF sc]
    reached_rec_pre [OF sc rec] reached_hook_pre [OF sc rec]
    reached_case_option reached_if call_ok_intros
  show ?thesis
    unfolding marshal_one_abstract_step_def
    by (insert unseen, (cases x; simp only: janet.case; (intro rl; assumption?)))
qed

lemma marshal_reached:
  assumes sc: "step_closed H R"
  shows "call_ok c st \<Longrightarrow> reached R st h (marshal H n c st h)"
proof (induction n arbitrary: c st h)
  case 0
  show ?case by (simp add: reached_Timeout sc_refl [OF sc])
next
  case (Suc n)
  have rec: "rec_ok R (marshal H n)" using Suc.IH by (simp add: rec_ok_def)
  show ?case
    using Suc.prems
    by (cases c)
       (simp_all add: reached_one_step [OF sc rec] reached_env_step [OF sc rec]
          reached_def_step [OF sc rec] reached_fiber_step [OF sc rec]
          reached_frames_step [OF sc rec] reached_abstract_step [OF sc rec])
qed
















lemma step_closed_buf: "step_closed H (\<lambda>st h st' h'. \<exists>bs. buf st' = buf st @ bs)"
  unfolding step_closed_def MARK_SEEN_def by auto


subsection \<open>One unit of fuel unfolds one call\<close>

lemma marshal_one_Suc:
  "marshal_one H (Suc n) st h x flags = marshal_one_step H (marshal H n) st h x flags"
  by (simp add: marshal_one_def)

lemma marshal_one_fiber_Suc:
  "marshal_one_fiber H (Suc n) st h f flags = marshal_one_fiber_step H (marshal H n) st h f flags"
  by (simp add: marshal_one_fiber_def)

lemma marshal_one_env_Suc:
  "marshal_one_env H (Suc n) st h e flags = marshal_one_env_step H (marshal H n) st h e flags"
  by (simp add: marshal_one_env_def)


lemma marshal_one_abstract_Suc:
  "marshal_one_abstract H (Suc n) st h x flags = marshal_one_abstract_step H (marshal H n) st h x flags"
  by (simp add: marshal_one_abstract_def)


lemma janet_marshal_init:
  "janet_marshal H n buffer h x r flags = marshal_one H n (writer_init buffer r) h x flags"
  by (simp add: janet_marshal_def writer_init_def)

lemma marshal_rec_ok:
  assumes "step_closed H R"
  shows "rec_ok R (marshal H n)"
  unfolding rec_ok_def using marshal_reached [OF assms] by blast

lemma marshal_one_reached:
  assumes "step_closed H R"
  shows "reached R st h (marshal_one H n st h x flags)"
  unfolding marshal_one_def by (rule marshal_reached [OF assms call_ok_One])

lemma marshal_one_def_reached:
  assumes "step_closed H R"
  shows "reached R st h (marshal_one_def H n st h d flags)"
  unfolding marshal_one_def_def by (rule marshal_reached [OF assms call_ok_Def])

lemma marshal_one_env_reached:
  assumes "step_closed H R"
  shows "reached R st h (marshal_one_env H n st h e flags)"
  unfolding marshal_one_env_def by (rule marshal_reached [OF assms call_ok_Env])

lemma marshal_frames_reached:
  assumes "step_closed H R"
  shows "reached R st h (marshal_frames H n st h f i j flags)"
  unfolding marshal_frames_def by (rule marshal_reached [OF assms call_ok_Frames])


lemma final_Done [simp]: "final_state (Done st h) = st" "final_heap (Done st h) = h"
  by (simp_all add: final_state_def final_heap_def)

lemma final_Panic [simp]: "final_state (Panic e st h) = st" "final_heap (Panic e st h) = h"
  by (simp_all add: final_state_def final_heap_def)

lemma final_Timeout [simp]: "final_state (Timeout st h) = st" "final_heap (Timeout st h) = h"
  by (simp_all add: final_state_def final_heap_def)

lemma marshal_one_unseen:
  assumes "\<not> MARSH_STACKCHECK H flags" "\<not> is_simple x" "int_in_range x = None"
    "seen st x = None" "registry_symbol st x = None"
  shows "marshal_one H (Suc n) st h x flags = marshal_reference_type H (marshal H n) st h x flags"
  using assms by (simp add: marshal_one_Suc marshal_one_step_def)

lemma marshal_one_seen:
  assumes "\<not> MARSH_STACKCHECK H flags" "\<not> is_simple x" "int_in_range x = None"
    "seen st x = Some i"
  shows "marshal_one H (Suc n) st h x flags = Done (pushint (pushbyte st LB_REFERENCE) i) h"
  using assms by (simp add: marshal_one_Suc marshal_one_step_def)

lemma fiber_step_alive:
  assumes "\<not> MARSH_STACKCHECK H flags" "status_alive H (fib_flags (h_fibers h fiber))"
  shows "marshal_one_fiber_step H rec st h fiber flags = Panic AliveFiber st h"
  using assms by (simp add: marshal_one_fiber_step_def Let_def)

lemma fiber_step_not_alive:
  assumes sc: "\<not> MARSH_STACKCHECK H flags" and na: "\<not> status_alive H (fib_flags (h_fibers h fiber))"
  shows "reached (\<lambda>st h st' h'. \<exists>bs. buf st' = buf st @ bs)
           (st\<lparr>buf := buf st @ fiber_header (h_fibers h fiber)\<rparr>) h
           (marshal_one_fiber_step H (marshal H n) st h fiber flags)"
proof -
  let ?R = "\<lambda>st h st' h'. \<exists>bs. buf st' = buf st @ bs"
  let ?f = "h_fibers h fiber"
  note scb = step_closed_buf [of H]
  have st5: "pushint (pushint (pushint (pushint (pushint st
              (fib_flags ?f OR flag_if (fib_child ?f \<noteq> None) JANET_FIBER_FLAG_HASCHILD))
              (fib_frame ?f)) (fib_stackstart ?f)) (fib_stacktop ?f)) (fib_maxstack ?f)
            = st\<lparr>buf := buf st @ fiber_header ?f\<rparr>"
    by (simp add: pushint_def fiber_header_def)
  have k: "reached ?R st' h' (case fib_child (h_fibers h' fiber) of
                 Some child \<Rightarrow> marshal H n (COne (JFiber child) (flags + 1)) st' h'
               | None \<Rightarrow> Done st' h')" for st' h'
    by (cases "fib_child (h_fibers h' fiber)")
       (simp_all add: reached_Done marshal_reached [OF scb call_ok_One])
  have k': "reached ?R (st\<lparr>buf := buf st @ fiber_header ?f\<rparr>) h
             (case fib_child (h_fibers h' fiber) of
                 Some child \<Rightarrow> marshal H n (COne (JFiber child) (flags + 1)) st' h'
               | None \<Rightarrow> Done st' h')"
    if "?R (st\<lparr>buf := buf st @ fiber_header ?f\<rparr>) h st' h'" for st' h'
    by (rule reached_pre [OF scb that k])
  have "reached ?R (st\<lparr>buf := buf st @ fiber_header ?f\<rparr>) h
          (mbind (marshal H n (CFrames fiber (fib_frame ?f) (fib_stackstart ?f - FRAME_SIZE H) flags)
                    (st\<lparr>buf := buf st @ fiber_header ?f\<rparr>) h)
            (\<lambda>st h. case fib_child (h_fibers h fiber) of
                 Some child \<Rightarrow> marshal H n (COne (JFiber child) (flags + 1)) st h
               | None \<Rightarrow> Done st h))"
    by (rule reached_mbind [OF scb marshal_reached [OF scb call_ok_Frames] k'])
  then show ?thesis
    unfolding marshal_one_fiber_step_def Let_def st5 using sc na by simp
qed

lemma final_buf_reached:
  assumes "reached (\<lambda>st h st' h'. \<exists>bs. buf st' = buf st @ bs) st h r"
  shows "\<exists>bs. final_buf r = buf st @ bs"
  using assms by (simp add: reached_def final_buf_def)

lemma fiber_step_no_frames:
  assumes "\<not> MARSH_STACKCHECK H flags" "\<not> status_alive H (fib_flags (h_fibers h fiber))"
    "\<not> 0 <s fib_frame (h_fibers h fiber)" "fib_child (h_fibers h fiber) = None"
  shows "marshal_one_fiber_step H (marshal H (Suc n)) st h fiber flags
       = Done (st\<lparr>buf := buf st @ fiber_header (h_fibers h fiber)\<rparr>) h"
proof -
  let ?f = "h_fibers h fiber"
  have st5: "pushint (pushint (pushint (pushint (pushint st
              (fib_flags ?f OR flag_if (fib_child ?f \<noteq> None) JANET_FIBER_FLAG_HASCHILD))
              (fib_frame ?f)) (fib_stackstart ?f)) (fib_stacktop ?f)) (fib_maxstack ?f)
            = st\<lparr>buf := buf st @ fiber_header ?f\<rparr>"
    by (simp add: pushint_def fiber_header_def)
  show ?thesis
    unfolding marshal_one_fiber_step_def Let_def st5
    using assms by (simp add: marshal_frames_step_def mbind_def)
qed

subsection \<open>A panic among the elements of a list\<close>

lemma marshal_many_append:
  "marshal_many rec st h (xs @ ys) flags
     = mbind (marshal_many rec st h xs flags) (\<lambda>st h. marshal_many rec st h ys flags)"
proof (induction xs arbitrary: st h)
  case Nil show ?case by (simp add: mbind_def)
next
  case (Cons x xs)
  show ?case
    by (cases "rec (COne x flags) st h") (simp_all add: mbind_def Cons.IH)
qed

lemma marshal_many_panics:
  assumes "marshal_many rec st h xs flags = Done st2 h2"
    and "rec (COne y flags) st2 h2 = Panic e st3 h3"
  shows "marshal_many rec st h (xs @ y # ys) flags = Panic e st3 h3"
  using assms by (simp add: marshal_many_append mbind_def)

lemma many_buf:
  assumes "marshal_many (marshal H n) st h xs flags = Done st2 h2"
  shows "\<exists>bs. buf st2 = buf st @ bs"
proof -
  note scb = step_closed_buf [of H]
  have "reached (\<lambda>st h st' h'. \<exists>bs. buf st' = buf st @ bs) st h (marshal_many (marshal H n) st h xs flags)"
    by (rule reached_many_pre [OF scb marshal_rec_ok [OF scb] sc_refl [OF scb]])
  then show ?thesis using assms by (simp add: reached_def)
qed

lemma one_buf:
  assumes "marshal_one H n st h x flags = Panic e st3 h3"
  shows "\<exists>bs. buf st3 = buf st @ bs"
  using marshal_one_reached [OF step_closed_buf, where H = H and st = st and h = h and n = n
      and x = x and flags = flags] assms
  by (simp add: reached_def)

subsection \<open>The registry record\<close>

lemmas LB_defs = LB_REAL_def LB_NIL_def LB_FALSE_def LB_TRUE_def LB_FIBER_def LB_INTEGER_def
  LB_STRING_def LB_SYMBOL_def LB_KEYWORD_def LB_ARRAY_def LB_TUPLE_def LB_TABLE_def
  LB_TABLE_PROTO_def LB_STRUCT_def LB_BUFFER_def LB_FUNCTION_def LB_REGISTRY_def
  LB_ABSTRACT_def LB_REFERENCE_def LB_FUNCENV_REF_def LB_FUNCDEF_REF_def

lemma sint_len32:
  assumes "length xs < 2 ^ 31"
  shows "sint (len32 xs :: i32) = int (length xs)"
proof -
  have "sint (word_of_int (int (length xs)) :: i32) = signed_take_bit 31 (int (length xs))"
    using sint_sbintrunc' [of "int (length xs)", where 'a = 32] by simp
  also have "\<dots> = int (length xs)"
    using assms by (intro signed_take_bit_int_eq_self) simp_all
  finally show ?thesis unfolding len32_def by simp
qed

lemma marshal_one_registry:
  assumes "\<not> MARSH_STACKCHECK H flags" "\<not> is_simple v" "int_in_range v = None"
    "seen st v = None" "registry_symbol st v = Some name" "length name < 2 ^ 31"
  shows "marshal_one H (Suc n) st h v flags =
     Done (st\<lparr>buf := buf st @ [LB_REGISTRY] @ int_bytes (len32 name) @ name,
              seen := (seen st)(v \<mapsto> nextid st), nextid := nextid st + 1\<rparr>) h"
  using assms
  by (simp add: marshal_one_Suc marshal_one_step_def pushbytes_def pushint_def pushbyte_def
      MARK_SEEN_def sint_len32)

lemma unmarshal_one_registry:
  assumes s: "src st = pre @ [LB_REGISTRY] @ int_bytes (len32 name) @ name @ post"
    and sc: "\<not> MARSH_STACKCHECK H flags" and len: "length name < 2 ^ 31"
  shows "unmarshal_one H (Suc n) st h (Some (int (length pre))) flags =
     UDone (Some (int (length pre) + 1 + int (length (int_bytes (len32 name))) + int (length name)))
       (OutJanet (registry_get st name)) (janet_array_push st (registry_get st name)) h"
proof -
  let ?p = "int (length pre)"
  let ?k = "int (length (int_bytes (len32 name)))"
  have lead: "src st ! length pre = 216" by (simp add: s nth_append LB_defs)
  have eos: "\<not> MARSH_EOS (src st) ?p" by (simp add: MARSH_EOS_def s)
  have s': "src st = (pre @ [LB_REGISTRY]) @ int_bytes (len32 name) @ (name @ post)"
    by (simp add: s)
  have rd: "readint (src st) (Some (?p + 1)) = Inr (len32 name, Some (?p + 1 + ?k))"
    using readint_at [OF s'] by (simp add: add.commute add.left_commute)
  have eos2: "\<not> MARSH_EOS (src st) (?p + 1 + ?k - 1 + sint (len32 name :: i32))"
    by (simp add: MARSH_EOS_def s sint_len32 [OF len])
  have bytes: "bytes_from (src st) (?p + 1 + ?k) (nat (sint (len32 name :: i32))) = name"
    by (simp add: bytes_from_def s sint_len32 [OF len] nat_add_distrib)
  have nn: "\<not> (len32 name :: i32) <s 0"
    by (simp add: word_sless_alt sint_len32 [OF len])
  have kind: "unmarshal_bytes_kind st h LB_REGISTRY (len32 name) (?p + 1 + ?k) =
     UDone (Some (?p + 1 + ?k + int (length name)))
       (OutJanet (registry_get st name)) (janet_array_push st (registry_get st name)) h"
    unfolding unmarshal_bytes_kind_def Let_def bytes
    using eos2 nn
    by (simp add: registry_get_def sint_len32 [OF len] LB_defs split: option.splits)
  show ?thesis
    unfolding unmarshal_one_def unmarshal.simps ucall.case unmarshal_one_step_def Let_def
    using sc eos
    by (simp add: lead uread_def rd kind [unfolded LB_defs] LB_defs
        del: unmarshal.simps)
qed


subsection \<open>One unit of fuel unfolds one call of the reader\<close>

lemma unmarshal_one_Suc:
  "unmarshal_one H (Suc n) st h data flags = unmarshal_one_step H (unmarshal H n) st h data flags"
  by (simp add: unmarshal_one_def)

lemma unmarshal_one_abstract_Suc:
  "unmarshal_one_abstract H (Suc n) st h data flags
     = unmarshal_one_abstract_step H (unmarshal H n) st h data flags"
  by (simp add: unmarshal_one_abstract_def)

lemma unmarshal_one_keyword:
  assumes s: "src st = pre @ [LB_KEYWORD] @ int_bytes (len32 name) @ name @ post"
    and sc: "\<not> MARSH_STACKCHECK H flags" and len: "length name < 2 ^ 31"
  shows "unmarshal_one H (Suc n) st h (Some (int (length pre))) flags =
     UDone (Some (int (length pre) + 1 + int (length (int_bytes (len32 name))) + int (length name)))
       (OutJanet (JKeyword name)) (janet_array_push st (JKeyword name)) h"
proof -
  let ?p = "int (length pre)"
  let ?k = "int (length (int_bytes (len32 name)))"
  have lead: "src st ! length pre = 208" by (simp add: s nth_append LB_defs)
  have eos: "\<not> MARSH_EOS (src st) ?p" by (simp add: MARSH_EOS_def s)
  have s': "src st = (pre @ [LB_KEYWORD]) @ int_bytes (len32 name) @ (name @ post)"
    by (simp add: s)
  have rd: "readint (src st) (Some (?p + 1)) = Inr (len32 name, Some (?p + 1 + ?k))"
    using readint_at [OF s'] by (simp add: add.commute add.left_commute)
  have eos2: "\<not> MARSH_EOS (src st) (?p + 1 + ?k - 1 + sint (len32 name :: i32))"
    by (simp add: MARSH_EOS_def s sint_len32 [OF len])
  have bytes: "bytes_from (src st) (?p + 1 + ?k) (nat (sint (len32 name :: i32))) = name"
    by (simp add: bytes_from_def s sint_len32 [OF len] nat_add_distrib)
  have nn: "\<not> (len32 name :: i32) <s 0"
    by (simp add: word_sless_alt sint_len32 [OF len])
  have kind: "unmarshal_bytes_kind st h LB_KEYWORD (len32 name) (?p + 1 + ?k) =
     UDone (Some (?p + 1 + ?k + int (length name)))
       (OutJanet (JKeyword name)) (janet_array_push st (JKeyword name)) h"
    unfolding unmarshal_bytes_kind_def Let_def bytes
    using eos2 nn
    by (simp add: sint_len32 [OF len] LB_defs)
  show ?thesis
    unfolding unmarshal_one_def unmarshal.simps ucall.case unmarshal_one_step_def Let_def
    using sc eos
    by (simp add: lead uread_def rd kind [unfolded LB_defs] LB_defs del: unmarshal.simps)
qed


subsection \<open>More relations that every run of the writer respects\<close>

lemma step_closed_seen:
  "step_closed H (\<lambda>st h st' h'. \<forall>k i. seen st k = Some i \<longrightarrow> seen st' k = Some i)"
  unfolding step_closed_def MARK_SEEN_def by auto

lemma step_closed_envs:
  "step_closed H (\<lambda>st h st' h'. \<exists>es. seen_envs st' = seen_envs st @ es)"
  unfolding step_closed_def MARK_SEEN_def by auto







subsection \<open>The flags that the writer sets\<close>






subsection \<open>An entry of the table of seen values stays\<close>

lemma seen_stays:
  assumes "reached (\<lambda>st h st' h'. \<forall>k i. seen st k = Some i \<longrightarrow> seen st' k = Some i) st h r"
    and "seen st k = Some i"
  shows "seen (final_state r) k = Some i"
  using assms by (simp add: reached_def)

lemma seen_marked: "seen (MARK_SEEN st x) x = Some (nextid st)"
  by (simp add: MARK_SEEN_def)

lemma seen_pushint [simp]: "seen (pushint st v) = seen st" by (simp add: pushint_def)
lemma seen_pushbyte [simp]: "seen (pushbyte st v) = seen st" by (simp add: pushbyte_def)
lemma seen_pushbytes [simp]: "seen (pushbytes st v l) = seen st" by (simp add: pushbytes_def)

lemma marked_first_array:
  "seen (final_state (marshal_many (marshal H n)
      (pushint (pushbyte (MARK_SEEN st x) LB_ARRAY) c) h xs flags)) x = Some (nextid st)"
proof -
  note scs = step_closed_seen [of H]
  show ?thesis
    by (rule seen_stays [OF reached_many_pre [OF scs marshal_rec_ok [OF scs] sc_refl [OF scs]]])
       (simp add: seen_marked)
qed

lemma marked_first_table:
  "seen (final_state (mbind
      (case p of Some q \<Rightarrow> marshal H n (COne (JTable q) flags) (pushint (pushbyte (MARK_SEEN st x) b) c) h
       | None \<Rightarrow> Done (pushint (pushbyte (MARK_SEEN st x) b) c) h)
      (\<lambda>st h. marshal_many (marshal H n) st h (slot_values (t_data (h_tables h ta))) flags))) x
   = Some (nextid st)"
proof -
  let ?R = "\<lambda>st h st' h'. \<forall>k i. seen st k = Some i \<longrightarrow> seen st' k = Some i"
  let ?st1 = "pushint (pushbyte (MARK_SEEN st x) b) c"
  note scs = step_closed_seen [of H]
  note rec = marshal_rec_ok [OF scs, of n]
  have 1: "reached ?R ?st1 h
      (case p of Some q \<Rightarrow> marshal H n (COne (JTable q) flags) ?st1 h | None \<Rightarrow> Done ?st1 h)"
    by (cases p) (simp_all add: reached_Done marshal_reached [OF scs call_ok_One])
  have "reached ?R ?st1 h (mbind
      (case p of Some q \<Rightarrow> marshal H n (COne (JTable q) flags) ?st1 h | None \<Rightarrow> Done ?st1 h)
      (\<lambda>st h. marshal_many (marshal H n) st h (slot_values (t_data (h_tables h ta))) flags))"
    by (rule reached_mbind [OF scs 1], rule reached_many_pre [OF scs rec])
  then show ?thesis by (rule seen_stays) (simp add: seen_marked)
qed

lemma marked_first_call:
  assumes "call_ok c (pushbyte (MARK_SEEN st x) b)"
  shows "seen (final_state (marshal H n c (pushbyte (MARK_SEEN st x) b) h)) x = Some (nextid st)"
  by (rule seen_stays [OF marshal_reached [OF step_closed_seen assms]]) (simp add: seen_marked)

lemma marked_first_abstract:
  "seen (final_state (mbind (marshal H n (COne k flags) (pushbyte (MARK_SEEN st x) b) h)
      (\<lambda>st h. marshal_hook (marshal H n) (pushint st (ab_size (h_abstracts h a))) h calls flags'))) x
   = Some (nextid st)"
proof -
  let ?R = "\<lambda>st h st' h'. \<forall>k i. seen st k = Some i \<longrightarrow> seen st' k = Some i"
  let ?st1 = "pushbyte (MARK_SEEN st x) b"
  note scs = step_closed_seen [of H]
  note rec = marshal_rec_ok [OF scs, of n]
  have "reached ?R ?st1 h (mbind (marshal H n (COne k flags) ?st1 h)
      (\<lambda>st h. marshal_hook (marshal H n) (pushint st (ab_size (h_abstracts h a))) h calls flags'))"
    by (rule reached_mbind [OF scs marshal_reached [OF scs call_ok_One]],
        rule reached_hook_pre [OF scs rec], rule R_pushint [OF scs])
  then show ?thesis by (rule seen_stays) (simp add: seen_marked)
qed

lemma marked_before_envs:
  "seen (final_state (marshal_envs (marshal H n) (MARK_SEEN st x) h envs flags)) x = Some (nextid st)"
proof -
  note scs = step_closed_seen [of H]
  show ?thesis
    by (rule seen_stays [OF reached_envs_pre [OF scs marshal_rec_ok [OF scs] sc_refl [OF scs]]])
       (simp add: seen_marked)
qed

lemma mbind_done_or_not:
  "mbind r k = (if is_done r then k (final_state r) (final_heap r) else r)"
  by (cases r) (simp_all add: mbind_def is_done_def)

subsection \<open>An environment keeps its index\<close>

lemma v_index_append:
  "v_index (xs @ ys) a i =
     (case v_index xs a i of Some k \<Rightarrow> Some k | None \<Rightarrow> v_index ys a (i + length xs))"
  by (induction xs a i rule: v_index.induct) (simp_all split: option.splits)

lemma env_index:
  assumes "v_index es env 0 = None"
  shows "v_index ((es @ [env]) @ fs) env 0 = Some (length es)"
  using assms by (simp add: v_index_append)

lemma env_step_index:
  assumes sc: "\<not> MARSH_STACKCHECK H flags" and un: "v_index (seen_envs st) env 0 = None"
  shows "v_index (seen_envs (final_state (marshal_one_env_step H (marshal H n) st h env flags))) env 0
       = Some (length (seen_envs st))"
proof -
  let ?R = "\<lambda>st h st' h'. \<exists>es. seen_envs st' = seen_envs st @ es"
  let ?st1 = "st\<lparr>seen_envs := seen_envs st @ [env]\<rparr>"
  let ?r = "marshal_one_env_step H (marshal H n) st h env flags"
  note sce = step_closed_envs [of H]
  note rec = marshal_rec_ok [OF sce, of n]
  note rl = R_pushint [OF sce] R_pushbyte [OF sce] sc_refl [OF sce]
    reached_Done reached_Panic reached_rec_pre [OF sce rec] reached_many_pre [OF sce rec]
    reached_case_option reached_if call_ok_intros
  have "reached ?R ?st1 h ?r"
    unfolding marshal_one_env_step_def Let_def
    apply (simp only: sc un if_False option.case)
    apply (intro rl; assumption?)
    done
  then obtain es where "seen_envs (final_state ?r) = (seen_envs st @ [env]) @ es"
    by (auto simp add: reached_def)
  then show ?thesis using env_index [OF un] by simp
qed



subsection \<open>More fuel continues the same run\<close>

lemma extends_refl: "extends r r"
  by (cases r) (simp_all add: extends_def final_buf_def)

lemma extends_trans:
  assumes "extends r r'" "extends r' r''"
  shows "extends r r''"
proof (cases r)
  case (Timeout st h)
  with assms(1) obtain bs where b: "final_buf r' = buf st @ bs" by (auto simp add: extends_def)
  show ?thesis
  proof (cases r')
    case (Timeout st' h')
    with assms(2) obtain cs where "final_buf r'' = buf st' @ cs" by (auto simp add: extends_def)
    with b Timeout \<open>r = Timeout st h\<close> show ?thesis by (simp add: extends_def final_buf_def)
  next
    case (Done st' h')
    with assms(2) have "r'' = r'" by (simp add: extends_def)
    with b \<open>r = Timeout st h\<close> show ?thesis by (simp add: extends_def)
  next
    case (Panic e st' h')
    with assms(2) have "r'' = r'" by (simp add: extends_def)
    with b \<open>r = Timeout st h\<close> show ?thesis by (simp add: extends_def)
  qed
next
  case (Done st h)
  with assms show ?thesis by (simp add: extends_def)
next
  case (Panic e st h)
  with assms show ?thesis by (simp add: extends_def)
qed

lemma extends_mbind:
  assumes r: "extends r r'" and k: "\<And>st h. extends (k st h) (k' st h)"
    and b: "\<And>st h. reached Rbuf st h (k' st h)"
  shows "extends (mbind r k) (mbind r' k')"
proof (cases r)
  case (Timeout st h)
  with r obtain bs where bs: "final_buf r' = buf st @ bs" by (auto simp add: extends_def)
  have "\<exists>cs. final_buf (mbind r' k') = final_buf r' @ cs"
  proof (cases r')
    case (Done st' h')
    then show ?thesis using b [of st' h'] by (simp add: mbind_def reached_def final_buf_def)
  qed (simp_all add: mbind_def)
  with bs Timeout show ?thesis by (auto simp add: extends_def mbind_def)
next
  case (Done st h)
  with r have "r' = Done st h" by (simp add: extends_def)
  with Done k [of st h] show ?thesis by (simp add: mbind_def)
next
  case (Panic e st h)
  with r have "r' = Panic e st h" by (simp add: extends_def)
  with Panic show ?thesis by (simp add: mbind_def extends_def)
qed

lemma extends_if:
  "(c \<Longrightarrow> extends a a') \<Longrightarrow> (\<not> c \<Longrightarrow> extends b b') \<Longrightarrow>
   extends (if c then a else b) (if c then a' else b')"
  by simp

lemma extends_case_option:
  "(x = None \<Longrightarrow> extends a a') \<Longrightarrow> (\<And>y. x = Some y \<Longrightarrow> extends (b y) (b' y)) \<Longrightarrow>
   extends (case x of None \<Rightarrow> a | Some y \<Rightarrow> b y) (case x of None \<Rightarrow> a' | Some y \<Rightarrow> b' y)"
  by (cases x) simp_all

lemma extends_rec:
  "rec_extends rec rec' \<Longrightarrow> call_ok c st \<Longrightarrow> extends (rec c st h) (rec' c st h)"
  by (simp add: rec_extends_def)

lemma Rbuf_mark: "Rbuf st h st1 h1 \<Longrightarrow> Rbuf st h (MARK_SEEN st1 x) h1"
  by (simp add: MARK_SEEN_def)

lemma Rbuf_refl: "Rbuf st h st h" by simp

lemma extends_many:
  assumes e: "rec_extends rec rec'" and b: "rec_ok Rbuf rec'"
  shows "extends (marshal_many rec st h xs flags) (marshal_many rec' st h xs flags)"
proof (induction xs arbitrary: st h)
  case Nil show ?case by (simp add: extends_refl)
next
  case (Cons x xs)
  show ?case
    by (simp, rule extends_mbind [OF extends_rec [OF e call_ok_One] Cons.IH],
        rule reached_many_pre [OF step_closed_buf b Rbuf_refl])
qed

lemma extends_envs:
  assumes e: "rec_extends rec rec'" and b: "rec_ok Rbuf rec'"
  shows "extends (marshal_envs rec st h xs flags) (marshal_envs rec' st h xs flags)"
proof (induction xs arbitrary: st h)
  case Nil show ?case by (simp add: extends_refl)
next
  case (Cons x xs)
  show ?case
    by (simp, rule extends_mbind [OF extends_rec [OF e call_ok_Env] Cons.IH],
        rule reached_envs_pre [OF step_closed_buf b Rbuf_refl])
qed

lemma extends_defs:
  assumes e: "rec_extends rec rec'" and b: "rec_ok Rbuf rec'"
  shows "extends (marshal_defs rec st h xs flags) (marshal_defs rec' st h xs flags)"
proof (induction xs arbitrary: st h)
  case Nil show ?case by (simp add: extends_refl)
next
  case (Cons x xs)
  show ?case
    by (simp, rule extends_mbind [OF extends_rec [OF e call_ok_Def] Cons.IH],
        rule reached_defs_pre [OF step_closed_buf b Rbuf_refl])
qed

lemma extends_hook:
  assumes e: "rec_extends rec rec'" and b: "rec_ok Rbuf rec'"
  shows "extends (marshal_hook rec st h xs flags) (marshal_hook rec' st h xs flags)"
proof (induction xs arbitrary: st h)
  case Nil show ?case by (simp add: extends_refl)
next
  case (Cons x xs)
  have 1: "extends
      (case x of MInt v \<Rightarrow> Done (pushint st v) h | MByte b \<Rightarrow> Done (pushbyte st b) h
       | MBytes bytes len \<Rightarrow> Done (pushbytes st bytes len) h
       | MJanet y \<Rightarrow> rec (COne y (flags + 1)) st h)
      (case x of MInt v \<Rightarrow> Done (pushint st v) h | MByte b \<Rightarrow> Done (pushbyte st b) h
       | MBytes bytes len \<Rightarrow> Done (pushbytes st bytes len) h
       | MJanet y \<Rightarrow> rec' (COne y (flags + 1)) st h)"
    by (cases x) (simp_all add: extends_refl extends_rec [OF e call_ok_One])
  show ?case
    by (simp, rule extends_mbind [OF 1 Cons.IH],
        rule reached_hook_pre [OF step_closed_buf b Rbuf_refl])
qed


lemma reached_buf_mark:
  "reached Rbuf st h (Done (MARK_SEEN st x) h)"
  by (simp add: reached_def MARK_SEEN_def)

lemmas buf_rules =
  R_pushint [OF step_closed_buf] R_pushbyte [OF step_closed_buf] R_pushbytes [OF step_closed_buf]
  R_envs [OF step_closed_buf] R_def [OF step_closed_buf] R_def_header [OF step_closed_buf]
  R_def_code [OF step_closed_buf] R_sourcemap [OF step_closed_buf] Rbuf_mark Rbuf_refl
  reached_Done reached_Panic reached_mbind [OF step_closed_buf]
  reached_case_option reached_case_number reached_if call_ok_intros

lemma extends_reference_type:
  assumes e: "rec_extends rec rec'" and b: "rec_ok Rbuf rec'" and unseen: "seen st x = None"
  shows "extends (marshal_reference_type H rec st h x flags) (marshal_reference_type H rec' st h x flags)"
proof -
  note scb = step_closed_buf [of H]
  note rl = extends_rec [OF e] extends_many [OF e b] extends_envs [OF e b]
    extends_mbind extends_if extends_case_option extends_refl call_ok_Abstract
    reached_rec_pre [OF scb b] reached_many_pre [OF scb b] reached_envs_pre [OF scb b]
    buf_rules
  show ?thesis
    unfolding marshal_reference_type_def Let_def
    by (insert unseen, (cases x; simp only: janet.case; (intro rl; assumption?)))
qed

lemma extends_one_step:
  assumes e: "rec_extends rec rec'" and b: "rec_ok Rbuf rec'"
  shows "extends (marshal_one_step H rec st h x flags) (marshal_one_step H rec' st h x flags)"
proof -
  note rl = extends_reference_type [OF e b] extends_if extends_case_option extends_refl
  show ?thesis
    unfolding marshal_one_step_def
    by (intro rl; assumption?)
qed

lemma extends_env_step:
  assumes e: "rec_extends rec rec'" and b: "rec_ok Rbuf rec'"
  shows "extends (marshal_one_env_step H rec st h env flags) (marshal_one_env_step H rec' st h env flags)"
proof -
  note scb = step_closed_buf [of H]
  note rl = extends_rec [OF e] extends_many [OF e b]
    extends_mbind extends_if extends_case_option extends_refl
    reached_rec_pre [OF scb b] reached_many_pre [OF scb b] buf_rules
  show ?thesis
    unfolding marshal_one_env_step_def Let_def
    by (intro rl; assumption?)
qed

lemma extends_def_step:
  assumes e: "rec_extends rec rec'" and b: "rec_ok Rbuf rec'"
  shows "extends (marshal_one_def_step H rec st h d flags) (marshal_one_def_step H rec' st h d flags)"
proof -
  note scb = step_closed_buf [of H]
  note rl = extends_rec [OF e] extends_many [OF e b] extends_defs [OF e b]
    extends_mbind extends_if extends_case_option extends_refl
    reached_rec_pre [OF scb b] reached_many_pre [OF scb b] reached_defs_pre [OF scb b] buf_rules
  show ?thesis
    unfolding marshal_one_def_step_def Let_def
    by (intro rl; assumption?)
qed

lemma extends_fiber_step:
  assumes e: "rec_extends rec rec'" and b: "rec_ok Rbuf rec'"
  shows "extends (marshal_one_fiber_step H rec st h f flags) (marshal_one_fiber_step H rec' st h f flags)"
proof -
  note scb = step_closed_buf [of H]
  note rl = extends_rec [OF e]
    extends_mbind extends_if extends_case_option extends_refl
    reached_rec_pre [OF scb b] buf_rules
  show ?thesis
    unfolding marshal_one_fiber_step_def Let_def
    by (intro rl; assumption?)
qed

lemma extends_frames_step:
  assumes e: "rec_extends rec rec'" and b: "rec_ok Rbuf rec'"
  shows "extends (marshal_frames_step H rec st h f i j flags) (marshal_frames_step H rec' st h f i j flags)"
proof -
  note scb = step_closed_buf [of H]
  note rl = extends_rec [OF e] extends_many [OF e b]
    extends_mbind extends_if extends_case_option extends_refl
    reached_rec_pre [OF scb b] reached_many_pre [OF scb b] buf_rules
  show ?thesis
    unfolding marshal_frames_step_def Let_def
    by (intro rl; assumption?)
qed

lemma extends_abstract_step:
  assumes e: "rec_extends rec rec'" and b: "rec_ok Rbuf rec'"
  shows "extends (marshal_one_abstract_step H rec st h x flags) (marshal_one_abstract_step H rec' st h x flags)"
proof -
  note scb = step_closed_buf [of H]
  note rl = extends_rec [OF e] extends_hook [OF e b]
    extends_mbind extends_if extends_case_option extends_refl
    reached_rec_pre [OF scb b] reached_hook_pre [OF scb b] buf_rules
  show ?thesis
    unfolding marshal_one_abstract_step_def
    by (cases x; simp only: janet.case; (intro rl; assumption?))
qed

lemma marshal_Suc_apply:
  "marshal H (Suc n) c st h =
     (case c of
       COne x flags \<Rightarrow> marshal_one_step H (marshal H n) st h x flags
     | CEnv env flags \<Rightarrow> marshal_one_env_step H (marshal H n) st h env flags
     | CDef d flags \<Rightarrow> marshal_one_def_step H (marshal H n) st h d flags
     | CFiber fiber flags \<Rightarrow> marshal_one_fiber_step H (marshal H n) st h fiber flags
     | CFrames fiber i j flags \<Rightarrow> marshal_frames_step H (marshal H n) st h fiber i j flags
     | CAbstract x flags \<Rightarrow> marshal_one_abstract_step H (marshal H n) st h x flags)"
  by simp

lemma marshal_extends_Suc:
  "call_ok c st \<Longrightarrow> extends (marshal H m c st h) (marshal H (Suc m) c st h)"
proof (induction m arbitrary: c st h)
  case 0
  have "reached Rbuf st h (marshal H (Suc 0) c st h)"
    by (rule marshal_reached [OF step_closed_buf 0])
  then show ?case by (simp add: extends_def reached_def final_buf_def del: marshal.simps(2))
next
  case (Suc m)
  have e: "rec_extends (marshal H m) (marshal H (Suc m))"
    using Suc.IH by (simp add: rec_extends_def del: marshal.simps)
  have b: "rec_ok Rbuf (marshal H (Suc m))" by (rule marshal_rec_ok [OF step_closed_buf])
  show ?case
    using Suc.prems
    by (cases c)
       (simp_all add: marshal_Suc_apply extends_one_step [OF e b] extends_env_step [OF e b]
          extends_def_step [OF e b] extends_fiber_step [OF e b] extends_frames_step [OF e b]
          extends_abstract_step [OF e b] del: marshal.simps)
qed

lemma marshal_extends:
  assumes "call_ok c st"
  shows "extends (marshal H m c st h) (marshal H (m + k) c st h)"
proof (induction k)
  case 0 show ?case by (simp add: extends_refl)
next
  case (Suc k)
  show ?case
    using extends_trans [OF Suc marshal_extends_Suc [OF assms, of H "m + k" h]] by simp
qed

section \<open>The integer codec round-trips\<close>

text \<open>
  Claim C2. For every signed 32-bit integer \<open>x\<close>, \<^verbatim>\<open>pushint\<close> appends to the buffer one byte
  (\<open>x\<close> itself) when \<open>0 \<le> x < 128\<close>, otherwise two bytes of the 14-bit form (\<open>0x80\<close> with
  bits 8 to 13 of \<open>x\<close>, then bits 0 to 7) when \<open>-8192 \<le> x \<le> 8191\<close>, and otherwise the
  byte 205 followed by the four bytes of \<open>x\<close>, most significant first; and \<^verbatim>\<open>readint\<close>,
  started on the buffer at the place where \<^verbatim>\<open>pushint\<close> wrote, returns \<open>x\<close> and leaves the
  cursor at the end of the bytes written. This holds for every \<open>x\<close>, so in particular for
  -8193, -8192, -1, 0, 127, 128, 8191, 8192, 2^31 - 1 and -2^31.
\<close>

theorem pushint_readint_roundtrip:
  "buf (pushint st x) = buf st @
     (if 0 \<le> sint x \<and> sint x < 128 then [ucast x]
      else if - 8192 \<le> sint x \<and> sint x \<le> 8191
        then [ucast (take_bit 6 (drop_bit 8 x)) OR 0x80, ucast x]
      else [205, ucast (drop_bit 24 x), ucast (drop_bit 16 x), ucast (drop_bit 8 x), ucast x])
   \<and> readint (buf (pushint st x)) (Some (int (length (buf st))))
       = Inr (x, Some (int (length (buf (pushint st x)))))"
proof
  have "int_bytes x =
     (if 0 \<le> sint x \<and> sint x < 128 then [ucast x]
      else if - 8192 \<le> sint x \<and> sint x \<le> 8191
        then [ucast (take_bit 6 (drop_bit 8 x)) OR 0x80, ucast x]
      else [205, ucast (drop_bit 24 x), ucast (drop_bit 16 x), ucast (drop_bit 8 x), ucast x])"
    unfolding int_bytes_def ucast_low_byte two_byte_form
    by (auto simp add: word_sle_eq word_sless_alt LB_INTEGER_def ucast_signed_drop)
  then show "buf (pushint st x) = buf st @
     (if 0 \<le> sint x \<and> sint x < 128 then [ucast x]
      else if - 8192 \<le> sint x \<and> sint x \<le> 8191
        then [ucast (take_bit 6 (drop_bit 8 x)) OR 0x80, ucast x]
      else [205, ucast (drop_bit 24 x), ucast (drop_bit 16 x), ucast (drop_bit 8 x), ucast x])"
    by (simp add: pushint_def)
  show "readint (buf (pushint st x)) (Some (int (length (buf st))))
       = Inr (x, Some (int (length (buf (pushint st x)))))"
    using readint_at [of "buf st @ int_bytes x" "buf st" x "[]"] by (simp add: pushint_def)
qed


section \<open>What the writer changes in the heap\<close>





section \<open>A failed encode keeps its partial output\<close>

text \<open>
  Claim C10. \<^verbatim>\<open>janet_marshal\<close> never takes bytes back.
  \<^item> Whatever way it ends, the buffer it leaves is the caller's buffer followed by the bytes
    appended so far.
  \<^item> The buffer only grows during a run: a run of the model with more fuel is the same run
    carried further, so the buffer it leaves (after a panic, too) starts with the buffer that
    the run with less fuel had reached when it was cut off; and a run that ended by itself,
    in success or in a panic, ends in the same result with any more fuel.
  \<^item> When it is called on an array and the elements before some element \<open>y\<close> have been written,
    leaving the state \<open>sta\<close>, and writing \<open>y\<close> then panics in the state \<open>stb\<close>, then
    \<^verbatim>\<open>janet_marshal\<close> ends in that panic with that very state: the buffer of \<open>stb\<close> is what the
    caller is left with, and it consists of the caller's buffer, the lead byte and the length
    of the array, the bytes written for the elements before \<open>y\<close>, and the bytes written for
    \<open>y\<close> up to the panic. Nothing is restored.
  \<^item> The same for a tuple, with the lead byte, the length and the flag of the tuple.
\<close>

theorem marshal_keeps_partial_output:
  "(\<exists>bs. final_buf (janet_marshal H n buffer h x r flags) = buffer @ bs) \<and>
   (m \<le> n \<longrightarrow>
      (\<exists>bs. final_buf (janet_marshal H n buffer h x r flags)
          = final_buf (janet_marshal H m buffer h x r flags) @ bs) \<and>
      ((\<forall>st' h'. janet_marshal H m buffer h x r flags \<noteq> Timeout st' h') \<longrightarrow>
         janet_marshal H n buffer h x r flags = janet_marshal H m buffer h x r flags)) \<and>
   (\<not> MARSH_STACKCHECK H flags \<and> registry_symbol (writer_init buffer r) (JArray a) = None \<and>
    first_n (a_count (h_arrays h a)) (a_data (h_arrays h a)) = xs @ y # ys \<and>
    marshal_many (marshal H n)
      (pushint (pushbyte (MARK_SEEN (writer_init buffer r) (JArray a)) LB_ARRAY)
         (a_count (h_arrays h a))) h xs (flags + 1) = Done sta ha \<and>
    marshal_one H n sta ha y (flags + 1) = Panic e stb hb
    \<longrightarrow> janet_marshal H (Suc n) buffer h (JArray a) r flags = Panic e stb hb \<and>
        (\<exists>bs1 bs2. buf sta = buffer @ [LB_ARRAY] @ int_bytes (a_count (h_arrays h a)) @ bs1 \<and>
                   buf stb = buf sta @ bs2)) \<and>
   (\<not> MARSH_STACKCHECK H flags \<and> registry_symbol (writer_init buffer r) (JTuple fl (xs @ y # ys)) = None \<and>
    marshal_many (marshal H n)
      (pushint (pushint (pushbyte (writer_init buffer r) LB_TUPLE) (len32 (xs @ y # ys))) fl)
      h xs (flags + 1) = Done sta ha \<and>
    marshal_one H n sta ha y (flags + 1) = Panic e stb hb
    \<longrightarrow> janet_marshal H (Suc n) buffer h (JTuple fl (xs @ y # ys)) r flags = Panic e stb hb \<and>
        (\<exists>bs1 bs2. buf sta = buffer @ [LB_TUPLE] @ int_bytes (len32 (xs @ y # ys)) @ int_bytes fl @ bs1 \<and>
                   buf stb = buf sta @ bs2))"
proof (intro conjI impI)
  assume mn: "m \<le> n"
  have e: "extends (janet_marshal H m buffer h x r flags) (janet_marshal H n buffer h x r flags)"
    using marshal_extends [OF call_ok_One, of H m x flags "writer_init buffer r" h "n - m"] mn
    by (simp add: janet_marshal_init marshal_one_def del: marshal.simps)
  then show "\<exists>bs. final_buf (janet_marshal H n buffer h x r flags)
          = final_buf (janet_marshal H m buffer h x r flags) @ bs"
    by (cases "janet_marshal H m buffer h x r flags") (auto simp add: extends_def final_buf_def)
  assume "\<forall>st' h'. janet_marshal H m buffer h x r flags \<noteq> Timeout st' h'"
  with e show "janet_marshal H n buffer h x r flags = janet_marshal H m buffer h x r flags"
    by (cases "janet_marshal H m buffer h x r flags") (auto simp add: extends_def)
next
  show "\<exists>bs. final_buf (janet_marshal H n buffer h x r flags) = buffer @ bs"
  proof -
    have "reached (\<lambda>st h st' h'. \<exists>bs. buf st' = buf st @ bs) (writer_init buffer r) h
            (marshal_one H n (writer_init buffer r) h x flags)"
      by (rule marshal_one_reached [OF step_closed_buf])
    from final_buf_reached [OF this] show ?thesis
      by (simp add: janet_marshal_init writer_init_def)
  qed
next
  let ?st0 = "writer_init buffer r"
  let ?st1 = "pushint (pushbyte (MARK_SEEN ?st0 (JArray a)) LB_ARRAY) (a_count (h_arrays h a))"
  assume a: "\<not> MARSH_STACKCHECK H flags \<and> registry_symbol ?st0 (JArray a) = None \<and>
    first_n (a_count (h_arrays h a)) (a_data (h_arrays h a)) = xs @ y # ys \<and>
    marshal_many (marshal H n) ?st1 h xs (flags + 1) = Done sta ha \<and>
    marshal_one H n sta ha y (flags + 1) = Panic e stb hb"
  have un: "seen ?st0 (JArray a) = None" by (simp add: writer_init_def)
  have "janet_marshal H (Suc n) buffer h (JArray a) r flags
      = marshal_many (marshal H n) ?st1 h (xs @ y # ys) (flags + 1)"
    using a un
    by (simp add: janet_marshal_init marshal_one_unseen is_simple_def int_in_range_def
        marshal_reference_type_def Let_def)
  also have "\<dots> = Panic e stb hb"
  proof -
    from a have 1: "marshal_many (marshal H n) ?st1 h xs (flags + 1) = Done sta ha" by simp
    from a have 2: "marshal H n (COne y (flags + 1)) sta ha = Panic e stb hb"
      by (simp add: marshal_one_def)
    show ?thesis by (rule marshal_many_panics [OF 1 2])
  qed
  finally show "janet_marshal H (Suc n) buffer h (JArray a) r flags = Panic e stb hb" .
  from a many_buf obtain bs1 where "buf sta = buf ?st1 @ bs1" by blast
  moreover from a one_buf obtain bs2 where "buf stb = buf sta @ bs2" by blast
  ultimately show "\<exists>bs1 bs2. buf sta = buffer @ [LB_ARRAY] @ int_bytes (a_count (h_arrays h a)) @ bs1 \<and>
                   buf stb = buf sta @ bs2"
    by (simp add: pushint_def pushbyte_def MARK_SEEN_def writer_init_def)
next
  let ?st0 = "writer_init buffer r"
  let ?x = "JTuple fl (xs @ y # ys)"
  let ?st1 = "pushint (pushint (pushbyte ?st0 LB_TUPLE) (len32 (xs @ y # ys))) fl"
  assume a: "\<not> MARSH_STACKCHECK H flags \<and> registry_symbol ?st0 ?x = None \<and>
    marshal_many (marshal H n) ?st1 h xs (flags + 1) = Done sta ha \<and>
    marshal_one H n sta ha y (flags + 1) = Panic e stb hb"
  have un: "seen ?st0 ?x = None" by (simp add: writer_init_def)
  have p: "marshal_many (marshal H n) ?st1 h (xs @ y # ys) (flags + 1) = Panic e stb hb"
  proof -
    from a have 1: "marshal_many (marshal H n) ?st1 h xs (flags + 1) = Done sta ha" by simp
    from a have 2: "marshal H n (COne y (flags + 1)) sta ha = Panic e stb hb"
      by (simp add: marshal_one_def)
    show ?thesis by (rule marshal_many_panics [OF 1 2])
  qed
  have "janet_marshal H (Suc n) buffer h ?x r flags
      = mbind (marshal_many (marshal H n) ?st1 h (xs @ y # ys) (flags + 1))
          (\<lambda>st h. Done (MARK_SEEN st ?x) h)"
    using a un
    by (simp add: janet_marshal_init marshal_one_unseen is_simple_def int_in_range_def
        marshal_reference_type_def)
  then show "janet_marshal H (Suc n) buffer h ?x r flags = Panic e stb hb"
    by (simp add: p mbind_def)
  from a many_buf obtain bs1 where "buf sta = buf ?st1 @ bs1" by blast
  moreover from a one_buf obtain bs2 where "buf stb = buf sta @ bs2" by blast
  ultimately show "\<exists>bs1 bs2. buf sta = buffer @ [LB_TUPLE] @ int_bytes (len32 (xs @ y # ys)) @ int_bytes fl @ bs1 \<and>
                   buf stb = buf sta @ bs2"
    by (simp add: pushint_def pushbyte_def writer_init_def)
qed


text \<open>
  An array that holds the number 5 and an alive fiber, encoded behind the byte 7, leaves
  \<open>7, 209, 2, 5, 204\<close> and the alive-fiber error, which extends the \<open>7, 209, 2\<close> that the run
  cut off after one unit of fuel had reached; a tuple that holds the number 5 and a C function
  leaves \<open>7, 210, 2, 0, 5\<close> and the error for a value that cannot be marshalled.
\<close>

theorem marshal_keeps_partial_output_witness:
  "janet_marshal host0 (Suc (Suc (Suc 0))) [7] heap_alive (JArray 1) None 0
     = Panic AliveFiber
         (pushbyte (MARK_SEEN (pushint (pushint (pushbyte (MARK_SEEN (writer_init [7] None) (JArray 1))
            LB_ARRAY) 2) 5) (JFiber 0)) LB_FIBER) heap_alive \<and>
   final_buf (janet_marshal host0 (Suc (Suc (Suc 0))) [7] heap_alive (JArray 1) None 0)
     = [7, 209, 2, 5, 204] \<and>
   final_buf (janet_marshal host0 (Suc 0) [7] heap_alive (JArray 1) None 0) = [7, 209, 2] \<and>
   (\<exists>bs. final_buf (janet_marshal host0 (Suc (Suc (Suc 0))) [7] heap_alive (JArray 1) None 0)
      = [7, 209, 2] @ bs) \<and>
   janet_marshal host0 (Suc (Suc (Suc (Suc 0)))) [7] heap_alive (JArray 1) None 0
     = janet_marshal host0 (Suc (Suc (Suc 0))) [7] heap_alive (JArray 1) None 0 \<and>
   janet_marshal host0 (Suc (Suc 0)) [7] heap0 (JTuple 0 ([JNumber (Integral 5)] @ JCFunction 0 # []))
      None 0
     = Panic (NoRegistryValue (JCFunction 0))
         (pushint (pushint (pushint (pushbyte (writer_init [7] None) LB_TUPLE) 2) 0) 5) heap0 \<and>
   final_buf (janet_marshal host0 (Suc (Suc 0)) [7] heap0
      (JTuple 0 ([JNumber (Integral 5)] @ JCFunction 0 # [])) None 0) = [7, 210, 2, 0, 5]"
proof -
  let ?i = "writer_init [7] None"
  let ?st1 = "pushint (pushbyte (MARK_SEEN ?i (JArray 1)) LB_ARRAY) (a_count (h_arrays heap_alive 1))"
  let ?st2 = "pushint ?st1 5"
  let ?st3 = "pushbyte (MARK_SEEN ?st2 (JFiber 0)) LB_FIBER"
  let ?t = "JTuple 0 ([JNumber (Integral 5)] @ JCFunction 0 # [])"
  let ?tt1 = "pushint (pushint (pushbyte ?i LB_TUPLE) (len32 ([JNumber (Integral 5)] @ JCFunction 0 # []))) 0"
  let ?tt2 = "pushint ?tt1 5"
  have c0: "\<not> MARSH_STACKCHECK host0 0" by code_simp
  have c1: "\<not> MARSH_STACKCHECK host0 (0 + 1)" by code_simp
  have c2: "\<not> MARSH_STACKCHECK host0 (0 + 1 + 1)" by code_simp
  have cnt: "a_count (h_arrays heap_alive 1) = 2" by code_simp
  have el: "first_n (a_count (h_arrays heap_alive 1)) (a_data (h_arrays heap_alive 1))
      = [JNumber (Integral 5)] @ JFiber 0 # []" by code_simp
  have al: "status_alive host0 (fib_flags (h_fibers heap_alive 0))" by code_simp
  have l2: "len32 ([JNumber (Integral 5)] @ JCFunction 0 # []) = (2 :: i32)" by code_simp
  have five: "marshal_many (marshal host0 (Suc (Suc 0))) st h [JNumber (Integral 5)] (0 + 1)
      = Done (pushint st 5) h" for st h
    using c1 by (simp add: marshal_one_step_def is_simple_def int_in_range_def mbind_def)
  have five': "marshal_many (marshal host0 (Suc 0)) st h [JNumber (Integral 5)] (0 + 1)
      = Done (pushint st 5) h" for st h
    using c1 by (simp add: marshal_one_step_def is_simple_def int_in_range_def mbind_def)
  have fib: "marshal_one host0 (Suc (Suc 0)) ?st2 heap_alive (JFiber 0) (0 + 1) = Panic AliveFiber ?st3 heap_alive"
  proof -
    have "marshal_one host0 (Suc (Suc 0)) ?st2 heap_alive (JFiber 0) (0 + 1)
        = marshal_one_fiber_step host0 (marshal host0 0) ?st3 heap_alive 0 (0 + 1 + 1)"
      using c1
      by (subst marshal_one_unseen)
         (simp_all add: is_simple_def int_in_range_def marshal_reference_type_def
            registry_symbol_def writer_init_def pushint_def pushbyte_def MARK_SEEN_def)
    then show ?thesis using fiber_step_alive [OF c2 al] by simp
  qed
  have cf: "marshal_one host0 (Suc 0) ?tt2 heap0 (JCFunction 0) (0 + 1)
      = Panic (NoRegistryValue (JCFunction 0)) ?tt2 heap0"
    using c1
    by (subst marshal_one_unseen)
       (simp_all add: is_simple_def int_in_range_def marshal_reference_type_def
          registry_symbol_def writer_init_def pushint_def pushbyte_def)
  have ra: "registry_symbol ?i (JArray 1) = None" by (simp add: registry_symbol_def writer_init_def)
  have rt: "registry_symbol ?i ?t = None" by (simp add: registry_symbol_def writer_init_def)
  have A: "janet_marshal host0 (Suc (Suc (Suc 0))) [7] heap_alive (JArray 1) None 0
      = Panic AliveFiber ?st3 heap_alive"
    using marshal_keeps_partial_output [where H = host0 and n = "Suc (Suc 0)" and buffer = "[7]"
        and h = heap_alive and r = None and flags = 0 and a = 1
        and xs = "[JNumber (Integral 5)]" and y = "JFiber 0" and ys = "[]"
        and sta = ?st2 and ha = heap_alive and e = AliveFiber and stb = ?st3 and hb = heap_alive]
      c0 ra el five fib
    by blast
  have B: "janet_marshal host0 (Suc (Suc 0)) [7] heap0 ?t None 0
      = Panic (NoRegistryValue (JCFunction 0)) ?tt2 heap0"
    using marshal_keeps_partial_output [where H = host0 and n = "Suc 0" and buffer = "[7]"
        and h = heap0 and r = None and flags = 0 and fl = 0
        and xs = "[JNumber (Integral 5)]" and y = "JCFunction 0" and ys = "[]"
        and sta = ?tt2 and ha = heap0 and e = "NoRegistryValue (JCFunction 0)" and stb = ?tt2
        and hb = heap0]
      c0 rt five' cf
    by blast
  have b1: "final_buf (janet_marshal host0 (Suc (Suc (Suc 0))) [7] heap_alive (JArray 1) None 0)
      = [7, 209, 2, 5, 204]"
    by code_simp
  have b2: "final_buf (janet_marshal host0 (Suc (Suc 0)) [7] heap0 ?t None 0) = [7, 210, 2, 0, 5]"
    by code_simp
  have b0: "final_buf (janet_marshal host0 (Suc 0) [7] heap_alive (JArray 1) None 0) = [7, 209, 2]"
    by code_simp
  have C: "\<exists>bs. final_buf (janet_marshal host0 (Suc (Suc (Suc 0))) [7] heap_alive (JArray 1) None 0)
      = [7, 209, 2] @ bs"
    using marshal_keeps_partial_output [where H = host0 and m = "Suc 0" and n = "Suc (Suc (Suc 0))"
        and buffer = "[7]" and h = heap_alive and x = "JArray 1" and r = None and flags = 0]
    unfolding b0 by simp
  have D: "janet_marshal host0 (Suc (Suc (Suc (Suc 0)))) [7] heap_alive (JArray 1) None 0
     = janet_marshal host0 (Suc (Suc (Suc 0))) [7] heap_alive (JArray 1) None 0"
    using marshal_keeps_partial_output [where H = host0 and m = "Suc (Suc (Suc 0))"
        and n = "Suc (Suc (Suc (Suc 0)))"
        and buffer = "[7]" and h = heap_alive and x = "JArray 1" and r = None and flags = 0]
    unfolding A by simp
  from A [unfolded cnt] b1 b0 C D B [unfolded l2] b2 show ?thesis by (intro conjI)
qed


section \<open>Alive fibers\<close>

text \<open>
  Claim C6, as stated (marshaling an alive fiber always fails with the alive-fiber error),
  does not hold: \<^verbatim>\<open>marshal_one\<close> consults the registry before it looks at the kind of the value.
  Fiber 0 of \<^const>\<open>heap_alive\<close> is alive, and with a registry that names it \<open>me\<close> the writer
  finishes without an error and emits the registry record \<open>216, 2, 109, 101\<close>.
\<close>

theorem registered_alive_fiber_marshals:
  "status_alive host0 (fib_flags (h_fibers heap_alive 0)) \<and>
   is_done (janet_marshal host0 1 [] heap_alive (JFiber 0)
              (Some [JFiber 0 \<mapsto> JSymbol [109, 101]]) 0) \<and>
   final_buf (janet_marshal host0 1 [] heap_alive (JFiber 0)
              (Some [JFiber 0 \<mapsto> JSymbol [109, 101]]) 0) = [216, 2, 109, 101]"
  by code_simp

text \<open>
  Claim C6, amended. Let the value be a fiber that is not yet in the table of seen values and
  has no symbol in the registry, and let the recursion guard not be exceeded at the depth of
  the value and of its body. If the status of the fiber is alive, \<^verbatim>\<open>marshal_one\<close> panics with
  the alive-fiber error, and the state at the panic is the state at the call with the fiber
  marked as seen and the lead byte \<^verbatim>\<open>LB_FIBER\<close> appended: not one byte of the header or of the
  frames of the fiber has been written. If the status is anything else, the writer goes past
  the check: however the run ends, the buffer it leaves starts with the buffer at the call,
  \<^verbatim>\<open>LB_FIBER\<close>, and the five integers of the fiber header; and for a fiber without frames and
  without a child the run succeeds, having written exactly these bytes.
\<close>

theorem alive_fiber_refused:
  assumes "\<not> MARSH_STACKCHECK H flags" "\<not> MARSH_STACKCHECK H (flags + 1)"
    "seen st (JFiber fiber) = None" "registry_symbol st (JFiber fiber) = None"
  shows "if status_alive H (fib_flags (h_fibers h fiber))
         then marshal_one H (Suc (Suc n)) st h (JFiber fiber) flags
              = Panic AliveFiber (pushbyte (MARK_SEEN st (JFiber fiber)) LB_FIBER) h
         else (\<exists>bs. final_buf (marshal_one H (Suc (Suc n)) st h (JFiber fiber) flags)
                 = buf st @ [LB_FIBER] @ fiber_header (h_fibers h fiber) @ bs) \<and>
              (\<not> 0 <s fib_frame (h_fibers h fiber) \<and> fib_child (h_fibers h fiber) = None \<longrightarrow>
               marshal_one H (Suc (Suc (Suc n))) st h (JFiber fiber) flags
                 = Done ((MARK_SEEN st (JFiber fiber))
                      \<lparr>buf := buf st @ [LB_FIBER] @ fiber_header (h_fibers h fiber)\<rparr>) h)"
proof -
  let ?st1 = "pushbyte (MARK_SEEN st (JFiber fiber)) LB_FIBER"
  have eq: "marshal_one H (Suc (Suc m)) st h (JFiber fiber) flags
      = marshal_one_fiber_step H (marshal H m) ?st1 h fiber (flags + 1)" for m
    using assms
    by (simp add: marshal_one_unseen is_simple_def int_in_range_def marshal_reference_type_def)
  have b1: "buf ?st1 = buf st @ [LB_FIBER]" by (simp add: pushbyte_def MARK_SEEN_def)
  show ?thesis
  proof (cases "status_alive H (fib_flags (h_fibers h fiber))")
    case True
    then show ?thesis using eq [of n] fiber_step_alive [OF assms(2) True] by simp
  next
    case False
    have 1: "\<exists>bs. final_buf (marshal_one H (Suc (Suc n)) st h (JFiber fiber) flags)
                 = buf st @ [LB_FIBER] @ fiber_header (h_fibers h fiber) @ bs"
      using final_buf_reached [OF fiber_step_not_alive [OF assms(2) False, of ?st1 n]]
      unfolding eq by (simp add: b1)
    have 2: "marshal_one H (Suc (Suc (Suc n))) st h (JFiber fiber) flags
                 = Done ((MARK_SEEN st (JFiber fiber))
                      \<lparr>buf := buf st @ [LB_FIBER] @ fiber_header (h_fibers h fiber)\<rparr>) h"
      if "\<not> 0 <s fib_frame (h_fibers h fiber)" "fib_child (h_fibers h fiber) = None"
      unfolding eq fiber_step_no_frames [OF assms(2) False that]
      by (simp add: pushbyte_def MARK_SEEN_def)
    from 1 2 False show ?thesis by simp
  qed
qed

theorem alive_fiber_refused_witness:
  "marshal_one host0 (Suc (Suc 0)) st0 heap_alive (JFiber 0) 0
     = Panic AliveFiber (pushbyte (MARK_SEEN st0 (JFiber 0)) LB_FIBER) heap_alive \<and>
   marshal_one host0 (Suc (Suc (Suc 0))) st0 heap0 (JFiber 0) 0
     = Done ((MARK_SEEN st0 (JFiber 0))\<lparr>buf := [204, 0, 0, 0, 0, 0]\<rparr>) heap0 \<and>
   final_buf (marshal_one host0 (Suc (Suc 0)) st0 heap_frame (JFiber 0) 0) = [204, 0, 4, 8, 8, 8]"
proof -
  have a: "status_alive host0 (fib_flags (h_fibers heap_alive 0))" by code_simp
  have a': "\<not> status_alive host0 (fib_flags (h_fibers heap0 0))" by code_simp
  have b: "\<not> MARSH_STACKCHECK host0 0" by code_simp
  have c: "\<not> MARSH_STACKCHECK host0 (0 + 1)" by code_simp
  have d: "seen st0 (JFiber 0) = None" by (simp add: st0_def)
  have e: "registry_symbol st0 (JFiber 0) = None" by (simp add: st0_def registry_symbol_def)
  have f: "\<not> 0 <s fib_frame (h_fibers heap0 0)" by code_simp
  have g: "fib_child (h_fibers heap0 0) = None" by code_simp
  have hd: "buf st0 @ [LB_FIBER] @ fiber_header (h_fibers heap0 0) = [204, 0, 0, 0, 0, 0]"
    by code_simp
  have t: "final_buf (marshal_one host0 (Suc (Suc 0)) st0 heap_frame (JFiber 0) 0) = [204, 0, 4, 8, 8, 8]"
    by code_simp
  show ?thesis
    using alive_fiber_refused [OF b c d e, where h = heap_alive and n = 0]
          alive_fiber_refused [OF b c d e, where h = heap0 and n = 0] a a' f g hd t
    by simp
qed


section \<open>Registry records\<close>

text \<open>
  Claim C8, as stated (every value that the registry maps to a symbol is written as a registry
  record), does not hold: nil, false, true and the numbers that are 32-bit integers are
  written before the registry is consulted. With a registry that maps the number 5 to the
  symbol \<open>me\<close>, \<^verbatim>\<open>janet_marshal\<close> of 5 emits the single byte 5.
\<close>

theorem registered_integer_is_inlined:
  "final_buf (janet_marshal host0 1 [] heap0 (JNumber (Integral 5))
      (Some [JNumber (Integral 5) \<mapsto> JSymbol [109, 101]]) 0) = [5]"
  by code_simp

text \<open>
  Claim C8, amended. Let \<open>name\<close> be shorter than \<open>2^31\<close> bytes. Writer: if the value is not
  nil, false, true or a number that is a 32-bit integer, is not yet in the table of seen values,
  the recursion guard is not exceeded, and the registry maps the value to the symbol \<open>name\<close>,
  then \<^verbatim>\<open>marshal_one\<close> succeeds, appends exactly \<^verbatim>\<open>LB_REGISTRY\<close>, the integer encoding of the
  length of \<open>name\<close> and the bytes of \<open>name\<close>, marks the value as seen with the next id, and
  changes nothing else. Reader: on input that holds such a record at the cursor,
  \<^verbatim>\<open>unmarshal_one\<close> returns the value that the registry maps the symbol \<open>name\<close> to, nil when
  there is no registry or the registry has no such key, appends that value to the lookup
  table, and leaves the cursor behind the record.
\<close>

theorem registry_record:
  assumes "length name < 2 ^ 31"
  shows "(\<not> MARSH_STACKCHECK H flags \<and> \<not> is_simple v \<and> int_in_range v = None \<and>
          seen st v = None \<and> registry_symbol st v = Some name \<longrightarrow>
          marshal_one H (Suc n) st h v flags =
            Done (st\<lparr>buf := buf st @ [LB_REGISTRY] @ int_bytes (len32 name) @ name,
                     seen := (seen st)(v \<mapsto> nextid st), nextid := nextid st + 1\<rparr>) h) \<and>
         (src ust = pre @ [LB_REGISTRY] @ int_bytes (len32 name) @ name @ post \<and>
          \<not> MARSH_STACKCHECK H uflags \<longrightarrow>
          unmarshal_one H (Suc m) ust uh (Some (int (length pre))) uflags =
            UDone (Some (int (length pre) + 1 + int (length (int_bytes (len32 name)))
                         + int (length name)))
              (OutJanet (registry_get ust name))
              (janet_array_push ust (registry_get ust name)) uh)"
  using assms marshal_one_registry unmarshal_one_registry by blast

theorem registry_record_witness:
  "marshal_one host0 (Suc 0) st_reg heap_alive (JFiber 0) 0 =
     Done (st_reg\<lparr>buf := buf st_reg @ [LB_REGISTRY] @ int_bytes (len32 [109, 101 :: byte]) @ [109, 101],
                 seen := (seen st_reg)(JFiber 0 \<mapsto> nextid st_reg),
                 nextid := nextid st_reg + 1\<rparr>) heap_alive \<and>
   unmarshal_one host0 (Suc 0) ust_me heap0 (Some 0) 0 =
     UDone (Some 4) (OutJanet JTrue) (janet_array_push ust_me JTrue) heap0"
proof -
  have b: "\<not> MARSH_STACKCHECK host0 0" by code_simp
  have l: "int_bytes (len32 [109, 101 :: byte]) = [2]" by code_simp
  have s: "src ust_me = [] @ [LB_REGISTRY] @ int_bytes (len32 [109, 101 :: byte]) @ [109, 101] @ []"
    by (simp add: l ust_me_def LB_REGISTRY_def)
  have g: "registry_get ust_me [109, 101] = JTrue"
    by (simp add: registry_get_def ust_me_def)
  have w: "\<not> is_simple (JFiber 0) \<and> int_in_range (JFiber 0) = None \<and>
      seen st_reg (JFiber 0) = None \<and> registry_symbol st_reg (JFiber 0) = Some [109, 101]"
    by (simp add: is_simple_def int_in_range_def st_reg_def st0_def registry_symbol_def)
  show ?thesis
    using registry_record [where name = "[109, 101]" and H = host0 and flags = 0 and uflags = 0
        and v = "JFiber 0" and st = st_reg and h = heap_alive and n = 0 and m = 0
        and ust = ust_me and uh = heap0 and pre = "[]" and post = "[]"]
      b w s g
    by (simp add: l)
qed


section \<open>When a value is entered into the table of seen values\<close>

text \<open>
  Claim C4, as stated, does not hold for functions: a function is entered into the table after
  its definition has been written and before its environments are. Function 0 of
  \<^const>\<open>heap_selfenv\<close> has one environment, whose only value is function 0 itself. The encoding
  ends with \<open>218, 0\<close>, a reference to entry 0 of the table: when the environment is written the
  function is in the table already, although its body is not finished.
\<close>

theorem function_marked_before_environments:
  "is_done (janet_marshal host0 4 [] heap_selfenv (JFunction 0) None 0) \<and>
   final_buf (janet_marshal host0 4 [] heap_selfenv (JFunction 0) None 0)
     = [215, 205, 0, 64, 0, 0, 0, 0, 0, 0, 1, 0, 0, 1, 218, 0]"
  by code_simp

text \<open>
  Claim C4, amended. Let the recursion guard not be exceeded, and let \<open>x\<close> be a value that is not
  in the table of seen values and has no symbol in the registry.
  \<^item> If \<open>x\<close> is an array, a table, a buffer, a fiber, or an abstract value with a marshal hook,
    then however the run of \<^verbatim>\<open>marshal_one\<close> on \<open>x\<close> ends (also when it panics in the body),
    \<open>x\<close> is in the table with the id that was the next id at the call: it was entered first,
    before anything of its body, and everything entered during the body has a later id.
  \<^item> If \<open>x\<close> is a tuple or a struct, the run is the run of its body from the state with the
    header written and \<open>x\<close> still not entered; if the body finishes, \<open>x\<close> is entered then, into
    the state the body left; if the body does not finish, neither is \<open>x\<close> entered by this call.
  \<^item> If \<open>x\<close> is a function, its definition is written with \<open>x\<close> not entered; if that
    finishes, \<open>x\<close> is entered with the id that is the next id then, and keeps it however the
    writing of the environments ends; if it does not finish, the run ends there.
  \<^item> A function environment that is not in the vector of seen environments has, however the
    run of \<^verbatim>\<open>marshal_one_env\<close> on it ends, the index that was the length of the vector at the
    call.
  \<^item> A value that is in the table with id \<open>i\<close>, and is not nil, false, true or a 32-bit
    integer, is written as \<^verbatim>\<open>LB_REFERENCE\<close> and \<open>i\<close>.
  \<^item> So an array that occurs among its own elements is written there as a back-reference:
    if the elements before that occurrence have been written, leaving the buffer \<open>buf sta\<close>,
    the next bytes are \<^verbatim>\<open>LB_REFERENCE\<close> and the id the array got at the call.
\<close>

theorem mark_seen_order:
  assumes "\<not> MARSH_STACKCHECK H flags"
  shows
  "(seen st x = None \<and> registry_symbol st x = None \<longrightarrow>
     (case x of
        JArray a \<Rightarrow> seen (final_state (marshal_one H (Suc n) st h x flags)) x = Some (nextid st)
      | JTable t \<Rightarrow> seen (final_state (marshal_one H (Suc n) st h x flags)) x = Some (nextid st)
      | JBuffer b \<Rightarrow> seen (final_state (marshal_one H (Suc n) st h x flags)) x = Some (nextid st)
      | JFiber f \<Rightarrow> seen (final_state (marshal_one H (Suc n) st h x flags)) x = Some (nextid st)
      | JAbstract a \<Rightarrow>
          ab_marshal (h_abstracts h a) \<noteq> None \<longrightarrow>
          seen (final_state (marshal_one H (Suc (Suc n)) st h x flags)) x = Some (nextid st)
      | JTuple fl tup \<Rightarrow>
          (let body = marshal_many (marshal H n)
                        (pushint (pushint (pushbyte st LB_TUPLE) (len32 tup)) fl) h tup (flags + 1)
           in marshal_one H (Suc n) st h x flags =
                (if is_done body then Done (MARK_SEEN (final_state body) x) (final_heap body)
                 else body))
      | JStruct kvs \<Rightarrow>
          (let body = marshal_many (marshal H n)
                        (pushint (pushbyte st LB_STRUCT) (janet_struct_length kvs)) h
                        (slot_values kvs) (flags + 1)
           in marshal_one H (Suc n) st h x flags =
                (if is_done body then Done (MARK_SEEN (final_state body) x) (final_heap body)
                 else body))
      | JFunction f \<Rightarrow>
          (let d = marshal_one_def H n (pushbyte st LB_FUNCTION) h (f_def (h_functions h f)) flags
           in if is_done d
              then seen (final_state (marshal_one H (Suc n) st h x flags)) x
                     = Some (nextid (final_state d))
              else marshal_one H (Suc n) st h x flags = d)
      | _ \<Rightarrow> True)) \<and>
   (v_index (seen_envs st) env 0 = None \<longrightarrow>
      v_index (seen_envs (final_state (marshal_one_env H (Suc n) st h env flags))) env 0
        = Some (length (seen_envs st))) \<and>
   (\<not> is_simple x \<and> int_in_range x = None \<longrightarrow>
      (\<forall>i. seen st x = Some i \<longrightarrow>
         marshal_one H (Suc n) st h x flags = Done (pushint (pushbyte st LB_REFERENCE) i) h)) \<and>
   (seen st (JArray a) = None \<and> registry_symbol st (JArray a) = None \<and>
    \<not> MARSH_STACKCHECK H (flags + 1) \<and>
    first_n (a_count (h_arrays h a)) (a_data (h_arrays h a)) = xs @ JArray a # ys \<and>
    marshal_many (marshal H (Suc n))
      (pushint (pushbyte (MARK_SEEN st (JArray a)) LB_ARRAY) (a_count (h_arrays h a)))
      h xs (flags + 1) = Done sta ha \<longrightarrow>
    (\<exists>bs. final_buf (marshal_one H (Suc (Suc n)) st h (JArray a) flags)
       = buf sta @ [LB_REFERENCE] @ int_bytes (nextid st) @ bs))"
proof (intro conjI impI allI)
  assume a: "seen st x = None \<and> registry_symbol st x = None"
  have u: "\<not> is_simple x \<Longrightarrow> int_in_range x = None \<Longrightarrow>
    marshal_one H (Suc m) st h x flags = marshal_reference_type H (marshal H m) st h x flags" for m
    using marshal_one_unseen [OF assms] a by simp
  show "case x of
        JArray a \<Rightarrow> seen (final_state (marshal_one H (Suc n) st h x flags)) x = Some (nextid st)
      | JTable t \<Rightarrow> seen (final_state (marshal_one H (Suc n) st h x flags)) x = Some (nextid st)
      | JBuffer b \<Rightarrow> seen (final_state (marshal_one H (Suc n) st h x flags)) x = Some (nextid st)
      | JFiber f \<Rightarrow> seen (final_state (marshal_one H (Suc n) st h x flags)) x = Some (nextid st)
      | JAbstract a \<Rightarrow>
          ab_marshal (h_abstracts h a) \<noteq> None \<longrightarrow>
          seen (final_state (marshal_one H (Suc (Suc n)) st h x flags)) x = Some (nextid st)
      | JTuple fl tup \<Rightarrow>
          (let body = marshal_many (marshal H n)
                        (pushint (pushint (pushbyte st LB_TUPLE) (len32 tup)) fl) h tup (flags + 1)
           in marshal_one H (Suc n) st h x flags =
                (if is_done body then Done (MARK_SEEN (final_state body) x) (final_heap body)
                 else body))
      | JStruct kvs \<Rightarrow>
          (let body = marshal_many (marshal H n)
                        (pushint (pushbyte st LB_STRUCT) (janet_struct_length kvs)) h
                        (slot_values kvs) (flags + 1)
           in marshal_one H (Suc n) st h x flags =
                (if is_done body then Done (MARK_SEEN (final_state body) x) (final_heap body)
                 else body))
      | JFunction f \<Rightarrow>
          (let d = marshal_one_def H n (pushbyte st LB_FUNCTION) h (f_def (h_functions h f)) flags
           in if is_done d
              then seen (final_state (marshal_one H (Suc n) st h x flags)) x
                     = Some (nextid (final_state d))
              else marshal_one H (Suc n) st h x flags = d)
      | _ \<Rightarrow> True"
  proof (cases x)
    case (JArray a)
    have "marshal_one H (Suc n) st h (JArray a) flags
        = marshal_many (marshal H n)
            (pushint (pushbyte (MARK_SEEN st (JArray a)) LB_ARRAY) (a_count (h_arrays h a))) h
            (first_n (a_count (h_arrays h a)) (a_data (h_arrays h a))) (flags + 1)"
      using u [of n] JArray
      by (simp add: is_simple_def int_in_range_def marshal_reference_type_def Let_def)
    then show ?thesis unfolding JArray janet.case by (simp only: marked_first_array)
  next
    case (JTable ta)
    have "marshal_one H (Suc n) st h (JTable ta) flags
        = mbind
            (case t_proto (h_tables h ta) of
               Some q \<Rightarrow> marshal H n (COne (JTable q) (flags + 1))
                  (pushint (pushbyte (MARK_SEEN st (JTable ta))
                     (if t_proto (h_tables h ta) \<noteq> None then LB_TABLE_PROTO else LB_TABLE))
                     (t_count (h_tables h ta))) h
             | None \<Rightarrow> Done (pushint (pushbyte (MARK_SEEN st (JTable ta))
                     (if t_proto (h_tables h ta) \<noteq> None then LB_TABLE_PROTO else LB_TABLE))
                     (t_count (h_tables h ta))) h)
            (\<lambda>st h. marshal_many (marshal H n) st h (slot_values (t_data (h_tables h ta))) (flags + 1))"
      using u [of n] JTable
      by (simp add: is_simple_def int_in_range_def marshal_reference_type_def Let_def)
    then show ?thesis unfolding JTable janet.case by (simp only: marked_first_table)
  next
    case (JBuffer b)
    then show ?thesis
      using u [of n]
      by (simp add: is_simple_def int_in_range_def marshal_reference_type_def Let_def seen_marked)
  next
    case (JFiber f)
    have "marshal_one H (Suc n) st h (JFiber f) flags
        = marshal H n (CFiber f (flags + 1)) (pushbyte (MARK_SEEN st (JFiber f)) LB_FIBER) h"
      using u [of n] JFiber
      by (simp add: is_simple_def int_in_range_def marshal_reference_type_def)
    then show ?thesis
      unfolding JFiber janet.case by (simp only: marked_first_call [OF call_ok_Fiber])
  next
    case (JAbstract a)
    have eq: "marshal_one H (Suc (Suc n)) st h (JAbstract a) flags
        = marshal_one_abstract_step H (marshal H n) st h (JAbstract a) flags"
      using u [of "Suc n"] JAbstract
      by (simp add: is_simple_def int_in_range_def marshal_reference_type_def)
    show ?thesis
      unfolding JAbstract janet.case eq marshal_one_abstract_step_def
      by (auto simp only: janet.case option.case marked_first_abstract)
  next
    case (JTuple fl tup)
    show ?thesis
      unfolding JTuple janet.case Let_def
      using u [of n] JTuple
      by (simp add: is_simple_def int_in_range_def marshal_reference_type_def mbind_done_or_not)
  next
    case (JStruct kvs)
    show ?thesis
      unfolding JStruct janet.case Let_def
      using u [of n] JStruct
      by (simp add: is_simple_def int_in_range_def marshal_reference_type_def mbind_done_or_not)
  next
    case (JFunction f)
    let ?d = "marshal_one_def H n (pushbyte st LB_FUNCTION) h (f_def (h_functions h f)) flags"
    have eq: "marshal_one H (Suc n) st h (JFunction f) flags
        = mbind ?d (\<lambda>st' h'. marshal_envs (marshal H n) (MARK_SEEN st' (JFunction f)) h'
                 (first_n (d_environments_length (h_funcdefs h' (f_def (h_functions h' f))))
                    (f_envs (h_functions h' f)))
                 (flags + 1))"
      using u [of n] JFunction
      by (simp add: is_simple_def int_in_range_def marshal_reference_type_def marshal_one_def_def)
    show ?thesis
      unfolding JFunction janet.case Let_def eq mbind_done_or_not
      by (simp add: marked_before_envs)
  qed simp_all
next
  assume "v_index (seen_envs st) env 0 = None"
  then show "v_index (seen_envs (final_state (marshal_one_env H (Suc n) st h env flags))) env 0
        = Some (length (seen_envs st))"
    using env_step_index [OF assms] by (simp add: marshal_one_env_Suc)
next
  fix i
  assume "\<not> is_simple x \<and> int_in_range x = None" "seen st x = Some i"
  then show "marshal_one H (Suc n) st h x flags = Done (pushint (pushbyte st LB_REFERENCE) i) h"
    using marshal_one_seen [OF assms] by simp
next
  let ?x = "JArray a"
  let ?st1 = "pushint (pushbyte (MARK_SEEN st ?x) LB_ARRAY) (a_count (h_arrays h a))"
  assume a: "seen st ?x = None \<and> registry_symbol st ?x = None \<and>
    \<not> MARSH_STACKCHECK H (flags + 1) \<and>
    first_n (a_count (h_arrays h a)) (a_data (h_arrays h a)) = xs @ ?x # ys \<and>
    marshal_many (marshal H (Suc n)) ?st1 h xs (flags + 1) = Done sta ha"
  note scs = step_closed_seen [of H]
  note scb = step_closed_buf [of H]
  from a have xs: "marshal_many (marshal H (Suc n)) ?st1 h xs (flags + 1) = Done sta ha" by simp
  have "seen (final_state (marshal_many (marshal H (Suc n)) ?st1 h xs (flags + 1))) ?x = Some (nextid st)"
    by (rule marked_first_array)
  then have s: "seen sta ?x = Some (nextid st)" unfolding xs by simp
  from a have c: "\<not> MARSH_STACKCHECK H (flags + 1)" by simp
  have ref: "marshal H (Suc n) (COne ?x (flags + 1)) sta ha
      = Done (pushint (pushbyte sta LB_REFERENCE) (nextid st)) ha"
    using marshal_one_seen [OF c _ _ s, of n ha]
    by (simp add: marshal_one_def is_simple_def int_in_range_def del: marshal.simps)
  have eq: "marshal_one H (Suc (Suc n)) st h ?x flags
      = marshal_many (marshal H (Suc n)) (pushint (pushbyte sta LB_REFERENCE) (nextid st)) ha ys
          (flags + 1)"
  proof -
    have "marshal_one H (Suc (Suc n)) st h ?x flags
        = marshal_many (marshal H (Suc n)) ?st1 h (xs @ ?x # ys) (flags + 1)"
      using a marshal_one_unseen [OF assms, of ?x st "Suc n" h]
      by (simp add: is_simple_def int_in_range_def marshal_reference_type_def Let_def
          del: marshal.simps)
    also have "\<dots> = marshal_many (marshal H (Suc n)) (pushint (pushbyte sta LB_REFERENCE) (nextid st)) ha ys
          (flags + 1)"
      by (simp add: marshal_many_append xs mbind_def ref del: marshal.simps)
    finally show ?thesis .
  qed
  have "reached (\<lambda>st h st' h'. \<exists>bs. buf st' = buf st @ bs)
          (pushint (pushbyte sta LB_REFERENCE) (nextid st)) ha
          (marshal_many (marshal H (Suc n)) (pushint (pushbyte sta LB_REFERENCE) (nextid st)) ha ys
             (flags + 1))"
    by (rule reached_many_pre [OF scb marshal_rec_ok [OF scb] sc_refl [OF scb]])
  from final_buf_reached [OF this]
  show "\<exists>bs. final_buf (marshal_one H (Suc (Suc n)) st h ?x flags)
       = buf sta @ [LB_REFERENCE] @ int_bytes (nextid st) @ bs"
    unfolding eq by (simp add: pushint_def pushbyte_def del: marshal.simps)
qed


text \<open>
  A tuple that holds the string \<open>a\<close> gets id 1, after the string (id 0); an array that holds the
  string \<open>a\<close> and itself gets id 0, before the string (id 1), and its second element is
  written as \<open>218, 0\<close>.
\<close>

theorem mark_seen_order_witness:
  "seen (final_state (marshal_one host0 (Suc (Suc 0)) st0 heap0 (JTuple 0 [JString [97]]) 0))
      (JString [97]) = Some 0 \<and>
   seen (final_state (marshal_one host0 (Suc (Suc 0)) st0 heap0 (JTuple 0 [JString [97]]) 0))
      (JTuple 0 [JString [97]]) = Some 1 \<and>
   final_buf (marshal_one host0 (Suc (Suc 0)) st0 heap0 (JTuple 0 [JString [97]]) 0)
      = [210, 1, 0, 206, 1, 97] \<and>
   seen (final_state (marshal_one host0 (Suc (Suc 0)) st0 heap_selfarray (JArray 0) 0))
      (JArray 0) = Some 0 \<and>
   seen (final_state (marshal_one host0 (Suc (Suc 0)) st0 heap_selfarray (JArray 0) 0))
      (JString [97]) = Some 1 \<and>
   (\<exists>bs. final_buf (marshal_one host0 (Suc (Suc 0)) st0 heap_selfarray (JArray 0) 0)
      = [209, 2, 206, 1, 97] @ [218] @ [0] @ bs) \<and>
   final_buf (marshal_one host0 (Suc (Suc 0)) st0 heap_selfarray (JArray 0) 0)
      = [209, 2, 206, 1, 97, 218, 0]"
proof -
  let ?t = "JTuple 0 [JString [97]]"
  let ?body = "marshal_many (marshal host0 (Suc 0))
                 (pushint (pushint (pushbyte st0 LB_TUPLE) (len32 [JString [97]])) 0) heap0
                 [JString [97]] (0 + 1)"
  let ?st1 = "pushint (pushbyte (MARK_SEEN st0 (JArray 0)) LB_ARRAY) (a_count (h_arrays heap_selfarray 0))"
  let ?sta = "pushbytes (pushint (pushbyte (MARK_SEEN ?st1 (JString [97])) LB_STRING)
                (len32 [97 :: byte])) [97] (len32 [97 :: byte])"
  have c0: "\<not> MARSH_STACKCHECK host0 0" by code_simp
  have c1: "\<not> MARSH_STACKCHECK host0 (0 + 1)" by code_simp
  have u: "seen st0 y = None \<and> registry_symbol st0 y = None" for y
    by (simp add: st0_def registry_symbol_def)
  have bd: "is_done ?body" by code_simp
  have bn: "nextid (final_state ?body) = 1" by code_simp
  have n0: "nextid st0 = 0" by (simp add: st0_def)
  have el: "first_n (a_count (h_arrays heap_selfarray 0)) (a_data (h_arrays heap_selfarray 0))
      = [JString [97]] @ JArray 0 # []" by code_simp
  have str: "marshal_many (marshal host0 (Suc 0)) ?st1 heap_selfarray [JString [97]] (0 + 1)
      = Done ?sta heap_selfarray"
    using c1
    by (simp add: marshal_one_step_def is_simple_def int_in_range_def mbind_def
        marshal_reference_type_def registry_symbol_def st0_def MARK_SEEN_def pushint_def
        pushbyte_def)
  have bsta: "buf ?sta = [209, 2, 206, 1, 97]" by code_simp
  have ib: "int_bytes (0 :: i32) = [0]" by code_simp
  note T = mark_seen_order [OF c0, where st = st0 and n = "Suc 0"]
  have 1: "seen (final_state (marshal_one host0 (Suc (Suc 0)) st0 heap0 ?t 0)) ?t = Some 1"
    using T [where x = ?t and h = heap0] u [of ?t] bd bn
    by (simp add: Let_def MARK_SEEN_def)
  have 2: "seen (final_state (marshal_one host0 (Suc (Suc 0)) st0 heap_selfarray (JArray 0) 0))
      (JArray 0) = Some 0"
    using T [where x = "JArray 0" and h = heap_selfarray] u [of "JArray 0"] n0 by simp
  have 3: "\<exists>bs. final_buf (marshal_one host0 (Suc (Suc 0)) st0 heap_selfarray (JArray 0) 0)
      = [209, 2, 206, 1, 97] @ [218] @ [0] @ bs"
    using mark_seen_order [OF c0, where st = st0 and n = 0 and h = heap_selfarray and a = 0
        and xs = "[JString [97]]" and ys = "[]" and sta = ?sta and ha = heap_selfarray]
      u [of "JArray 0"] c1 el str
    unfolding bsta n0 ib LB_REFERENCE_def by blast
  have 4: "seen (final_state (marshal_one host0 (Suc (Suc 0)) st0 heap0 ?t 0)) (JString [97]) = Some 0"
    by code_simp
  have 5: "final_buf (marshal_one host0 (Suc (Suc 0)) st0 heap0 ?t 0) = [210, 1, 0, 206, 1, 97]"
    by code_simp
  have 6: "seen (final_state (marshal_one host0 (Suc (Suc 0)) st0 heap_selfarray (JArray 0) 0))
      (JString [97]) = Some 1"
    by code_simp
  have 7: "final_buf (marshal_one host0 (Suc (Suc 0)) st0 heap_selfarray (JArray 0) 0)
      = [209, 2, 206, 1, 97, 218, 0]"
    by code_simp
  from 4 1 5 2 6 3 7 show ?thesis by (intro conjI)
qed


section \<open>Doubles on a big-endian host\<close>

text \<open>
  Claim C5 describes a full reversal of the eight payload bytes; the big-endian branch of the
  \<^verbatim>\<open>LB_REAL\<close> case does something else. It assigns \<^verbatim>\<open>u.bytes[5]\<close> twice and \<^verbatim>\<open>u.bytes[3]\<close>
  never: whatever the union held at index 3 stays there, where the payload byte \<open>p4\<close> belongs.
  On the big-endian host \<^const>\<open>host_be\<close> the writer encodes the double with the bit pattern
  \<^verbatim>\<open>0x0000000100000000\<close> as \<open>200, 0, 0, 0, 0, 1, 0, 0, 0\<close>, and the reader decodes these bytes
  to the double with the bit pattern 0, the number 0.
\<close>

theorem big_endian_real_byte_3_not_assigned:
  "read_real_big_endian [u0, u1, u2, u3, u4, u5, u6, u7] [lead, p0, p1, p2, p3, p4, p5, p6, p7]
     = [p7, p6, p5, u3, p3, p2, p1, p0] \<and>
   final_buf (janet_marshal host_be 1 [] heap0 (JNumber (Double 0x0000000100000000)) None 0)
     = [200, 0, 0, 0, 0, 1, 0, 0, 0] \<and>
   result_value (janet_unmarshal host_be 1 [200, 0, 0, 0, 0, 1, 0, 0, 0] heap0 0 None)
     = Some (JNumber (Integral 0))"
proof (intro conjI)
  show "read_real_big_endian [u0, u1, u2, u3, u4, u5, u6, u7] [lead, p0, p1, p2, p3, p4, p5, p6, p7]
     = [p7, p6, p5, u3, p3, p2, p1, p0]"
    by (simp add: read_real_big_endian_def)
  show "final_buf (janet_marshal host_be 1 [] heap0 (JNumber (Double 0x0000000100000000)) None 0)
     = [200, 0, 0, 0, 0, 1, 0, 0, 0]"
    by code_simp
  show "result_value (janet_unmarshal host_be 1 [200, 0, 0, 0, 0, 1, 0, 0, 0] heap0 0 None)
     = Some (JNumber (Integral 0))"
    by code_simp
qed


section \<open>Abstract records of an unknown type\<close>

text \<open>
  Claim C9. Let the reader stand on an \<^verbatim>\<open>LB_ABSTRACT\<close> byte, within the recursion guard, and
  let the value that follows decode to a key for which \<^verbatim>\<open>janet_get_abstract_type\<close> finds no
  type, or a type without an unmarshal hook. Then \<^verbatim>\<open>unmarshal_one_abstract\<close> does not panic: it
  returns the null cursor and leaves the output slot unwritten, in the state and heap reached
  by decoding the key; and \<^verbatim>\<open>unmarshal_one\<close> returns exactly that to its caller.
\<close>

theorem unknown_abstract_type_null_cursor:
  assumes "\<not> MARSH_STACKCHECK H flags" "0 \<le> p" "\<not> MARSH_EOS (src st) p"
    "src st ! nat p = LB_ABSTRACT"
    "unmarshal_one H n st h (Some (p + 1)) (flags + 1) = UDone data' (OutJanet key) st' h'"
    "case abstract_type H key of None \<Rightarrow> True | Some at \<Rightarrow> at_unmarshal at = None"
  shows "unmarshal_one_abstract H (Suc n) st h (Some (p + 1)) flags = UDone None Unset st' h' \<and>
         unmarshal_one H (Suc (Suc n)) st h (Some p) flags = UDone None Unset st' h'"
proof -
  have key: "unmarshal H n (UOne (Some (p + 1)) (flags + 1)) st h = UDone data' (OutJanet key) st' h'"
    using assms(5) by (simp add: unmarshal_one_def)
  have a: "unmarshal_one_abstract_step H (unmarshal H n) st h (Some (p + 1)) flags
      = UDone None Unset st' h'"
    using assms(6)
    by (simp add: unmarshal_one_abstract_step_def key ubind_def split: option.splits)
  have b: "unmarshal_one_step H (unmarshal H (Suc n)) st h (Some p) flags
      = unmarshal_one_abstract_step H (unmarshal H n) st h (Some (p + 1)) flags"
    unfolding unmarshal_one_step_def Let_def
    using assms(1-4) by (simp add: LB_defs)
  show ?thesis
    unfolding unmarshal_one_Suc unmarshal_one_abstract_Suc b a by simp
qed

theorem unknown_abstract_type_null_cursor_witness:
  "unmarshal_one_abstract host0 (Suc (Suc 0)) ust_abs heap0 (Some 1) 0
     = UDone None Unset (janet_array_push ust_abs (JKeyword [97])) heap0 \<and>
   unmarshal_one host0 (Suc (Suc (Suc 0))) ust_abs heap0 (Some 0) 0
     = UDone None Unset (janet_array_push ust_abs (JKeyword [97])) heap0"
proof -
  have b: "\<not> MARSH_STACKCHECK host0 0" by code_simp
  have c: "\<not> MARSH_STACKCHECK host0 (0 + 1)" by code_simp
  have l: "int_bytes (len32 [97 :: byte]) = [1]" by code_simp
  have s: "src ust_abs = [217] @ [LB_KEYWORD] @ int_bytes (len32 [97 :: byte]) @ [97] @ []"
    by (simp add: l ust_abs_def LB_KEYWORD_def)
  have k: "unmarshal_one host0 (Suc 0) ust_abs heap0 (Some (0 + 1)) (0 + 1)
      = UDone (Some 4) (OutJanet (JKeyword [97])) (janet_array_push ust_abs (JKeyword [97])) heap0"
    using unmarshal_one_keyword [OF s c, where n = 0 and h = heap0] by (simp add: l)
  have e: "\<not> MARSH_EOS (src ust_abs) 0" by (simp add: MARSH_EOS_def ust_abs_def)
  have d: "src ust_abs ! nat 0 = LB_ABSTRACT" by (simp add: ust_abs_def LB_ABSTRACT_def)
  have t: "case abstract_type host0 (JKeyword [97]) of None \<Rightarrow> True
           | Some at \<Rightarrow> at_unmarshal at = None"
    by (simp add: host0_def)
  show ?thesis
    using unknown_abstract_type_null_cursor [OF b _ e d k t] by simp
qed


end
